theory Spec2Isabelle
  imports Complex_Main "HOL-Library.AList"
begin

section \<open>The ILQL trainer of trlx/model/accelerate\_ilql\_model.py\<close>

text \<open>
  The file is one class, \<open>ILQLModel\<close>, with four methods: \<open>__init__\<close>,
  \<open>tokenize\<close>, \<open>get_components\<close> and \<open>learn\<close>. Everything else it touches
  (the Q/V model, the optimizer, the accelerator, the tokenizer, the tracker, the data
  loaders) is an object of another library. The embedding keeps the control flow of the
  four methods as it is written and records every call into another library as an
  \<open>event\<close>, in the order the source makes them. What such a call returns, and whether it
  raises, is a parameter (\<open>env\<close>): nothing is assumed about it.
\<close>

subsection \<open>Values\<close>

text \<open>A two-dimensional integer tensor (token ids): the list of its rows.\<close>

type_synonym tensor = "int list list"

text \<open>A training batch, as the training loader yields it.\<close>

type_synonym batch = "int list list"

text \<open>
  Python floats are taken as rationals: the only arithmetic the file does on them is one
  division (the learning-rate ratio) and one mean (the evaluation reward); rounding is not
  modelled. \<open>NaN\<close> is what \<open>torch.Tensor.mean\<close> gives on an empty tensor.
\<close>

datatype logval =
    Float rat
  | NaN
  | Table "string list" "(string \<times> rat) list"

text \<open>A Python dict with string keys, in insertion order.\<close>

type_synonym dict = "(string \<times> logval) list"

text \<open>\<open>d[k] = v\<close>: an existing key keeps its place, a new key goes last.\<close>

definition dict_set :: "string \<Rightarrow> logval \<Rightarrow> dict \<Rightarrow> dict" where
  "dict_set k v d = AList.update k v d"

text \<open>\<open>d.update(other)\<close>\<close>

definition dict_update :: "dict \<Rightarrow> dict \<Rightarrow> dict" where
  "dict_update other d = fold (\<lambda>(k, v). AList.update k v) other d"

text \<open>\<open>torch.vstack\<close>: the rows of the tensors, one after the other.\<close>

definition torch_vstack :: "tensor list \<Rightarrow> tensor" where
  "torch_vstack ts = concat ts"

text \<open>\<open>Tensor.mean()\<close> of a one-dimensional tensor of floats.\<close>

definition tensor_mean :: "rat list \<Rightarrow> logval" where
  "tensor_mean xs = (if xs = [] then NaN else Float (sum_list xs / of_nat (length xs)))"

subsection \<open>Exceptions\<close>

text \<open>
  The file defines no exception class and has no \<open>raise\<close> statement. What can be raised
  is raised by the interpreter (\<open>ZeroDivisionError\<close> at a \<open>%\<close> or \<open>/\<close> by zero,
  \<open>AttributeError\<close> at a missing attribute, \<open>TypeError\<close> at \<open>None + str\<close> or at a call of
  \<open>None\<close>) or by a call into another library (\<open>External\<close>, with the name the library gave
  its exception).
\<close>

datatype exc =
    ZeroDivisionError
  | AttributeError
  | TypeError
  | External string

definition bind_exc :: "exc + 'a \<Rightarrow> ('a \<Rightarrow> exc + 'b) \<Rightarrow> exc + 'b" where
  "bind_exc m f = (case m of Inl e \<Rightarrow> Inl e | Inr x \<Rightarrow> f x)"

text \<open>Statements in sequence: the first exception ends the sequence.\<close>

fun run :: "('s \<Rightarrow> exc + 's) list \<Rightarrow> 's \<Rightarrow> exc + 's" where
  "run [] s = Inr s"
| "run (a # as) s = (case a s of Inl e \<Rightarrow> Inl e | Inr s' \<Rightarrow> run as s')"

text \<open>Python's \<open>a % b\<close> and \<open>a / b\<close>; HOL's \<open>mod\<close> on \<open>int\<close> is the floored one, as Python's.\<close>

definition py_mod :: "int \<Rightarrow> int \<Rightarrow> exc + int" where
  "py_mod a b = (if b = 0 then Inl ZeroDivisionError else Inr (a mod b))"

definition py_truediv :: "rat \<Rightarrow> rat \<Rightarrow> exc + rat" where
  "py_truediv a b = (if b = 0 then Inl ZeroDivisionError else Inr (a / b))"

subsection \<open>Configuration\<close>

text \<open>The fields of \<open>config.train\<close> and \<open>config.method\<close> that the file reads.\<close>

record train_config =
  epochs :: int
  eval_interval :: int
  batch_size :: int
  gen_size :: int
  learning_rate_init :: rat
  learning_rate_target :: rat
  lr_ramp_steps :: int
  lr_decay_steps :: int
  project_name :: string

record method_config =
  steps_for_target_q_sync :: int

record trl_config =
  train :: train_config
  method' :: method_config

subsection \<open>Objects of other libraries\<close>

text \<open>
  The model, the optimizer and the scheduler are handles: what was constructed, from
  what. \<open>Prepared\<close> is what \<open>accelerator.prepare\<close> hands back for a model or an optimizer.
\<close>

datatype qv_model =
    QVModel string method_config
  | Prepared_model qv_model

datatype optimizer =
    AdamW qv_model rat
  | Prepared_opt optimizer

datatype scheduler =
    Rampup_decay int int rat optimizer

text \<open>The keyword arguments of one call of the tokenizer.\<close>

record tokenizer_call =
  arg_texts :: "string list"
  arg_max_length :: int
  arg_truncation :: bool
  arg_padding :: bool
  arg_return_tensors :: string

record batch_encoding =
  input_ids :: tensor
  attention_mask :: tensor

text \<open>
  A tokenizer of the transformers library: the attributes the file reads (each may be
  Python's \<open>None\<close>) and the two methods it calls.
\<close>

record tokenizer =
  bos_token :: "string option"
  eos_token :: "string option"
  eos_token_id :: "int option"
  encode :: "tokenizer_call \<Rightarrow> batch_encoding"
  batch_decode :: "tensor \<Rightarrow> bool \<Rightarrow> string list"

datatype component =
    C_model qv_model
  | C_opt optimizer
  | C_scheduler scheduler

subsection \<open>Events: the calls into other libraries\<close>

datatype event =
    BaseRLModel_init trl_config bool
  | QVModel_new string method_config
  | Accelerator_new string
  | Accelerator_print "(string \<times> string) list"
  | Distributed_barrier "int list"
  | Manual_seed int
  | Init_trackers string trl_config
  | AdamW_new qv_model rat
  | Rampup_decay_new int int rat optimizer
  | Tokenizer_call tokenizer_call
  | Clock_new
  | Create_train_loader int "int option"
  | Create_eval_loader int bool
  | Accelerator_prepare qv_model optimizer
  | Model_eval
  | Model_sample bool tensor rat int "tensor option"
  | Torch_vstack "tensor list"
  | Accelerator_gather tensor
  | Reward_fn tensor
  | Torch_tensor "rat list"
  | Tensor_mean "rat list"
  | Stats_fn tensor
  | Batch_decode tensor bool
  | Wandb_table "string list" "(string \<times> rat) list"
  | Print_pairs "(string \<times> rat) list"
  | Print_samples tensor
  | Model_train
  | Model_loss bool batch
  | Accelerator_log dict
  | Accelerator_backward rat
  | Opt_step
  | Opt_zero_grad
  | Scheduler_step
  | Sync_target_q_heads

text \<open>
  \<open>Model_sample g p b m lm\<close> is \<open>model.sample(p, beta=b, max_length=m, logit_mask=lm)\<close>
  with gradients enabled (\<open>g\<close>) or not; \<open>Model_loss t b\<close> is \<open>model.loss(b)\<close> on a model
  that is in training mode (\<open>t\<close>) or in evaluation mode.
\<close>

subsection \<open>The world outside the file\<close>

text \<open>
  \<open>raises h e\<close>: whether the call \<open>e\<close>, made after the calls \<open>h\<close>, raises, and what.
  The other fields are what the calls return when they do not raise. \<open>sample\<close> and
  \<open>loss\<close> depend on the number of optimizer steps made so far (the model's weights
  change with each), \<open>loss\<close> also on the model's mode. \<open>train_batches k\<close> is what the
  prepared training loader yields in epoch \<open>k\<close>; \<open>eval_batches n\<close> what the prepared
  evaluation loader yields when it is iterated after \<open>n\<close> optimizer steps.
  \<open>reward_fn\<close> and \<open>stats_fn\<close> are the attributes of these names, which the caller of
  \<open>learn\<close> sets (\<open>stats_fn\<close> may be \<open>None\<close>). \<open>py_int\<close> is the built-in \<open>int\<close> on a
  string. \<open>training0\<close> is the mode the model is in when \<open>learn\<close> is entered.
\<close>

record env =
  raises :: "event list \<Rightarrow> event \<Rightarrow> string option"
  environ :: "(string \<times> string) list"
  py_int :: "string \<Rightarrow> exc + int"
  is_main_process :: bool
  beta :: rat
  training0 :: bool
  sample :: "int \<Rightarrow> tensor \<Rightarrow> rat \<Rightarrow> int \<Rightarrow> tensor option \<Rightarrow> tensor"
  gather :: "tensor \<Rightarrow> tensor"
  reward_fn :: "tensor \<Rightarrow> rat list"
  stats_fn :: "(tensor \<Rightarrow> dict) option"
  loss :: "int \<Rightarrow> bool \<Rightarrow> batch \<Rightarrow> rat \<times> dict"
  train_batches :: "nat \<Rightarrow> batch list"
  eval_batches :: "int \<Rightarrow> tensor list"

text \<open>\<open>os.environ.get(k)\<close> used as a condition: set, and not the empty string.\<close>

definition environ_truthy :: "env \<Rightarrow> string \<Rightarrow> bool" where
  "environ_truthy env k = (case map_of (environ env) k of None \<Rightarrow> False | Some v \<Rightarrow> v \<noteq> [])"

subsection \<open>Module level: lines 20 and 21\<close>

record globals =
  WORLD_SIZE :: int
  LOCAL_RANK :: int

text \<open>\<open>int(os.environ.get(k, d))\<close>\<close>

definition environ_int :: "env \<Rightarrow> string \<Rightarrow> int \<Rightarrow> exc + int" where
  "environ_int env k d = (case map_of (environ env) k of None \<Rightarrow> Inr d | Some v \<Rightarrow> py_int env v)"

definition module_import :: "env \<Rightarrow> exc + globals" where
  "module_import env =
     bind_exc (environ_int env ''WORLD_SIZE'' 1) (\<lambda>ws.
     bind_exc (environ_int env ''LOCAL_RANK'' 0) (\<lambda>lr.
       Inr \<lparr>WORLD_SIZE = ws, LOCAL_RANK = lr\<rparr>))"

subsection \<open>The object\<close>

text \<open>
  The attributes of an \<open>ILQLModel\<close>. \<open>config\<close> and \<open>train_mode\<close> are set by
  \<open>BaseRLModel.__init__\<close>, the others by \<open>ILQLModel.__init__\<close>. \<open>opt\<close> and
  \<open>scheduler\<close> are \<open>None\<close> here when the attribute does not exist.
\<close>

record ilql =
  config :: trl_config
  train_mode :: bool
  model :: qv_model
  max_length :: int
  tokenizer :: "tokenizer option"
  logit_mask :: "tensor option"
  opt :: "optimizer option"
  scheduler :: "scheduler option"

subsection \<open>\<open>__init__\<close>: lines 25 to 51\<close>

text \<open>A call into another library, in a method that keeps no counter.\<close>

definition call0 :: "env \<Rightarrow> event \<Rightarrow> event list \<Rightarrow> exc + event list" where
  "call0 env e tr = (case raises env tr e of Some x \<Rightarrow> Inl (External x) | None \<Rightarrow> Inr (tr @ [e]))"

text \<open>
  Modelled from the spec: \<open>BaseRLModel.__init__(config, train_mode)\<close> is code of the
  repository that is not among the sources; it is taken to store its two arguments as
  \<open>self.config\<close> and \<open>self.train_mode\<close>, which \<open>ILQLModel.__init__\<close> reads right after.
\<close>

definition init ::
  "env \<Rightarrow> globals \<Rightarrow> trl_config \<Rightarrow> string \<Rightarrow> tokenizer option \<Rightarrow> tensor option \<Rightarrow> bool
    \<Rightarrow> exc + (ilql \<times> event list)" where
  "init env g cfg gpt_config_or_path tok lmask tmode =
     (let m = QVModel gpt_config_or_path (method' cfg);
          adamw = AdamW m (learning_rate_init (train cfg))
      in
      bind_exc (run
        [call0 env (BaseRLModel_init cfg tmode),
         call0 env (QVModel_new gpt_config_or_path (method' cfg)),
         call0 env (Accelerator_new ''wandb''),
         call0 env (Accelerator_print (environ env)),
         if WORLD_SIZE g > 1
         then call0 env (Distributed_barrier [LOCAL_RANK g])
         else call0 env (Manual_seed 1000),
         if is_main_process env
         then call0 env (Init_trackers (project_name (train cfg)) cfg)
         else Inr] []) (\<lambda>tr.
      let self = \<lparr>config = cfg, train_mode = tmode, model = m,
                  max_length = gen_size (train cfg), tokenizer = tok,
                  logit_mask = lmask, opt = None, scheduler = None\<rparr>
      in
      if tmode then
        bind_exc (call0 env (AdamW_new m (learning_rate_init (train cfg))) tr) (\<lambda>tr.
        bind_exc (py_truediv (learning_rate_target (train cfg)) (learning_rate_init (train cfg))) (\<lambda>ratio.
        bind_exc (call0 env (Rampup_decay_new (lr_ramp_steps (train cfg)) (lr_decay_steps (train cfg)) ratio adamw) tr) (\<lambda>tr.
          Inr (self\<lparr>opt := Some adamw,
                    scheduler := Some (Rampup_decay (lr_ramp_steps (train cfg)) (lr_decay_steps (train cfg)) ratio adamw)\<rparr>,
               tr))))
      else Inr (self, tr)))"

subsection \<open>\<open>tokenize\<close>: lines 53 to 60\<close>

text \<open>
  The list comprehension \<open>[bos_token + x + eos_token for x in texts]\<close>. Its body runs
  once per text: on no text at all nothing is read and nothing can fail; otherwise a
  \<open>bos_token\<close> or \<open>eos_token\<close> that is \<open>None\<close> is a \<open>TypeError\<close> at the \<open>+\<close>.
\<close>

definition wrap_texts :: "tokenizer \<Rightarrow> string list \<Rightarrow> exc + string list" where
  "wrap_texts tk xs =
     (if xs = [] then Inr []
      else case bos_token tk of
             None \<Rightarrow> Inl TypeError
           | Some b \<Rightarrow> (case eos_token tk of
                          None \<Rightarrow> Inl TypeError
                        | Some e \<Rightarrow> Inr (map (\<lambda>x. b @ x @ e) xs)))"

text \<open>
  Without a tokenizer (\<open>self.tokenizer\<close> is \<open>None\<close>) the comprehension fails at
  \<open>None.bos_token\<close> on the first text; with no text, the call of \<open>None\<close> fails.
\<close>

definition tokenize ::
  "env \<Rightarrow> ilql \<Rightarrow> string list \<Rightarrow> event list \<Rightarrow> exc + (batch_encoding \<times> event list)" where
  "tokenize env self xs tr =
     (case tokenizer self of
        None \<Rightarrow> if xs = [] then Inl TypeError else Inl AttributeError
      | Some tk \<Rightarrow>
          bind_exc (wrap_texts tk xs) (\<lambda>ws.
          let c = \<lparr>arg_texts = ws, arg_max_length = max_length self, arg_truncation = True,
                   arg_padding = True, arg_return_tensors = ''pt''\<rparr>
          in bind_exc (call0 env (Tokenizer_call c) tr) (\<lambda>tr. Inr (encode tk c, tr))))"

subsection \<open>\<open>get_components\<close>: lines 62 to 67\<close>

definition get_components :: "ilql \<Rightarrow> exc + (string \<times> component) list" where
  "get_components self =
     (if train_mode self then
        (case opt self of
           None \<Rightarrow> Inl AttributeError
         | Some ad \<Rightarrow>
             (case scheduler self of
                None \<Rightarrow> Inl AttributeError
              | Some sch \<Rightarrow>
                  Inr [(''model'', C_model (model self)), (''opt'', C_opt ad),
                       (''scheduler'', C_scheduler sch)]))
      else Inr [(''model'', C_model (model self))])"

subsection \<open>\<open>learn\<close>: lines 69 to 137\<close>

text \<open>
  The local state of \<open>learn\<close>: the counter \<open>opt_steps\<close>, the dict \<open>logs\<close>, the mode of
  \<open>self.model\<close> (set by \<open>model.eval()\<close> and \<open>model.train()\<close>), and the calls made so
  far, each with the value \<open>opt_steps\<close> had when it was made (0 before line 80).
\<close>

record learn_state =
  opt_steps :: int
  logs :: dict
  training :: bool
  trace :: "(int \<times> event) list"

definition call :: "env \<Rightarrow> event \<Rightarrow> learn_state \<Rightarrow> exc + learn_state" where
  "call env e st =
     (case raises env (map snd (trace st)) e of
        Some x \<Rightarrow> Inl (External x)
      | None \<Rightarrow> Inr (st\<lparr>trace := trace st @ [(opt_steps st, e)]\<rparr>))"

definition model_eval :: "env \<Rightarrow> learn_state \<Rightarrow> exc + learn_state" where
  "model_eval env st = bind_exc (call env Model_eval st) (\<lambda>st. Inr (st\<lparr>training := False\<rparr>))"

definition model_train :: "env \<Rightarrow> learn_state \<Rightarrow> exc + learn_state" where
  "model_train env st = bind_exc (call env Model_train st) (\<lambda>st. Inr (st\<lparr>training := True\<rparr>))"

definition logs_store :: "string \<Rightarrow> logval \<Rightarrow> learn_state \<Rightarrow> exc + learn_state" where
  "logs_store k v st = Inr (st\<lparr>logs := dict_set k v (logs st)\<rparr>)"

definition logs_merge :: "dict \<Rightarrow> learn_state \<Rightarrow> exc + learn_state" where
  "logs_merge d st = Inr (st\<lparr>logs := dict_update d (logs st)\<rparr>)"

text \<open>Lines 103 to 120: what the main process does with the gathered samples.\<close>

definition evaluate_main :: "env \<Rightarrow> ilql \<Rightarrow> tensor \<Rightarrow> learn_state \<Rightarrow> exc + learn_state" where
  "evaluate_main env self samples =
     (let rewards = reward_fn env samples;
          reward = tensor_mean rewards
      in run
        [call env (Reward_fn samples),
         call env (Torch_tensor rewards),
         call env (Tensor_mean rewards),
         case stats_fn env of
           None \<Rightarrow> Inr
         | Some f \<Rightarrow> run [call env (Stats_fn samples), logs_merge (f samples)],
         case tokenizer self of
           Some tk \<Rightarrow>
             (let texts = batch_decode tk samples True;
                  pairs = zip texts rewards
              in run
                [call env (Batch_decode samples True),
                 call env (Wandb_table [''samples'', ''reward''] (take 16 pairs)),
                 logs_store ''samples'' (Table [''samples'', ''reward''] (take 16 pairs)),
                 if environ_truthy env ''DEBUG''
                 then call env (Print_pairs (take 10 pairs)) else Inr])
         | None \<Rightarrow>
             (if environ_truthy env ''DEBUG''
              then call env (Print_samples samples) else Inr),
         logs_store ''reward'' reward])"

text \<open>
  Lines 88 to 100: \<open>all_samples\<close> after the loop over the evaluation loader, made
  after \<open>n\<close> optimizer steps, and what \<open>accelerator.gather\<close> makes of their stack.
\<close>

definition eval_samples :: "env \<Rightarrow> ilql \<Rightarrow> int \<Rightarrow> tensor list" where
  "eval_samples env self n =
     map (\<lambda>prompts. sample env n prompts (beta env) (gen_size (train (config self))) (logit_mask self))
       (eval_batches env n)"

definition eval_gathered :: "env \<Rightarrow> ilql \<Rightarrow> int \<Rightarrow> tensor" where
  "eval_gathered env self n = gather env (torch_vstack (eval_samples env self n))"

text \<open>Lines 86 to 122: one evaluation pass.\<close>

definition evaluate :: "env \<Rightarrow> ilql \<Rightarrow> learn_state \<Rightarrow> exc + learn_state" where
  "evaluate env self st =
     (let n = opt_steps st;
          all_samples = eval_samples env self n;
          samples = eval_gathered env self n
      in run
        [model_eval env,
         run (map (\<lambda>prompts. call env (Model_sample False prompts (beta env)
                                  (gen_size (train (config self))) (logit_mask self)))
                (eval_batches env n)),
         call env (Torch_vstack all_samples),
         call env (Accelerator_gather (torch_vstack all_samples)),
         if is_main_process env then evaluate_main env self samples else Inr,
         model_train env] st)"

text \<open>
  Lines 85 to 137: the body of the inner loop, for one training batch. \<open>self.opt\<close> was
  assigned at line 76; \<open>self.scheduler\<close> is read at line 133, and exists only on an
  object made in training mode.
\<close>

definition learn_batch :: "env \<Rightarrow> ilql \<Rightarrow> batch \<Rightarrow> learn_state \<Rightarrow> exc + learn_state" where
  "learn_batch env self b =
     run
       [\<lambda>st. bind_exc (py_mod (opt_steps st) (eval_interval (train (config self)))) (\<lambda>r.
               if r = 0 then evaluate env self st else Inr st),
        \<lambda>st. call env (Model_loss (training st) b) st,
        \<lambda>st. bind_exc (py_mod (opt_steps st) (eval_interval (train (config self)))) (\<lambda>r.
               if r = 0
               then run [logs_merge (snd (loss env (opt_steps st) (training st) b)),
                         \<lambda>st. call env (Accelerator_log (logs st)) st] st
               else Inr st),
        \<lambda>st. call env (Accelerator_backward (fst (loss env (opt_steps st) (training st) b))) st,
        call env Opt_step,
        call env Opt_zero_grad,
        (case scheduler self of
           None \<Rightarrow> (\<lambda>st. Inl AttributeError)
         | Some sch \<Rightarrow> call env Scheduler_step),
        \<lambda>st. Inr (st\<lparr>opt_steps := opt_steps st + 1\<rparr>),
        \<lambda>st. bind_exc (py_mod (opt_steps st) (steps_for_target_q_sync (method' (config self)))) (\<lambda>r.
               if r = 0 then call env Sync_target_q_heads st else Inr st)]"

text \<open>Lines 82 to 137: one epoch. (\<open>evals_stats\<close> is assigned and never read.)\<close>

definition learn_epoch :: "env \<Rightarrow> ilql \<Rightarrow> nat \<Rightarrow> learn_state \<Rightarrow> exc + learn_state" where
  "learn_epoch env self epoch =
     run ((\<lambda>st. Inr (st\<lparr>logs := []\<rparr>)) # map (learn_batch env self) (train_batches env epoch))"

text \<open>
  The whole method. \<open>self.tokenizer.eos_token_id if self.tokenizer else 0\<close>: the
  attribute (which may be \<open>None\<close>) with a tokenizer, the integer 0 without.
  \<open>self.opt\<close> is read at line 77; it exists only on an object made in training mode.
  \<open>range(epochs)\<close> is empty for a negative \<open>epochs\<close>. The result is the object, with
  \<open>self.model\<close> and \<open>self.opt\<close> rebound at line 76, and the final local state.
\<close>

definition learn :: "env \<Rightarrow> ilql \<Rightarrow> exc + (ilql \<times> learn_state)" where
  "learn env self =
     (let eos = (case tokenizer self of Some tk \<Rightarrow> eos_token_id tk | None \<Rightarrow> Some 0);
          bs = batch_size (train (config self))
      in
      bind_exc (run
        [call env Clock_new,
         call env (Create_train_loader bs eos),
         call env (Create_eval_loader bs False)]
        \<lparr>opt_steps = 0, logs = [], training = training0 env, trace = []\<rparr>) (\<lambda>st.
      case opt self of
        None \<Rightarrow> Inl AttributeError
      | Some ad \<Rightarrow>
          bind_exc (call env (Accelerator_prepare (model self) ad) st) (\<lambda>st.
          let self' = self\<lparr>model := Prepared_model (model self), opt := Some (Prepared_opt ad)\<rparr>
          in
          bind_exc (run (map (learn_epoch env self') [0..<nat (epochs (train (config self')))]) st) (\<lambda>st.
            Inr (self', st)))))"

subsection \<open>Reading a trace\<close>

text \<open>The calls made while \<open>opt_steps\<close> had the value \<open>n\<close>, in the order they were made.\<close>

definition calls_at :: "int \<Rightarrow> (int \<times> event) list \<Rightarrow> event list" where
  "calls_at n tr = map snd (filter (\<lambda>(k, e). k = n) tr)"

text \<open>All training batches of a run, epoch after epoch.\<close>

definition all_batches :: "env \<Rightarrow> ilql \<Rightarrow> batch list" where
  "all_batches env self = concat (map (train_batches env) [0..<nat (epochs (train (config self)))])"

subsection \<open>The calls of a run that returns\<close>

text \<open>
  The lists below are not part of the embedding: they spell out, piece by piece, which
  calls a run of \<open>learn\<close> that returns has made. The lemmas \<open>evaluate_main_Inr\<close>,
  \<open>evaluate_Inr\<close>, \<open>learn_batch_Inr\<close> and \<open>learn_calls\<close> prove that they are the
  calls of the embedding; the theorems on \<open>learn\<close> are read off them.
\<close>

definition main_calls :: "env \<Rightarrow> ilql \<Rightarrow> tensor \<Rightarrow> event list" where
  "main_calls env self samples =
     [Reward_fn samples, Torch_tensor (reward_fn env samples), Tensor_mean (reward_fn env samples)] @
     (case stats_fn env of None \<Rightarrow> [] | Some f \<Rightarrow> [Stats_fn samples]) @
     (case tokenizer self of
        Some tk \<Rightarrow>
          [Batch_decode samples True,
           Wandb_table [''samples'', ''reward'']
             (take 16 (zip (batch_decode tk samples True) (reward_fn env samples)))] @
          (if environ_truthy env ''DEBUG''
           then [Print_pairs (take 10 (zip (batch_decode tk samples True) (reward_fn env samples)))]
           else [])
      | None \<Rightarrow> (if environ_truthy env ''DEBUG'' then [Print_samples samples] else []))"

definition main_logs :: "env \<Rightarrow> ilql \<Rightarrow> tensor \<Rightarrow> dict \<Rightarrow> dict" where
  "main_logs env self samples lg =
     dict_set ''reward'' (tensor_mean (reward_fn env samples))
       ((case tokenizer self of
           Some tk \<Rightarrow> dict_set ''samples'' (Table [''samples'', ''reward'']
             (take 16 (zip (batch_decode tk samples True) (reward_fn env samples))))
         | None \<Rightarrow> id)
        ((case stats_fn env of None \<Rightarrow> id | Some f \<Rightarrow> dict_update (f samples)) lg))"

definition eval_calls :: "env \<Rightarrow> ilql \<Rightarrow> int \<Rightarrow> event list" where
  "eval_calls env self n =
     Model_eval #
     map (\<lambda>prompts. Model_sample False prompts (beta env) (gen_size (train (config self))) (logit_mask self))
       (eval_batches env n) @
     [Torch_vstack (eval_samples env self n),
      Accelerator_gather (torch_vstack (eval_samples env self n))] @
     (if is_main_process env then main_calls env self (eval_gathered env self n) else []) @
     [Model_train]"

definition eval_logs :: "env \<Rightarrow> ilql \<Rightarrow> int \<Rightarrow> dict \<Rightarrow> dict" where
  "eval_logs env self n lg =
     (if is_main_process env then main_logs env self (eval_gathered env self n) lg else lg)"

definition batch_logs :: "env \<Rightarrow> ilql \<Rightarrow> int \<Rightarrow> dict \<Rightarrow> batch \<Rightarrow> dict" where
  "batch_logs env self n lg b =
     (if n mod eval_interval (train (config self)) = 0
      then dict_update (snd (loss env n True b)) (eval_logs env self n lg)
      else lg)"

definition batch_calls :: "env \<Rightarrow> ilql \<Rightarrow> int \<Rightarrow> bool \<Rightarrow> dict \<Rightarrow> batch \<Rightarrow> event list" where
  "batch_calls env self n t lg b =
     (if n mod eval_interval (train (config self)) = 0 then eval_calls env self n else []) @
     [Model_loss (n mod eval_interval (train (config self)) = 0 \<or> t) b] @
     (if n mod eval_interval (train (config self)) = 0
      then [Accelerator_log (batch_logs env self n lg b)] else []) @
     [Accelerator_backward (fst (loss env n (n mod eval_interval (train (config self)) = 0 \<or> t) b)),
      Opt_step, Opt_zero_grad, Scheduler_step]"

definition sync_calls :: "ilql \<Rightarrow> int \<Rightarrow> event list" where
  "sync_calls self n =
     (if n mod steps_for_target_q_sync (method' (config self)) = 0 then [Sync_target_q_heads] else [])"

definition setup_calls :: "ilql \<Rightarrow> event list" where
  "setup_calls self =
     [Clock_new,
      Create_train_loader (batch_size (train (config self)))
        (case tokenizer self of Some tk \<Rightarrow> eos_token_id tk | None \<Rightarrow> Some 0),
      Create_eval_loader (batch_size (train (config self))) False] @
     (case opt self of Some ad \<Rightarrow> [Accelerator_prepare (model self) ad] | None \<Rightarrow> [])"

definition step_calls :: "env \<Rightarrow> ilql \<Rightarrow> event list \<Rightarrow> batch list \<Rightarrow> int \<Rightarrow> dict \<Rightarrow> event list" where
  "step_calls env self pre bs n lg =
     (if n < 0 \<or> int (length bs) < n then []
      else (if n = 0 then pre else sync_calls self n) @
           (if n < int (length bs) then batch_calls env self n True lg (bs ! nat n) else []))"

text \<open>
  The loop invariant: after the batches \<open>bs\<close>, \<open>opt_steps\<close> is their number, the model
  is in training mode unless no batch was processed, and the calls made at each value
  of the counter are those of \<open>step_calls\<close>.
\<close>

definition loop_inv :: "env \<Rightarrow> ilql \<Rightarrow> event list \<Rightarrow> batch list \<Rightarrow> learn_state \<Rightarrow> bool" where
  "loop_inv env self pre bs st =
     (opt_steps st = int (length bs) \<and> (bs = [] \<or> training st) \<and>
      (\<forall>n. \<exists>lg. calls_at n (trace st) = step_calls env self pre bs n lg))"

subsection \<open>A concrete run\<close>

text \<open>
  A small configuration, tokenizer and world, on which the theorems below are
  instantiated: one epoch of three batches, an evaluation every second step, a
  synchronisation of the target heads every second step, two processes.
\<close>

definition cfg_w :: trl_config where
  "cfg_w = \<lparr>train = \<lparr>epochs = 1, eval_interval = 2, batch_size = 1, gen_size = 4,
               learning_rate_init = 1 / 1000, learning_rate_target = 1 / 10000,
               lr_ramp_steps = 10, lr_decay_steps = 100, project_name = ''ilql''\<rparr>,
            method' = \<lparr>steps_for_target_q_sync = 2\<rparr>\<rparr>"

definition tk_w :: tokenizer where
  "tk_w = \<lparr>bos_token = Some ''<s>'', eos_token = Some ''</s>'', eos_token_id = Some 2,
           encode = (\<lambda>c. \<lparr>input_ids = map (\<lambda>t. take (nat (arg_max_length c)) (map (\<lambda>ch. int (of_char ch)) t))
                                        (arg_texts c),
                            attention_mask = map (\<lambda>t. replicate (min (length t) (nat (arg_max_length c))) 1)
                                        (arg_texts c)\<rparr>),
           batch_decode = (\<lambda>t skip. map (\<lambda>row. map (\<lambda>i. char_of i) row) t)\<rparr>"

definition env_w :: env where
  "env_w = \<lparr>raises = (\<lambda>h e. None),
            environ = [(''WORLD_SIZE'', ''2''), (''LOCAL_RANK'', ''1''), (''DEBUG'', ''1'')],
            py_int = (\<lambda>v. if v = ''2'' then Inr 2 else if v = ''1'' then Inr 1
                           else Inl (External ''ValueError'')),
            is_main_process = True,
            beta = 1,
            training0 = False,
            sample = (\<lambda>n prompts b m lm. map (\<lambda>row. take (nat m) (row @ [7])) prompts),
            gather = (\<lambda>t. t @ t),
            reward_fn = (\<lambda>t. map (\<lambda>row. of_int (sum_list row)) t),
            stats_fn = None,
            loss = (\<lambda>n t b. (1, [(''loss'', Float 1)])),
            train_batches = (\<lambda>k. [[[1]], [[2]], [[3]]]),
            eval_batches = (\<lambda>n. [[[5, 6]]])\<rparr>"

definition g_w :: globals where
  "g_w = \<lparr>WORLD_SIZE = 2, LOCAL_RANK = 1\<rparr>"

text \<open>The object \<open>ILQLModel(cfg_w, 'gpt2', tokenizer)\<close> after \<open>__init__\<close>, in training mode.\<close>

definition self_w :: "tokenizer option \<Rightarrow> ilql" where
  "self_w tok =
     \<lparr>config = cfg_w, train_mode = True, model = QVModel ''gpt2'' (method' cfg_w),
      max_length = 4, tokenizer = tok, logit_mask = None,
      opt = Some (AdamW (QVModel ''gpt2'' (method' cfg_w)) (1 / 1000)),
      scheduler = Some (Rampup_decay 10 100 (1 / 10) (AdamW (QVModel ''gpt2'' (method' cfg_w)) (1 / 1000)))\<rparr>"

subsection \<open>Exceptions of a run\<close>

text \<open>
  \<open>quiet_world env\<close> is the world \<open>env\<close> in which no call raises: a run in it shows
  the calls that the method makes when nothing fails. \<open>first_raise env h cs\<close> is what
  the first of the calls \<open>cs\<close> that raises in \<open>env\<close> raises, when they are made one
  after the other after the calls \<open>h\<close>.
\<close>

definition quiet_world :: "env \<Rightarrow> env" where
  "quiet_world env = env\<lparr>raises := (\<lambda>h c. None)\<rparr>"

fun first_raise :: "env \<Rightarrow> event list \<Rightarrow> event list \<Rightarrow> string option" where
  "first_raise env h [] = None"
| "first_raise env h (c # cs) =
     (case raises env h c of Some x \<Rightarrow> Some x | None \<Rightarrow> first_raise env (h @ [c]) cs)"

text \<open>
  \<open>call_failure env e\<close>: the exception \<open>e\<close> is one that a call into another library
  raises, as that call raises it. \<open>fails_with P a\<close>: the exceptions of the statement
  \<open>a\<close> satisfy \<open>P\<close>. \<open>follows tr env aq a\<close>: the statement \<open>a\<close>, run in \<open>env\<close>,
  does what \<open>aq\<close> does in the quiet world up to the first call that raises, and ends
  there with the exception of that call; \<open>tr\<close> reads the calls made so far off the
  state.
\<close>

definition call_failure :: "env \<Rightarrow> exc \<Rightarrow> bool" where
  "call_failure env e = (\<exists>h c x. raises env h c = Some x \<and> e = External x)"

definition fails_with :: "(exc \<Rightarrow> bool) \<Rightarrow> ('s \<Rightarrow> exc + 's) \<Rightarrow> bool" where
  "fails_with P a = (\<forall>s e. a s = Inl e \<longrightarrow> P e)"

definition step_failure :: "env \<Rightarrow> ilql \<Rightarrow> exc \<Rightarrow> bool" where
  "step_failure env self e =
     ((e = ZeroDivisionError \<and>
       (eval_interval (train (config self)) = 0 \<or> steps_for_target_q_sync (method' (config self)) = 0)) \<or>
      (e = AttributeError \<and> scheduler self = None) \<or>
      call_failure env e)"

definition follows ::
  "('s \<Rightarrow> event list) \<Rightarrow> env \<Rightarrow> ('s \<Rightarrow> exc + 's) \<Rightarrow> ('s \<Rightarrow> exc + 's) \<Rightarrow> bool" where
  "follows tr env aq a =
     (\<forall>s s'. aq s = Inr s' \<longrightarrow>
        (\<exists>new. tr s' = tr s @ new \<and>
           (case first_raise env (tr s) new of
              None \<Rightarrow> a s = Inr s'
            | Some x \<Rightarrow> a s = Inl (External x))))"

text \<open>The calls made so far in \<open>learn\<close>, without the counter.\<close>

definition events :: "learn_state \<Rightarrow> event list" where
  "events s = map snd (trace s)"

text \<open>The world of \<open>env_w\<close>, but \<open>opt.step()\<close> raises.\<close>

definition env_f :: env where
  "env_f = env_w\<lparr>raises := (\<lambda>h c. if c = Opt_step then Some ''OutOfMemoryError'' else None)\<rparr>"


section \<open>Lemmas\<close>

subsection \<open>Sequencing\<close>

lemma bind_exc_Inr: "(bind_exc m f = Inr y) = (\<exists>x. m = Inr x \<and> f x = Inr y)"
  by (cases m) (simp_all add: bind_exc_def)

lemma run_Cons_Inr: "(run (a # as) s = Inr s') = (\<exists>s1. a s = Inr s1 \<and> run as s1 = Inr s')"
  by (cases "a s") simp_all

lemma run_Nil_Inr: "(run [] s = Inr s') = (s' = s)"
  by auto

declare run.simps(2) [simp del]

lemma run_ConsE:
  assumes "run (a # as) s = Inr s'"
  obtains s1 where "a s = Inr s1" and "run as s1 = Inr s'"
  using assms by (auto simp: run_Cons_Inr)

lemma py_mod_Inr: "(py_mod a b = Inr r) = (b \<noteq> 0 \<and> r = a mod b)"
  by (auto simp: py_mod_def)

lemma call_Inr:
  "(call env e st = Inr st') =
   (raises env (map snd (trace st)) e = None \<and> st' = st\<lparr>trace := trace st @ [(opt_steps st, e)]\<rparr>)"
  by (auto simp: call_def split: option.splits)

lemma run_calls_Inr:
  "run (map (\<lambda>x. call env (f x)) xs) st = Inr st' \<Longrightarrow>
   st' = st\<lparr>trace := trace st @ map (\<lambda>x. (opt_steps st, f x)) xs\<rparr>"
proof (induction xs arbitrary: st)
  case Nil
  then show ?case by simp
next
  case (Cons x xs)
  from Cons.prems obtain s1 where a: "call env (f x) st = Inr s1"
    and b: "run (map (\<lambda>x. call env (f x)) xs) s1 = Inr st'"
    by (auto simp: run_Cons_Inr)
  from a have s1: "s1 = st\<lparr>trace := trace st @ [(opt_steps st, f x)]\<rparr>"
    by (simp add: call_Inr)
  from Cons.IH [OF b] show ?case by (simp add: s1)
qed

lemma model_eval_Inr:
  "(model_eval env st = Inr st') =
   (raises env (map snd (trace st)) Model_eval = None \<and>
    st' = st\<lparr>trace := trace st @ [(opt_steps st, Model_eval)], training := False\<rparr>)"
  by (auto simp: model_eval_def bind_exc_Inr call_Inr)

lemma model_train_Inr:
  "(model_train env st = Inr st') =
   (raises env (map snd (trace st)) Model_train = None \<and>
    st' = st\<lparr>trace := trace st @ [(opt_steps st, Model_train)], training := True\<rparr>)"
  by (auto simp: model_train_def bind_exc_Inr call_Inr)

subsection \<open>What a step that returns has done\<close>

lemma evaluate_main_Inr:
  assumes "evaluate_main env self samples st = Inr st'"
  shows "st' = st\<lparr>trace := trace st @ map (Pair (opt_steps st)) (main_calls env self samples),
                   logs := main_logs env self samples (logs st)\<rparr>"
  using assms
  by (auto simp: evaluate_main_def main_calls_def main_logs_def Let_def run_Cons_Inr
      call_Inr logs_store_def logs_merge_def split: option.splits if_splits)


lemma evaluate_Inr:
  assumes "evaluate env self st = Inr st'"
  shows "st' = st\<lparr>trace := trace st @ map (Pair (opt_steps st)) (eval_calls env self (opt_steps st)),
                   logs := eval_logs env self (opt_steps st) (logs st),
                   training := True\<rparr>"
proof -
  let ?n = "opt_steps st"
  let ?sample = "\<lambda>prompts. Model_sample False prompts (beta env) (gen_size (train (config self))) (logit_mask self)"
  from assms have r: "run
        [model_eval env,
         run (map (\<lambda>prompts. call env (?sample prompts)) (eval_batches env ?n)),
         call env (Torch_vstack (eval_samples env self ?n)),
         call env (Accelerator_gather (torch_vstack (eval_samples env self ?n))),
         if is_main_process env then evaluate_main env self (eval_gathered env self ?n) else Inr,
         model_train env] st = Inr st'"
    unfolding evaluate_def Let_def .
  from r obtain s1 s2 s3 s4 s5 where
    1: "model_eval env st = Inr s1" and
    2: "run (map (\<lambda>prompts. call env (?sample prompts)) (eval_batches env ?n)) s1 = Inr s2" and
    3: "call env (Torch_vstack (eval_samples env self ?n)) s2 = Inr s3" and
    4: "call env (Accelerator_gather (torch_vstack (eval_samples env self ?n))) s3 = Inr s4" and
    5: "(if is_main_process env then evaluate_main env self (eval_gathered env self ?n) else Inr) s4 = Inr s5" and
    6: "model_train env s5 = Inr st'"
    by (elim run_ConsE) (auto simp: run_Nil_Inr)
  from 1 have s1: "s1 = st\<lparr>trace := trace st @ [(?n, Model_eval)], training := False\<rparr>"
    by (simp add: model_eval_Inr)
  from run_calls_Inr [OF 2]
  have s2: "s2 = s1\<lparr>trace := trace s1 @ map (\<lambda>x. (opt_steps s1, ?sample x)) (eval_batches env ?n)\<rparr>" .
  from 3 have s3: "s3 = s2\<lparr>trace := trace s2 @ [(opt_steps s2, Torch_vstack (eval_samples env self ?n))]\<rparr>"
    by (simp add: call_Inr)
  from 4 have s4: "s4 = s3\<lparr>trace := trace s3 @
      [(opt_steps s3, Accelerator_gather (torch_vstack (eval_samples env self ?n)))]\<rparr>"
    by (simp add: call_Inr)
  have s5: "s5 = s4\<lparr>trace := trace s4 @ map (Pair (opt_steps s4))
        (if is_main_process env then main_calls env self (eval_gathered env self ?n) else []),
      logs := eval_logs env self ?n (logs s4)\<rparr>"
  proof (cases "is_main_process env")
    case True
    with 5 have "evaluate_main env self (eval_gathered env self ?n) s4 = Inr s5" by simp
    from evaluate_main_Inr [OF this] True show ?thesis by (simp add: eval_logs_def)
  next
    case False
    with 5 show ?thesis by (simp add: eval_logs_def)
  qed
  from 6 have s6: "st' = s5\<lparr>trace := trace s5 @ [(opt_steps s5, Model_train)], training := True\<rparr>"
    by (simp add: model_train_Inr)
  show ?thesis
    by (simp add: s6 s5 s4 s3 s2 s1 eval_calls_def comp_def)
qed

lemma learn_batch_Inr:
  assumes "learn_batch env self b st = Inr st'"
  shows "eval_interval (train (config self)) \<noteq> 0 \<and>
         steps_for_target_q_sync (method' (config self)) \<noteq> 0 \<and>
         scheduler self \<noteq> None \<and>
         st' = \<lparr>opt_steps = opt_steps st + 1,
                logs = batch_logs env self (opt_steps st) (logs st) b,
                training = (opt_steps st mod eval_interval (train (config self)) = 0 \<or> training st),
                trace = trace st @
                  map (Pair (opt_steps st)) (batch_calls env self (opt_steps st) (training st) (logs st) b) @
                  map (Pair (opt_steps st + 1)) (sync_calls self (opt_steps st + 1))\<rparr>"
proof -
  let ?n = "opt_steps st"
  let ?ei = "eval_interval (train (config self))"
  let ?sfs = "steps_for_target_q_sync (method' (config self))"
  from assms obtain s1 s2 s3 s4 s5 s6 s7 s8 where
    1: "bind_exc (py_mod (opt_steps st) ?ei) (\<lambda>r. if r = 0 then evaluate env self st else Inr st) = Inr s1" and
    2: "call env (Model_loss (training s1) b) s1 = Inr s2" and
    3: "bind_exc (py_mod (opt_steps s2) ?ei) (\<lambda>r.
               if r = 0
               then run [logs_merge (snd (loss env (opt_steps s2) (training s2) b)),
                         \<lambda>st. call env (Accelerator_log (logs st)) st] s2
               else Inr s2) = Inr s3" and
    4: "call env (Accelerator_backward (fst (loss env (opt_steps s3) (training s3) b))) s3 = Inr s4" and
    5: "call env Opt_step s4 = Inr s5" and
    6: "call env Opt_zero_grad s5 = Inr s6" and
    sc: "(case scheduler self of None \<Rightarrow> (\<lambda>st. Inl AttributeError)
          | Some sch \<Rightarrow> call env Scheduler_step) s6 = Inr s7" and
    8: "s8 = s7\<lparr>opt_steps := opt_steps s7 + 1\<rparr>" and
    9: "bind_exc (py_mod (opt_steps s8) ?sfs) (\<lambda>r.
               if r = 0 then call env Sync_target_q_heads s8 else Inr s8) = Inr st'"
    unfolding learn_batch_def by (elim run_ConsE) (auto simp: run_Nil_Inr)
  from sc have sch: "scheduler self \<noteq> None" by (cases "scheduler self") simp_all
  from sc have 7: "call env Scheduler_step s6 = Inr s7" by (cases "scheduler self") simp_all
  from 1 have ei: "?ei \<noteq> 0" by (auto simp: bind_exc_Inr py_mod_Inr)
  from 9 have sfs: "?sfs \<noteq> 0" by (auto simp: bind_exc_Inr py_mod_Inr)
  from 2 have s2: "s2 = s1\<lparr>trace := trace s1 @ [(opt_steps s1, Model_loss (training s1) b)]\<rparr>"
    by (simp add: call_Inr)
  from 4 have s4: "s4 = s3\<lparr>trace := trace s3 @
      [(opt_steps s3, Accelerator_backward (fst (loss env (opt_steps s3) (training s3) b)))]\<rparr>"
    by (simp add: call_Inr)
  from 5 have s5: "s5 = s4\<lparr>trace := trace s4 @ [(opt_steps s4, Opt_step)]\<rparr>"
    by (simp add: call_Inr)
  from 6 have s6: "s6 = s5\<lparr>trace := trace s5 @ [(opt_steps s5, Opt_zero_grad)]\<rparr>"
    by (simp add: call_Inr)
  from 7 have s7: "s7 = s6\<lparr>trace := trace s6 @ [(opt_steps s6, Scheduler_step)]\<rparr>"
    by (simp add: call_Inr)
  have s9: "st' = s8\<lparr>trace := trace s8 @ map (Pair (opt_steps s8)) (sync_calls self (opt_steps s8))\<rparr>"
  proof (cases "opt_steps s8 mod ?sfs = 0")
    case True
    with 9 sfs have "call env Sync_target_q_heads s8 = Inr st'"
      by (simp add: bind_exc_def py_mod_def)
    with True show ?thesis by (simp add: call_Inr sync_calls_def)
  next
    case False
    with 9 sfs have "st' = s8" by (simp add: bind_exc_def py_mod_def)
    with False show ?thesis by (simp add: sync_calls_def)
  qed
  have core: "s7 = \<lparr>opt_steps = ?n,
                logs = batch_logs env self ?n (logs st) b,
                training = (?n mod ?ei = 0 \<or> training st),
                trace = trace st @ map (Pair ?n) (batch_calls env self ?n (training st) (logs st) b)\<rparr>"
  proof (cases "?n mod ?ei = 0")
    case True
    with 1 ei have "evaluate env self st = Inr s1" by (simp add: bind_exc_def py_mod_def)
    from evaluate_Inr [OF this]
    have s1: "s1 = st\<lparr>trace := trace st @ map (Pair ?n) (eval_calls env self ?n),
                   logs := eval_logs env self ?n (logs st), training := True\<rparr>" .
    have n2: "opt_steps s2 = ?n" by (simp add: s2 s1)
    from 3 ei True n2 have "run [logs_merge (snd (loss env (opt_steps s2) (training s2) b)),
                         \<lambda>st. call env (Accelerator_log (logs st)) st] s2 = Inr s3"
      by (simp add: bind_exc_def py_mod_def)
    then have s3: "s3 = s2\<lparr>logs := dict_update (snd (loss env (opt_steps s2) (training s2) b)) (logs s2),
        trace := trace s2 @
          [(opt_steps s2, Accelerator_log (dict_update (snd (loss env (opt_steps s2) (training s2) b)) (logs s2)))]\<rparr>"
      by (auto simp: run_Cons_Inr run_Nil_Inr call_Inr logs_merge_def)
    show ?thesis
      by (simp add: s7 s6 s5 s4 s3 s2 s1 batch_calls_def batch_logs_def True)
  next
    case False
    with 1 ei have s1: "s1 = st" by (simp add: bind_exc_def py_mod_def)
    have n2: "opt_steps s2 = ?n" by (simp add: s2 s1)
    from 3 ei False n2 have s3: "s3 = s2" by (simp add: bind_exc_def py_mod_def)
    show ?thesis
      by (simp add: s7 s6 s5 s4 s3 s2 s1 batch_calls_def batch_logs_def False)
  qed
  have "st' = \<lparr>opt_steps = opt_steps st + 1,
                logs = batch_logs env self (opt_steps st) (logs st) b,
                training = (opt_steps st mod eval_interval (train (config self)) = 0 \<or> training st),
                trace = trace st @
                  map (Pair (opt_steps st)) (batch_calls env self (opt_steps st) (training st) (logs st) b) @
                  map (Pair (opt_steps st + 1)) (sync_calls self (opt_steps st + 1))\<rparr>"
    by (simp add: s9 8 core)
  with ei sfs sch show ?thesis by simp
qed

subsection \<open>The loop invariant\<close>

lemma calls_at_append: "calls_at n (xs @ ys) = calls_at n xs @ calls_at n ys"
  by (simp add: calls_at_def)

lemma calls_at_map_Pair: "calls_at n (map (Pair k) xs) = (if n = k then xs else [])"
  by (induction xs) (auto simp: calls_at_def)

lemma set_calls_at: "(e \<in> set (calls_at n tr)) = ((n, e) \<in> set tr)"
  by (auto simp: calls_at_def image_iff)

lemma batch_calls_training:
  "n mod eval_interval (train (config self)) = 0 \<or> t \<Longrightarrow>
   batch_calls env self n t lg b = batch_calls env self n True lg b"
  by (auto simp: batch_calls_def)

lemma loop_inv_init:
  "loop_inv env self pre [] \<lparr>opt_steps = 0, logs = lg, training = t, trace = map (Pair 0) pre\<rparr>"
  by (auto simp: loop_inv_def step_calls_def calls_at_map_Pair)

lemma loop_inv_logs: "loop_inv env self pre bs st \<Longrightarrow> loop_inv env self pre bs (st\<lparr>logs := lg\<rparr>)"
  by (simp add: loop_inv_def)

lemma loop_inv_step:
  assumes inv: "loop_inv env self pre bs st"
    and step: "learn_batch env self b st = Inr st'"
  shows "loop_inv env self pre (bs @ [b]) st'"
proof -
  let ?N = "int (length bs)"
  let ?ei = "eval_interval (train (config self))"
  from inv have n: "opt_steps st = ?N" and tr: "bs = [] \<or> training st"
    and calls: "\<And>n. \<exists>lg. calls_at n (trace st) = step_calls env self pre bs n lg"
    by (simp_all add: loop_inv_def)
  from tr have t: "?N mod ?ei = 0 \<or> training st" by auto
  from learn_batch_Inr [OF step] n
  have st': "st' = \<lparr>opt_steps = ?N + 1,
                logs = batch_logs env self ?N (logs st) b,
                training = (?N mod ?ei = 0 \<or> training st),
                trace = trace st @
                  map (Pair ?N) (batch_calls env self ?N (training st) (logs st) b) @
                  map (Pair (?N + 1)) (sync_calls self (?N + 1))\<rparr>"
    by simp
  have bc: "batch_calls env self ?N (training st) (logs st) b = batch_calls env self ?N True (logs st) b"
    using t by (rule batch_calls_training)
  have "\<exists>lg. calls_at k (trace st') = step_calls env self pre (bs @ [b]) k lg" for k
  proof -
    from calls [of k] obtain lg where lg: "calls_at k (trace st) = step_calls env self pre bs k lg" ..
    consider "k < 0 \<or> ?N + 1 < k" | "k = ?N + 1" | "k = ?N" | "0 \<le> k" "k < ?N"
      by linarith
    then show ?thesis
    proof cases
      case 1
      then show ?thesis using lg
        by (auto simp: st' calls_at_append calls_at_map_Pair step_calls_def)
    next
      case 2
      then show ?thesis using lg
        by (auto simp: st' calls_at_append calls_at_map_Pair step_calls_def)
    next
      case 3
      have "calls_at k (trace st') = step_calls env self pre (bs @ [b]) k (logs st)"
        using 3 lg by (simp add: st' calls_at_append calls_at_map_Pair step_calls_def bc)
      then show ?thesis ..
    next
      case 4
      then have "nat k < length bs" by linarith
      then have "calls_at k (trace st') = step_calls env self pre (bs @ [b]) k lg"
        using 4 lg by (simp add: st' calls_at_append calls_at_map_Pair step_calls_def nth_append)
      then show ?thesis ..
    qed
  qed
  moreover have "opt_steps st' = int (length (bs @ [b]))" by (simp add: st')
  moreover have "training st'" using t by (simp add: st')
  ultimately show ?thesis by (simp add: loop_inv_def)
qed

lemma run_map_invariant:
  assumes step: "\<And>x s s' acc. I acc s \<Longrightarrow> f x s = Inr s' \<Longrightarrow> I (acc @ [x]) s'"
  shows "I acc s \<Longrightarrow> run (map f xs) s = Inr s' \<Longrightarrow> I (acc @ xs) s'"
proof (induction xs arbitrary: acc s)
  case Nil
  then show ?case by simp
next
  case (Cons x xs)
  from Cons.prems(2) obtain s1 where a: "f x s = Inr s1" and b: "run (map f xs) s1 = Inr s'"
    by (auto simp: run_Cons_Inr)
  from step [OF Cons.prems(1) a] have "I (acc @ [x]) s1" .
  from Cons.IH [OF this b] show ?case by simp
qed

lemma loop_inv_epoch:
  assumes "loop_inv env self pre bs st" and "learn_epoch env self k st = Inr st'"
  shows "loop_inv env self pre (bs @ train_batches env k) st'"
proof -
  from assms(2) have r: "run (map (learn_batch env self) (train_batches env k)) (st\<lparr>logs := []\<rparr>) = Inr st'"
    by (simp add: learn_epoch_def run_Cons_Inr)
  from assms(1) have i: "loop_inv env self pre bs (st\<lparr>logs := []\<rparr>)" by (rule loop_inv_logs)
  show ?thesis
    by (rule run_map_invariant [where I = "loop_inv env self pre" and f = "learn_batch env self", OF _ i r])
       (rule loop_inv_step)
qed

lemma loop_inv_epochs:
  assumes "loop_inv env self pre [] st" and "run (map (learn_epoch env self) ks) st = Inr st'"
  shows "loop_inv env self pre (concat (map (train_batches env) ks)) st'"
proof -
  have "loop_inv env self pre (concat (map (train_batches env) ([] @ ks))) st'"
  proof (rule run_map_invariant [where I = "\<lambda>acc. loop_inv env self pre (concat (map (train_batches env) acc))"
          and f = "learn_epoch env self", OF _ _ assms(2)])
    show "loop_inv env self pre (concat (map (train_batches env) [])) st" using assms(1) by simp
  next
    fix x s s' acc
    assume "loop_inv env self pre (concat (map (train_batches env) acc)) s" "learn_epoch env self x s = Inr s'"
    from loop_inv_epoch [OF this]
    show "loop_inv env self pre (concat (map (train_batches env) (acc @ [x]))) s'" by simp
  qed
  then show ?thesis by simp
qed

subsection \<open>The whole method\<close>

lemma step_calls_rebound:
  "step_calls env (self\<lparr>model := m, opt := ad\<rparr>) pre bs n lg = step_calls env self pre bs n lg"
  by (simp add: step_calls_def sync_calls_def batch_calls_def batch_logs_def eval_logs_def
      eval_calls_def eval_samples_def eval_gathered_def main_calls_def main_logs_def)

lemma learn_Inr:
  assumes "learn env self = Inr (self', st)"
  shows "\<exists>ad. opt self = Some ad \<and>
           self' = self\<lparr>model := Prepared_model (model self), opt := Some (Prepared_opt ad)\<rparr> \<and>
           loop_inv env self (setup_calls self) (all_batches env self) st"
proof -
  let ?eos = "case tokenizer self of Some tk \<Rightarrow> eos_token_id tk | None \<Rightarrow> Some 0"
  let ?bs = "batch_size (train (config self))"
  let ?st0 = "\<lparr>opt_steps = 0, logs = [], training = training0 env, trace = []\<rparr>"
  from assms obtain s1 where
    1: "run [call env Clock_new, call env (Create_train_loader ?bs ?eos),
             call env (Create_eval_loader ?bs False)] ?st0 = Inr s1" and
    2: "(case opt self of
        None \<Rightarrow> Inl AttributeError
      | Some ad \<Rightarrow>
          bind_exc (call env (Accelerator_prepare (model self) ad) s1) (\<lambda>st.
          let self' = self\<lparr>model := Prepared_model (model self), opt := Some (Prepared_opt ad)\<rparr>
          in
          bind_exc (run (map (learn_epoch env self') [0..<nat (epochs (train (config self')))]) st) (\<lambda>st.
            Inr (self', st)))) = Inr (self', st)"
    unfolding learn_def Let_def bind_exc_Inr by blast
  from 2 obtain ad where ad: "opt self = Some ad" by (cases "opt self") auto
  let ?self' = "self\<lparr>model := Prepared_model (model self), opt := Some (Prepared_opt ad)\<rparr>"
  from 2 ad obtain s2 where
    3: "call env (Accelerator_prepare (model self) ad) s1 = Inr s2" and
    4: "run (map (learn_epoch env ?self') [0..<nat (epochs (train (config self)))]) s2 = Inr st" and
    5: "self' = ?self'"
    by (auto simp: bind_exc_Inr Let_def)
  from 1 have s1: "s1 = \<lparr>opt_steps = 0, logs = [], training = training0 env,
      trace = map (Pair 0) [Clock_new, Create_train_loader ?bs ?eos, Create_eval_loader ?bs False]\<rparr>"
    by (auto simp: run_Cons_Inr run_Nil_Inr call_Inr)
  from 3 have s2: "s2 = \<lparr>opt_steps = 0, logs = [], training = training0 env,
      trace = map (Pair 0) (setup_calls self)\<rparr>"
    by (simp add: call_Inr s1 setup_calls_def ad)
  have "loop_inv env ?self' (setup_calls self) [] s2"
    unfolding s2 by (rule loop_inv_init)
  from loop_inv_epochs [OF this 4]
  have "loop_inv env ?self' (setup_calls self) (all_batches env self) st"
    by (simp add: all_batches_def)
  then have "loop_inv env self (setup_calls self) (all_batches env self) st"
    by (simp add: loop_inv_def step_calls_rebound)
  with ad 5 show ?thesis by simp
qed

lemma learn_calls:
  assumes "learn env self = Inr (self', st)"
  shows "opt_steps st = int (length (all_batches env self))"
    and "\<exists>lg. calls_at n (trace st) = step_calls env self (setup_calls self) (all_batches env self) n lg"
    and "all_batches env self = [] \<or> training st"
  using learn_Inr [OF assms] by (auto simp: loop_inv_def)

subsection \<open>\<open>__init__\<close>, \<open>tokenize\<close> and \<open>get_components\<close>\<close>

lemma call0_Inr: "(call0 env e tr = Inr tr') = (raises env tr e = None \<and> tr' = tr @ [e])"
  by (auto simp: call0_def split: option.splits)

lemma py_truediv_Inr: "(py_truediv a b = Inr r) = (b \<noteq> 0 \<and> r = a / b)"
  by (auto simp: py_truediv_def)

lemma init_Inr:
  assumes "init env g cfg p tok lm tm = Inr (self, tr)"
  shows "tr =
           [BaseRLModel_init cfg tm, QVModel_new p (method' cfg), Accelerator_new ''wandb'',
            Accelerator_print (environ env)] @
           (if WORLD_SIZE g > 1 then [Distributed_barrier [LOCAL_RANK g]] else [Manual_seed 1000]) @
           (if is_main_process env then [Init_trackers (project_name (train cfg)) cfg] else []) @
           (if tm
            then [AdamW_new (QVModel p (method' cfg)) (learning_rate_init (train cfg)),
                  Rampup_decay_new (lr_ramp_steps (train cfg)) (lr_decay_steps (train cfg))
                    (learning_rate_target (train cfg) / learning_rate_init (train cfg))
                    (AdamW (QVModel p (method' cfg)) (learning_rate_init (train cfg)))]
            else []) \<and>
         self =
           \<lparr>config = cfg, train_mode = tm, model = QVModel p (method' cfg),
            max_length = gen_size (train cfg), tokenizer = tok, logit_mask = lm,
            opt = (if tm then Some (AdamW (QVModel p (method' cfg)) (learning_rate_init (train cfg)))
                   else None),
            scheduler =
              (if tm
               then Some (Rampup_decay (lr_ramp_steps (train cfg)) (lr_decay_steps (train cfg))
                      (learning_rate_target (train cfg) / learning_rate_init (train cfg))
                      (AdamW (QVModel p (method' cfg)) (learning_rate_init (train cfg))))
               else None)\<rparr> \<and>
         (tm \<longrightarrow> learning_rate_init (train cfg) \<noteq> 0)"
proof -
  let ?self0 = "\<lparr>config = cfg, train_mode = tm, model = QVModel p (method' cfg),
                  max_length = gen_size (train cfg), tokenizer = tok,
                  logit_mask = lm, opt = None, scheduler = None\<rparr>"
  from assms obtain tr1 where
    1: "run
        [call0 env (BaseRLModel_init cfg tm),
         call0 env (QVModel_new p (method' cfg)),
         call0 env (Accelerator_new ''wandb''),
         call0 env (Accelerator_print (environ env)),
         if WORLD_SIZE g > 1
         then call0 env (Distributed_barrier [LOCAL_RANK g])
         else call0 env (Manual_seed 1000),
         if is_main_process env
         then call0 env (Init_trackers (project_name (train cfg)) cfg)
         else Inr] [] = Inr tr1" and
    2: "(if tm then
        bind_exc (call0 env (AdamW_new (QVModel p (method' cfg)) (learning_rate_init (train cfg))) tr1) (\<lambda>tr.
        bind_exc (py_truediv (learning_rate_target (train cfg)) (learning_rate_init (train cfg))) (\<lambda>ratio.
        bind_exc (call0 env (Rampup_decay_new (lr_ramp_steps (train cfg)) (lr_decay_steps (train cfg)) ratio
                    (AdamW (QVModel p (method' cfg)) (learning_rate_init (train cfg)))) tr) (\<lambda>tr.
          Inr (?self0\<lparr>opt := Some (AdamW (QVModel p (method' cfg)) (learning_rate_init (train cfg))),
                    scheduler := Some (Rampup_decay (lr_ramp_steps (train cfg)) (lr_decay_steps (train cfg)) ratio
                       (AdamW (QVModel p (method' cfg)) (learning_rate_init (train cfg))))\<rparr>,
               tr))))
      else Inr (?self0, tr1)) = Inr (self, tr)"
    unfolding init_def Let_def bind_exc_Inr by blast
  from 1 have tr1: "tr1 =
           [BaseRLModel_init cfg tm, QVModel_new p (method' cfg), Accelerator_new ''wandb'',
            Accelerator_print (environ env)] @
           (if WORLD_SIZE g > 1 then [Distributed_barrier [LOCAL_RANK g]] else [Manual_seed 1000]) @
           (if is_main_process env then [Init_trackers (project_name (train cfg)) cfg] else [])"
    by (elim run_ConsE) (auto simp: call0_Inr run_Nil_Inr split: if_splits)
  show ?thesis
  proof (cases tm)
    case True
    with 2 show ?thesis
      by (auto simp: bind_exc_Inr call0_Inr py_truediv_Inr tr1)
  next
    case False
    with 2 show ?thesis by (auto simp: tr1)
  qed
qed

subsection \<open>A run in which no call raises returns\<close>

lemma call_quiet:
  "\<forall>h e. raises env h e = None \<Longrightarrow>
   call env e st = Inr (st\<lparr>trace := trace st @ [(opt_steps st, e)]\<rparr>)"
  by (simp add: call_def)

lemma run_map_returns:
  assumes "\<And>x s. \<exists>s'. f x s = Inr s'"
  shows "\<exists>s'. run (map f xs) s = Inr s'"
proof (induction xs arbitrary: s)
  case Nil
  show ?case by simp
next
  case (Cons x xs)
  from assms obtain s1 where "f x s = Inr s1" by blast
  moreover from Cons obtain s' where "run (map f xs) s1 = Inr s'" by blast
  ultimately show ?case by (auto simp: run_Cons_Inr)
qed

lemma evaluate_main_returns:
  assumes q: "\<forall>h e. raises env h e = None"
  shows "\<exists>st'. evaluate_main env self samples st = Inr st'"
  by (simp add: evaluate_main_def Let_def run.simps(2) call_quiet [OF q] logs_store_def logs_merge_def
      split: option.splits)

lemma evaluate_returns:
  assumes q: "\<forall>h e. raises env h e = None"
  shows "\<exists>st'. evaluate env self st = Inr st'"
proof -
  let ?sample = "\<lambda>prompts. Model_sample False prompts (beta env) (gen_size (train (config self))) (logit_mask self)"
  obtain s1 where 1: "model_eval env st = Inr s1"
    by (simp add: model_eval_def bind_exc_def call_quiet [OF q])
  obtain s2 where 2: "run (map (\<lambda>prompts. call env (?sample prompts)) (eval_batches env (opt_steps st))) s1 = Inr s2"
    using run_map_returns [where f = "\<lambda>prompts. call env (?sample prompts)"] call_quiet [OF q] by metis
  have "\<exists>s3. call env (Torch_vstack (eval_samples env self (opt_steps st))) s2 = Inr s3"
    by (simp add: call_quiet [OF q])
  then obtain s3 where 3: "call env (Torch_vstack (eval_samples env self (opt_steps st))) s2 = Inr s3" ..
  obtain s4 where 4: "call env (Accelerator_gather (torch_vstack (eval_samples env self (opt_steps st)))) s3 = Inr s4"
    by (simp add: call_quiet [OF q])
  have "\<exists>s5. (if is_main_process env then evaluate_main env self (eval_gathered env self (opt_steps st)) else Inr) s4 = Inr s5"
    using evaluate_main_returns [OF q, of self "eval_gathered env self (opt_steps st)" s4] by simp
  then obtain s5 where 5: "(if is_main_process env then evaluate_main env self (eval_gathered env self (opt_steps st)) else Inr) s4 = Inr s5" ..
  obtain s6 where 6: "model_train env s5 = Inr s6"
    by (simp add: model_train_def bind_exc_def call_quiet [OF q])
  show ?thesis
    unfolding evaluate_def Let_def run_Cons_Inr run_Nil_Inr
    using 1 2 3 4 5 6 by blast
qed

lemma learn_batch_returns:
  assumes q: "\<forall>h e. raises env h e = None"
    and ei: "eval_interval (train (config self)) \<noteq> 0"
    and sfs: "steps_for_target_q_sync (method' (config self)) \<noteq> 0"
    and sch: "scheduler self = Some sch"
  shows "\<exists>st'. learn_batch env self b st = Inr st'"
proof -
  let ?ei = "eval_interval (train (config self))"
  let ?sfs = "steps_for_target_q_sync (method' (config self))"
  have "\<exists>s1. bind_exc (py_mod (opt_steps st) ?ei) (\<lambda>r. if r = 0 then evaluate env self st else Inr st) = Inr s1"
    using evaluate_returns [OF q, of self st] ei by (simp add: bind_exc_def py_mod_def)
  then obtain s1 where 1: "bind_exc (py_mod (opt_steps st) ?ei) (\<lambda>r. if r = 0 then evaluate env self st else Inr st) = Inr s1" ..
  obtain s2 where 2: "call env (Model_loss (training s1) b) s1 = Inr s2"
    by (simp add: call_quiet [OF q])
  have "\<exists>s3. bind_exc (py_mod (opt_steps s2) ?ei) (\<lambda>r.
               if r = 0
               then run [logs_merge (snd (loss env (opt_steps s2) (training s2) b)),
                         \<lambda>st. call env (Accelerator_log (logs st)) st] s2
               else Inr s2) = Inr s3"
    using ei by (simp add: bind_exc_def py_mod_def run.simps(2) logs_merge_def call_quiet [OF q])
  then obtain s3 where 3: "bind_exc (py_mod (opt_steps s2) ?ei) (\<lambda>r.
               if r = 0
               then run [logs_merge (snd (loss env (opt_steps s2) (training s2) b)),
                         \<lambda>st. call env (Accelerator_log (logs st)) st] s2
               else Inr s2) = Inr s3" ..
  obtain s4 where 4: "call env (Accelerator_backward (fst (loss env (opt_steps s3) (training s3) b))) s3 = Inr s4"
    by (simp add: call_quiet [OF q])
  obtain s5 where 5: "call env Opt_step s4 = Inr s5" by (simp add: call_quiet [OF q])
  obtain s6 where 6: "call env Opt_zero_grad s5 = Inr s6" by (simp add: call_quiet [OF q])
  obtain s7 where 7: "(case scheduler self of None \<Rightarrow> (\<lambda>st. Inl AttributeError)
          | Some sch \<Rightarrow> call env Scheduler_step) s6 = Inr s7"
    by (simp add: sch call_quiet [OF q])
  have "\<exists>s9. bind_exc (py_mod (opt_steps (s7\<lparr>opt_steps := opt_steps s7 + 1\<rparr>)) ?sfs) (\<lambda>r.
               if r = 0 then call env Sync_target_q_heads (s7\<lparr>opt_steps := opt_steps s7 + 1\<rparr>)
               else Inr (s7\<lparr>opt_steps := opt_steps s7 + 1\<rparr>)) = Inr s9"
    using sfs by (simp add: bind_exc_def py_mod_def call_quiet [OF q])
  then obtain s9 where 9: "bind_exc (py_mod (opt_steps (s7\<lparr>opt_steps := opt_steps s7 + 1\<rparr>)) ?sfs) (\<lambda>r.
               if r = 0 then call env Sync_target_q_heads (s7\<lparr>opt_steps := opt_steps s7 + 1\<rparr>)
               else Inr (s7\<lparr>opt_steps := opt_steps s7 + 1\<rparr>)) = Inr s9" ..
  show ?thesis
    unfolding learn_batch_def run_Cons_Inr run_Nil_Inr
    using 1 2 3 4 5 6 7 9 by blast
qed

lemma learn_returns:
  assumes q: "\<forall>h e. raises env h e = None"
    and ei: "eval_interval (train (config self)) \<noteq> 0"
    and sfs: "steps_for_target_q_sync (method' (config self)) \<noteq> 0"
    and ad: "opt self = Some ad"
    and sch: "scheduler self = Some sch"
  shows "\<exists>self' st. learn env self = Inr (self', st)"
proof -
  let ?self' = "self\<lparr>model := Prepared_model (model self), opt := Some (Prepared_opt ad)\<rparr>"
  have batch: "\<exists>s'. learn_batch env ?self' b s = Inr s'" for b s
    using learn_batch_returns [OF q, of ?self' sch] ei sfs sch by simp
  have epoch: "\<exists>s'. learn_epoch env ?self' k s = Inr s'" for k s
    unfolding learn_epoch_def run_Cons_Inr
    using run_map_returns [where f = "learn_batch env ?self'", OF batch] by blast
  have "\<exists>s'. run (map (learn_epoch env ?self') ks) s = Inr s'" for ks s
    by (rule run_map_returns) (rule epoch)
  then obtain s' where "run (map (learn_epoch env ?self') [0..<nat (epochs (train (config self)))])
      \<lparr>opt_steps = 0, logs = [], training = training0 env,
         trace = map (Pair 0) (setup_calls self)\<rparr> = Inr s'"
    by blast
  then show ?thesis
    by (simp add: learn_def Let_def ad run.simps(2) call_quiet [OF q] bind_exc_def setup_calls_def)
qed

lemma init_w:
  "init env_w g_w cfg_w ''gpt2'' tok None True =
     Inr (self_w tok,
          [BaseRLModel_init cfg_w True, QVModel_new ''gpt2'' (method' cfg_w), Accelerator_new ''wandb'',
           Accelerator_print (environ env_w), Distributed_barrier [1],
           Init_trackers ''ilql'' cfg_w,
           AdamW_new (QVModel ''gpt2'' (method' cfg_w)) (1 / 1000),
           Rampup_decay_new 10 100 (1 / 10) (AdamW (QVModel ''gpt2'' (method' cfg_w)) (1 / 1000))])"
  by (simp add: init_def Let_def run.simps(2) call0_def bind_exc_def py_truediv_def
      env_w_def g_w_def cfg_w_def self_w_def)

lemma all_batches_w: "all_batches env_w (self_w tok) = [[[1]], [[2]], [[3]]]"
  by (simp add: all_batches_def env_w_def cfg_w_def self_w_def)

lemma learn_w: "\<exists>self' st. learn env_w (self_w tok) = Inr (self', st)"
  by (rule learn_returns [where ad = "AdamW (QVModel ''gpt2'' (method' cfg_w)) (1 / 1000)"
        and sch = "Rampup_decay 10 100 (1 / 10) (AdamW (QVModel ''gpt2'' (method' cfg_w)) (1 / 1000))"])
     (simp_all add: env_w_def cfg_w_def self_w_def)

text \<open>
  C3. After \<open>__init__\<close>, \<open>get_components\<close> returns the dict with exactly the keys
  \<open>model\<close>, \<open>opt\<close> and \<open>scheduler\<close>, bound to the three attributes, when
  \<open>train_mode\<close> is true, and the dict with the single key \<open>model\<close> when it is false;
  it does not raise. The same holds of the object after \<open>learn\<close> (which needs an object
  made in training mode, and rebinds \<open>model\<close> and \<open>opt\<close>).
\<close>

theorem get_components_keys:
  assumes "init env g cfg p tok lm tm = Inr (self, tr)"
  shows "(tm \<longrightarrow>
           (\<exists>ad sch. opt self = Some ad \<and> scheduler self = Some sch \<and>
              get_components self =
                Inr [(''model'', C_model (model self)), (''opt'', C_opt ad),
                     (''scheduler'', C_scheduler sch)])) \<and>
         (\<not> tm \<longrightarrow> get_components self = Inr [(''model'', C_model (model self))]) \<and>
         (\<forall>self' st. learn env self = Inr (self', st) \<longrightarrow>
           tm \<and>
           (\<exists>ad sch. opt self' = Some ad \<and> scheduler self' = Some sch \<and>
              get_components self' =
                Inr [(''model'', C_model (model self')), (''opt'', C_opt ad),
                     (''scheduler'', C_scheduler sch)]))"
proof -
  note i = init_Inr [OF assms]
  have 1: "tm \<longrightarrow>
           (\<exists>ad sch. opt self = Some ad \<and> scheduler self = Some sch \<and>
              get_components self =
                Inr [(''model'', C_model (model self)), (''opt'', C_opt ad),
                     (''scheduler'', C_scheduler sch)])"
    using i by (auto simp: get_components_def)
  have 2: "\<not> tm \<longrightarrow> get_components self = Inr [(''model'', C_model (model self))]"
    using i by (auto simp: get_components_def)
  have 3: "tm \<and>
           (\<exists>ad sch. opt self' = Some ad \<and> scheduler self' = Some sch \<and>
              get_components self' =
                Inr [(''model'', C_model (model self')), (''opt'', C_opt ad),
                     (''scheduler'', C_scheduler sch)])"
    if l: "learn env self = Inr (self', st)" for self' st
  proof -
    from learn_Inr [OF l] obtain ad where ad: "opt self = Some ad"
      and s': "self' = self\<lparr>model := Prepared_model (model self), opt := Some (Prepared_opt ad)\<rparr>"
      by blast
    from ad i have tm: tm by (cases tm) auto
    with i s' show ?thesis by (auto simp: get_components_def)
  qed
  from 1 2 3 show ?thesis by blast
qed

theorem get_components_keys_witness:
  "\<exists>self tr. init env_w g_w cfg_w ''gpt2'' None None True = Inr (self, tr) \<and>
     get_components self =
       Inr [(''model'', C_model (QVModel ''gpt2'' \<lparr>steps_for_target_q_sync = 2\<rparr>)),
            (''opt'', C_opt (AdamW (QVModel ''gpt2'' \<lparr>steps_for_target_q_sync = 2\<rparr>) (1 / 1000))),
            (''scheduler'', C_scheduler (Rampup_decay 10 100 (1 / 10)
               (AdamW (QVModel ''gpt2'' \<lparr>steps_for_target_q_sync = 2\<rparr>) (1 / 1000))))]"
proof -
  note h = init_w [of None]
  from get_components_keys [OF h] have
    "\<exists>ad sch. opt (self_w None) = Some ad \<and> scheduler (self_w None) = Some sch \<and>
       get_components (self_w None) =
         Inr [(''model'', C_model (model (self_w None))), (''opt'', C_opt ad),
              (''scheduler'', C_scheduler sch)]"
    by blast
  then have "get_components (self_w None) =
       Inr [(''model'', C_model (QVModel ''gpt2'' \<lparr>steps_for_target_q_sync = 2\<rparr>)),
            (''opt'', C_opt (AdamW (QVModel ''gpt2'' \<lparr>steps_for_target_q_sync = 2\<rparr>) (1 / 1000))),
            (''scheduler'', C_scheduler (Rampup_decay 10 100 (1 / 10)
               (AdamW (QVModel ''gpt2'' \<lparr>steps_for_target_q_sync = 2\<rparr>) (1 / 1000))))]"
    by (auto simp: self_w_def cfg_w_def)
  with h show ?thesis by blast
qed

lemma module_import_w: "module_import env_w = Inr g_w"
  by (simp add: module_import_def environ_int_def bind_exc_def env_w_def g_w_def)

text \<open>
  C5. What the file itself does about distribution: at import, \<open>WORLD_SIZE\<close> and
  \<open>LOCAL_RANK\<close> are read from the environment variables of these names (1 and 0 when
  a variable is not set); \<open>__init__\<close> calls \<open>torch.distributed.barrier\<close>, on the
  device \<open>LOCAL_RANK\<close>, exactly when \<open>WORLD_SIZE\<close> exceeds 1 (and seeds the random
  generator otherwise). The calls of \<open>__init__\<close> are those listed, in this order, and no
  other: the barrier is its only call into \<open>torch.distributed\<close>.
\<close>

theorem init_distribution:
  assumes "module_import env = Inr g"
    and "init env g cfg p tok lm tm = Inr (self, tr)"
  shows "environ_int env ''WORLD_SIZE'' 1 = Inr (WORLD_SIZE g) \<and>
         environ_int env ''LOCAL_RANK'' 0 = Inr (LOCAL_RANK g) \<and>
         (map_of (environ env) ''WORLD_SIZE'' = None \<longrightarrow> WORLD_SIZE g = 1) \<and>
         (map_of (environ env) ''LOCAL_RANK'' = None \<longrightarrow> LOCAL_RANK g = 0) \<and>
         (\<forall>ds. (Distributed_barrier ds \<in> set tr) = (1 < WORLD_SIZE g \<and> ds = [LOCAL_RANK g])) \<and>
         tr =
           [BaseRLModel_init cfg tm, QVModel_new p (method' cfg), Accelerator_new ''wandb'',
            Accelerator_print (environ env)] @
           (if 1 < WORLD_SIZE g then [Distributed_barrier [LOCAL_RANK g]] else [Manual_seed 1000]) @
           (if is_main_process env then [Init_trackers (project_name (train cfg)) cfg] else []) @
           (if tm
            then [AdamW_new (QVModel p (method' cfg)) (learning_rate_init (train cfg)),
                  Rampup_decay_new (lr_ramp_steps (train cfg)) (lr_decay_steps (train cfg))
                    (learning_rate_target (train cfg) / learning_rate_init (train cfg))
                    (AdamW (QVModel p (method' cfg)) (learning_rate_init (train cfg)))]
            else [])"
proof -
  from assms(1) obtain ws lr where ws: "environ_int env ''WORLD_SIZE'' 1 = Inr ws"
    and lr: "environ_int env ''LOCAL_RANK'' 0 = Inr lr"
    and g: "g = \<lparr>WORLD_SIZE = ws, LOCAL_RANK = lr\<rparr>"
    by (auto simp: module_import_def bind_exc_Inr)
  have 1: "environ_int env ''WORLD_SIZE'' 1 = Inr (WORLD_SIZE g)" using ws g by simp
  have 2: "environ_int env ''LOCAL_RANK'' 0 = Inr (LOCAL_RANK g)" using lr g by simp
  have 3: "map_of (environ env) ''WORLD_SIZE'' = None \<longrightarrow> WORLD_SIZE g = 1"
    using 1 by (auto simp: environ_int_def)
  have 4: "map_of (environ env) ''LOCAL_RANK'' = None \<longrightarrow> LOCAL_RANK g = 0"
    using 2 by (auto simp: environ_int_def)
  from init_Inr [OF assms(2)] have 6: "tr =
           [BaseRLModel_init cfg tm, QVModel_new p (method' cfg), Accelerator_new ''wandb'',
            Accelerator_print (environ env)] @
           (if 1 < WORLD_SIZE g then [Distributed_barrier [LOCAL_RANK g]] else [Manual_seed 1000]) @
           (if is_main_process env then [Init_trackers (project_name (train cfg)) cfg] else []) @
           (if tm
            then [AdamW_new (QVModel p (method' cfg)) (learning_rate_init (train cfg)),
                  Rampup_decay_new (lr_ramp_steps (train cfg)) (lr_decay_steps (train cfg))
                    (learning_rate_target (train cfg) / learning_rate_init (train cfg))
                    (AdamW (QVModel p (method' cfg)) (learning_rate_init (train cfg)))]
            else [])"
    by blast
  have 5: "\<forall>ds. (Distributed_barrier ds \<in> set tr) = (1 < WORLD_SIZE g \<and> ds = [LOCAL_RANK g])"
    unfolding 6 by auto
  from 1 2 3 4 5 6 show ?thesis by blast
qed

theorem init_distribution_witness:
  "module_import env_w = Inr g_w \<and>
   (\<exists>self tr. init env_w g_w cfg_w ''gpt2'' None None True = Inr (self, tr) \<and>
      WORLD_SIZE g_w = 2 \<and> LOCAL_RANK g_w = 1 \<and> Distributed_barrier [1] \<in> set tr \<and>
      Manual_seed 1000 \<notin> set tr)"
proof -
  note m = module_import_w
  note h = init_w [of None]
  from init_distribution [OF m h]
  have "\<forall>ds. (Distributed_barrier ds \<in> set
      [BaseRLModel_init cfg_w True, QVModel_new ''gpt2'' (method' cfg_w), Accelerator_new ''wandb'',
           Accelerator_print (environ env_w), Distributed_barrier [1],
           Init_trackers ''ilql'' cfg_w,
           AdamW_new (QVModel ''gpt2'' (method' cfg_w)) (1 / 1000),
           Rampup_decay_new 10 100 (1 / 10) (AdamW (QVModel ''gpt2'' (method' cfg_w)) (1 / 1000))])
       = (1 < WORLD_SIZE g_w \<and> ds = [LOCAL_RANK g_w])"
    by blast
  then have "WORLD_SIZE g_w = 2 \<and> LOCAL_RANK g_w = 1 \<and> Distributed_barrier [1] \<in> set
      [BaseRLModel_init cfg_w True, QVModel_new ''gpt2'' (method' cfg_w), Accelerator_new ''wandb'',
           Accelerator_print (environ env_w), Distributed_barrier [1],
           Init_trackers ''ilql'' cfg_w,
           AdamW_new (QVModel ''gpt2'' (method' cfg_w)) (1 / 1000),
           Rampup_decay_new 10 100 (1 / 10) (AdamW (QVModel ''gpt2'' (method' cfg_w)) (1 / 1000))]"
    by (simp add: g_w_def)
  with m h show ?thesis by auto
qed

text \<open>
  C8. On an object made by \<open>__init__\<close> with a tokenizer that has a \<open>bos_token\<close> and an
  \<open>eos_token\<close>, \<open>tokenize\<close> makes one call of the tokenizer: on the texts, each between
  \<open>bos_token\<close> and \<open>eos_token\<close>, with \<open>max_length\<close> the configured \<open>gen_size\<close>,
  \<open>truncation=True\<close>, \<open>padding=True\<close> and \<open>return_tensors='pt'\<close>, and returns what that
  call returns. (Truncating, padding and making tensors is what the tokenizer does when
  it is called so.) The call returns unless the tokenizer raises.
\<close>

theorem tokenize_call:
  assumes "init env g cfg p (Some tk) lm tm = Inr (self, tr0)"
    and "bos_token tk = Some b" and "eos_token tk = Some e"
    and "c = \<lparr>arg_texts = map (\<lambda>x. b @ x @ e) xs, arg_max_length = gen_size (train cfg),
               arg_truncation = True, arg_padding = True, arg_return_tensors = ''pt''\<rparr>"
  shows "(raises env tr (Tokenizer_call c) = None \<longrightarrow>
           tokenize env self xs tr = Inr (encode tk c, tr @ [Tokenizer_call c])) \<and>
         (\<forall>enc tr'. tokenize env self xs tr = Inr (enc, tr') \<longrightarrow>
           enc = encode tk c \<and> tr' = tr @ [Tokenizer_call c])"
proof -
  from init_Inr [OF assms(1)] have tok: "tokenizer self = Some tk"
    and ml: "max_length self = gen_size (train cfg)" by auto
  have w: "wrap_texts tk xs = Inr (map (\<lambda>x. b @ x @ e) xs)"
    using assms(2,3) by (simp add: wrap_texts_def)
  have t: "tokenize env self xs tr = bind_exc (call0 env (Tokenizer_call c) tr) (\<lambda>tr. Inr (encode tk c, tr))"
    by (simp add: tokenize_def tok w ml bind_exc_def Let_def assms(4))
  show ?thesis
    unfolding t by (auto simp: bind_exc_Inr call0_Inr)
qed

theorem tokenize_call_witness:
  "\<exists>self tr0. init env_w g_w cfg_w ''gpt2'' (Some tk_w) None True = Inr (self, tr0) \<and>
     tokenize env_w self [''ab'', ''hello''] [] =
       Inr (\<lparr>input_ids = [[60, 115, 62, 97], [60, 115, 62, 104]],
             attention_mask = [[1, 1, 1, 1], [1, 1, 1, 1]]\<rparr>,
            [Tokenizer_call \<lparr>arg_texts = [''<s>ab</s>'', ''<s>hello</s>''], arg_max_length = 4,
               arg_truncation = True, arg_padding = True, arg_return_tensors = ''pt''\<rparr>])"
proof -
  let ?c = "\<lparr>arg_texts = [''<s>ab</s>'', ''<s>hello</s>''], arg_max_length = 4,
               arg_truncation = True, arg_padding = True, arg_return_tensors = ''pt''\<rparr>"
  note h = init_w [of "Some tk_w"]
  have b: "bos_token tk_w = Some ''<s>''" and e: "eos_token tk_w = Some ''</s>''"
    by (simp_all add: tk_w_def)
  have c: "?c = \<lparr>arg_texts = map (\<lambda>x. ''<s>'' @ x @ ''</s>'') [''ab'', ''hello''],
               arg_max_length = gen_size (train cfg_w),
               arg_truncation = True, arg_padding = True, arg_return_tensors = ''pt''\<rparr>"
    by (simp add: cfg_w_def)
  have q: "raises env_w [] (Tokenizer_call ?c) = None" by (simp add: env_w_def)
  have enc: "encode tk_w ?c = \<lparr>input_ids = [[60, 115, 62, 97], [60, 115, 62, 104]],
             attention_mask = [[1, 1, 1, 1], [1, 1, 1, 1]]\<rparr>"
    by (simp add: tk_w_def)
  from tokenize_call [OF h b e c, of "[]"] q
  have "tokenize env_w (self_w (Some tk_w)) [''ab'', ''hello''] [] = Inr (encode tk_w ?c, [] @ [Tokenizer_call ?c])"
    by blast
  then have "tokenize env_w (self_w (Some tk_w)) [''ab'', ''hello''] [] =
       Inr (\<lparr>input_ids = [[60, 115, 62, 97], [60, 115, 62, 104]],
             attention_mask = [[1, 1, 1, 1], [1, 1, 1, 1]]\<rparr>, [Tokenizer_call ?c])"
    by (simp only: enc append_Nil)
  with h show ?thesis by blast
qed

subsection \<open>Reading the calls of a run\<close>

lemma head_calls_not_opt:
  "Opt_step \<notin> set (if n = 0 then setup_calls self else sync_calls self n) \<and>
   Opt_zero_grad \<notin> set (if n = 0 then setup_calls self else sync_calls self n) \<and>
   Scheduler_step \<notin> set (if n = 0 then setup_calls self else sync_calls self n)"
  by (auto simp: setup_calls_def sync_calls_def split: option.splits)

lemma eval_calls_not_opt:
  "Opt_step \<notin> set (eval_calls env self n) \<and> Opt_zero_grad \<notin> set (eval_calls env self n) \<and>
   Scheduler_step \<notin> set (eval_calls env self n)"
  by (auto simp: eval_calls_def main_calls_def split: option.splits)

lemma step_calls_opt:
  assumes "0 \<le> n" and "n < int (length bs)"
  shows "\<exists>pre. step_calls env self (setup_calls self) bs n lg = pre @ [Opt_step, Opt_zero_grad, Scheduler_step] \<and>
           Opt_step \<notin> set pre \<and> Opt_zero_grad \<notin> set pre \<and> Scheduler_step \<notin> set pre"
proof -
  let ?ei = "eval_interval (train (config self))"
  let ?b = "bs ! nat n"
  let ?pre = "(if n = 0 then setup_calls self else sync_calls self n) @
     (if n mod ?ei = 0 then eval_calls env self n else []) @
     [Model_loss True ?b] @
     (if n mod ?ei = 0 then [Accelerator_log (batch_logs env self n lg ?b)] else []) @
     [Accelerator_backward (fst (loss env n True ?b))]"
  have "step_calls env self (setup_calls self) bs n lg = ?pre @ [Opt_step, Opt_zero_grad, Scheduler_step]"
    using assms by (simp add: step_calls_def batch_calls_def)
  moreover have "Opt_step \<notin> set ?pre \<and> Opt_zero_grad \<notin> set ?pre \<and> Scheduler_step \<notin> set ?pre"
    using head_calls_not_opt [of n self] eval_calls_not_opt [of env self n] by auto
  ultimately show ?thesis by blast
qed

lemma step_calls_no_opt:
  assumes "n < 0 \<or> int (length bs) \<le> n"
  shows "Opt_step \<notin> set (step_calls env self (setup_calls self) bs n lg) \<and>
         Opt_zero_grad \<notin> set (step_calls env self (setup_calls self) bs n lg) \<and>
         Scheduler_step \<notin> set (step_calls env self (setup_calls self) bs n lg)"
  using assms head_calls_not_opt [of n self] by (auto simp: step_calls_def)

text \<open>
  C4. In training mode \<open>__init__\<close> constructs \<open>AdamW\<close> on the model with the learning
  rate \<open>learning_rate_init\<close>, then \<open>rampup_decay\<close> on \<open>lr_ramp_steps\<close>,
  \<open>lr_decay_steps\<close>, the ratio of \<open>learning_rate_target\<close> to \<open>learning_rate_init\<close>
  and that optimizer; they are its last two calls, and \<open>self.opt\<close> and
  \<open>self.scheduler\<close> are what they made. In \<open>learn\<close>, the calls made at each value
  \<open>n\<close> of the counter that a batch was processed at (there is one per batch of the run)
  end with \<open>opt.step()\<close>, \<open>opt.zero_grad()\<close>, \<open>scheduler.step()\<close>, in this order,
  and hold no other call of the three; at no other value of the counter is any of
  them called.
\<close>

theorem optimizer_and_scheduler:
  assumes "init env g cfg p tok lm True = Inr (self, tr)"
    and "learn env self = Inr (self', st)"
  shows "opt self = Some (AdamW (QVModel p (method' cfg)) (learning_rate_init (train cfg))) \<and>
         scheduler self =
           Some (Rampup_decay (lr_ramp_steps (train cfg)) (lr_decay_steps (train cfg))
                  (learning_rate_target (train cfg) / learning_rate_init (train cfg))
                  (AdamW (QVModel p (method' cfg)) (learning_rate_init (train cfg)))) \<and>
         learning_rate_init (train cfg) \<noteq> 0 \<and>
         (\<exists>pre. tr = pre @
            [AdamW_new (QVModel p (method' cfg)) (learning_rate_init (train cfg)),
             Rampup_decay_new (lr_ramp_steps (train cfg)) (lr_decay_steps (train cfg))
               (learning_rate_target (train cfg) / learning_rate_init (train cfg))
               (AdamW (QVModel p (method' cfg)) (learning_rate_init (train cfg)))]) \<and>
         opt_steps st = int (length (all_batches env self)) \<and>
         (\<forall>n. 0 \<le> n \<and> n < opt_steps st \<longrightarrow>
            (\<exists>pre. calls_at n (trace st) = pre @ [Opt_step, Opt_zero_grad, Scheduler_step] \<and>
               Opt_step \<notin> set pre \<and> Opt_zero_grad \<notin> set pre \<and> Scheduler_step \<notin> set pre)) \<and>
         (\<forall>n. n < 0 \<or> opt_steps st \<le> n \<longrightarrow>
            Opt_step \<notin> set (calls_at n (trace st)) \<and>
            Opt_zero_grad \<notin> set (calls_at n (trace st)) \<and>
            Scheduler_step \<notin> set (calls_at n (trace st)))"
proof -
  note i = init_Inr [OF assms(1)]
  note N = learn_calls(1) [OF assms(2)]
  from i have 1: "opt self = Some (AdamW (QVModel p (method' cfg)) (learning_rate_init (train cfg)))"
    by simp
  from i have 2: "scheduler self =
           Some (Rampup_decay (lr_ramp_steps (train cfg)) (lr_decay_steps (train cfg))
                  (learning_rate_target (train cfg) / learning_rate_init (train cfg))
                  (AdamW (QVModel p (method' cfg)) (learning_rate_init (train cfg))))"
    by simp
  from i have 3: "learning_rate_init (train cfg) \<noteq> 0" by simp
  from i have 4: "\<exists>pre. tr = pre @
            [AdamW_new (QVModel p (method' cfg)) (learning_rate_init (train cfg)),
             Rampup_decay_new (lr_ramp_steps (train cfg)) (lr_decay_steps (train cfg))
               (learning_rate_target (train cfg) / learning_rate_init (train cfg))
               (AdamW (QVModel p (method' cfg)) (learning_rate_init (train cfg)))]"
  proof -
    from i have "tr = ([BaseRLModel_init cfg True, QVModel_new p (method' cfg), Accelerator_new ''wandb'',
            Accelerator_print (environ env)] @
           (if WORLD_SIZE g > 1 then [Distributed_barrier [LOCAL_RANK g]] else [Manual_seed 1000]) @
           (if is_main_process env then [Init_trackers (project_name (train cfg)) cfg] else [])) @
            [AdamW_new (QVModel p (method' cfg)) (learning_rate_init (train cfg)),
             Rampup_decay_new (lr_ramp_steps (train cfg)) (lr_decay_steps (train cfg))
               (learning_rate_target (train cfg) / learning_rate_init (train cfg))
               (AdamW (QVModel p (method' cfg)) (learning_rate_init (train cfg)))]"
      by simp
    then show ?thesis ..
  qed
  have 5: "\<exists>pre. calls_at n (trace st) = pre @ [Opt_step, Opt_zero_grad, Scheduler_step] \<and>
               Opt_step \<notin> set pre \<and> Opt_zero_grad \<notin> set pre \<and> Scheduler_step \<notin> set pre"
    if "0 \<le> n \<and> n < opt_steps st" for n
  proof -
    from learn_calls(2) [OF assms(2), of n] obtain lg where
      "calls_at n (trace st) = step_calls env self (setup_calls self) (all_batches env self) n lg" ..
    with step_calls_opt [of n "all_batches env self" env self lg] that N show ?thesis by simp
  qed
  have 6: "Opt_step \<notin> set (calls_at n (trace st)) \<and>
            Opt_zero_grad \<notin> set (calls_at n (trace st)) \<and>
            Scheduler_step \<notin> set (calls_at n (trace st))"
    if "n < 0 \<or> opt_steps st \<le> n" for n
  proof -
    from learn_calls(2) [OF assms(2), of n] obtain lg where
      "calls_at n (trace st) = step_calls env self (setup_calls self) (all_batches env self) n lg" ..
    with step_calls_no_opt [of n "all_batches env self" env self lg] that N show ?thesis by simp
  qed
  from 1 2 3 4 N 5 6 show ?thesis by blast
qed

theorem optimizer_and_scheduler_witness:
  "\<exists>self tr self' st.
     init env_w g_w cfg_w ''gpt2'' None None True = Inr (self, tr) \<and>
     learn env_w self = Inr (self', st) \<and>
     opt self = Some (AdamW (QVModel ''gpt2'' \<lparr>steps_for_target_q_sync = 2\<rparr>) (1 / 1000)) \<and>
     scheduler self =
       Some (Rampup_decay 10 100 (1 / 10) (AdamW (QVModel ''gpt2'' \<lparr>steps_for_target_q_sync = 2\<rparr>) (1 / 1000))) \<and>
     opt_steps st = 3 \<and>
     (\<exists>pre. calls_at 2 (trace st) = pre @ [Opt_step, Opt_zero_grad, Scheduler_step]) \<and>
     Scheduler_step \<notin> set (calls_at 3 (trace st))"
proof -
  note h = init_w [of None]
  from learn_w [of None] obtain self' st where l: "learn env_w (self_w None) = Inr (self', st)" by blast
  note t = optimizer_and_scheduler [OF h l]
  from t have N: "opt_steps st = 3" by (simp add: all_batches_w)
  from t have a: "opt (self_w None) = Some (AdamW (QVModel ''gpt2'' \<lparr>steps_for_target_q_sync = 2\<rparr>) (1 / 1000))"
    by (simp add: cfg_w_def)
  from t have b: "scheduler (self_w None) =
       Some (Rampup_decay 10 100 (1 / 10) (AdamW (QVModel ''gpt2'' \<lparr>steps_for_target_q_sync = 2\<rparr>) (1 / 1000)))"
    by (simp add: cfg_w_def)
  from t have "\<forall>n. 0 \<le> n \<and> n < opt_steps st \<longrightarrow>
            (\<exists>pre. calls_at n (trace st) = pre @ [Opt_step, Opt_zero_grad, Scheduler_step] \<and>
               Opt_step \<notin> set pre \<and> Opt_zero_grad \<notin> set pre \<and> Scheduler_step \<notin> set pre)"
    by blast
  from this [rule_format, of 2] N
  have c: "\<exists>pre. calls_at 2 (trace st) = pre @ [Opt_step, Opt_zero_grad, Scheduler_step]"
    by auto
  from t have "\<forall>n. n < 0 \<or> opt_steps st \<le> n \<longrightarrow>
            Opt_step \<notin> set (calls_at n (trace st)) \<and>
            Opt_zero_grad \<notin> set (calls_at n (trace st)) \<and>
            Scheduler_step \<notin> set (calls_at n (trace st))"
    by blast
  from this [rule_format, of 3] N
  have d: "Scheduler_step \<notin> set (calls_at 3 (trace st))" by simp
  from h l a b N c d show ?thesis by blast
qed

lemma step_calls_eval:
  assumes "0 \<le> n" and "n < int (length bs)" and "n mod eval_interval (train (config self)) = 0"
  shows "step_calls env self pre bs n lg =
           (if n = 0 then pre else sync_calls self n) @ eval_calls env self n @
           [Model_loss True (bs ! nat n),
            Accelerator_log (batch_logs env self n lg (bs ! nat n)),
            Accelerator_backward (fst (loss env n True (bs ! nat n))),
            Opt_step, Opt_zero_grad, Scheduler_step]"
  using assms by (simp add: step_calls_def batch_calls_def)

lemma step_calls_plain:
  assumes "0 \<le> n" and "n < int (length bs)" and "n mod eval_interval (train (config self)) \<noteq> 0"
  shows "step_calls env self pre bs n lg =
           sync_calls self n @
           [Model_loss True (bs ! nat n),
            Accelerator_backward (fst (loss env n True (bs ! nat n))),
            Opt_step, Opt_zero_grad, Scheduler_step]"
proof -
  from assms(3) have "n \<noteq> 0" by auto
  with assms show ?thesis by (simp add: step_calls_def batch_calls_def)
qed

lemma step_calls_last:
  "step_calls env self pre bs (int (length bs)) lg =
     (if bs = [] then pre else sync_calls self (int (length bs)))"
  by (simp add: step_calls_def)

lemma step_calls_out:
  "n < 0 \<or> int (length bs) < n \<Longrightarrow> step_calls env self pre bs n lg = []"
  by (simp add: step_calls_def)

lemma step_calls_cases:
  obtains (out) "n < 0 \<or> int (length bs) < n"
  | (last) "n = int (length bs)"
  | (eval) "0 \<le> n" "n < int (length bs)" "n mod eval_interval (train (config self)) = 0"
  | (plain) "0 \<le> n" "n < int (length bs)" "n mod eval_interval (train (config self)) \<noteq> 0"
  by linarith

text \<open>The counter never decreases: the trace is sorted by it.\<close>

lemma learn_batch_sorted:
  assumes "sorted (map fst (trace st)) \<and> (\<forall>x \<in> set (trace st). fst x \<le> opt_steps st)"
    and "learn_batch env self b st = Inr st'"
  shows "sorted (map fst (trace st')) \<and> (\<forall>x \<in> set (trace st'). fst x \<le> opt_steps st')"
proof -
  from learn_batch_Inr [OF assms(2)]
  have st': "st' = \<lparr>opt_steps = opt_steps st + 1,
                logs = batch_logs env self (opt_steps st) (logs st) b,
                training = (opt_steps st mod eval_interval (train (config self)) = 0 \<or> training st),
                trace = trace st @
                  map (Pair (opt_steps st)) (batch_calls env self (opt_steps st) (training st) (logs st) b) @
                  map (Pair (opt_steps st + 1)) (sync_calls self (opt_steps st + 1))\<rparr>"
    by simp
  let ?X = "batch_calls env self (opt_steps st) (training st) (logs st) b"
  let ?S = "sync_calls self (opt_steps st + 1)"
  have m: "map fst (trace st') =
      map fst (trace st) @ replicate (length ?X) (opt_steps st) @ replicate (length ?S) (opt_steps st + 1)"
    by (simp add: st' comp_def map_replicate_const)
  have f: "fst ` set (trace st') \<subseteq> fst ` set (trace st) \<union> {opt_steps st, opt_steps st + 1}"
    by (auto simp: st')
  have n: "opt_steps st' = opt_steps st + 1" by (simp add: st')
  from assms(1) have "sorted (map fst (trace st'))"
    unfolding m by (auto simp: sorted_append)
  moreover from assms(1) f n have "\<forall>x \<in> set (trace st'). fst x \<le> opt_steps st'"
    by fastforce
  ultimately show ?thesis ..
qed

lemma learn_sorted:
  assumes "learn env self = Inr (self', st)"
  shows "sorted (map fst (trace st))"
proof -
  let ?I = "\<lambda>st. sorted (map fst (trace st)) \<and> (\<forall>x \<in> set (trace st). fst x \<le> opt_steps st)"
  let ?eos = "case tokenizer self of Some tk \<Rightarrow> eos_token_id tk | None \<Rightarrow> Some 0"
  let ?bs = "batch_size (train (config self))"
  let ?st0 = "\<lparr>opt_steps = 0, logs = [], training = training0 env, trace = []\<rparr>"
  have epoch: "?I s'" if "?I s" and "learn_epoch env slf k s = Inr s'" for slf k s s'
  proof -
    from that(2) have r: "run (map (learn_batch env slf) (train_batches env k)) (s\<lparr>logs := []\<rparr>) = Inr s'"
      by (simp add: learn_epoch_def run_Cons_Inr)
    from that(1) have i: "?I (s\<lparr>logs := []\<rparr>)" by simp
    show ?thesis
      by (rule run_map_invariant [where I = "\<lambda>acc. ?I" and f = "learn_batch env slf" and acc = "[]", OF _ i r])
         (rule learn_batch_sorted)
  qed
  from assms obtain s1 where
    1: "run [call env Clock_new, call env (Create_train_loader ?bs ?eos),
             call env (Create_eval_loader ?bs False)] ?st0 = Inr s1" and
    2: "(case opt self of
        None \<Rightarrow> Inl AttributeError
      | Some ad \<Rightarrow>
          bind_exc (call env (Accelerator_prepare (model self) ad) s1) (\<lambda>st.
          let self' = self\<lparr>model := Prepared_model (model self), opt := Some (Prepared_opt ad)\<rparr>
          in
          bind_exc (run (map (learn_epoch env self') [0..<nat (epochs (train (config self')))]) st) (\<lambda>st.
            Inr (self', st)))) = Inr (self', st)"
    unfolding learn_def Let_def bind_exc_Inr by blast
  from 2 obtain ad where ad: "opt self = Some ad" by (cases "opt self") auto
  let ?self' = "self\<lparr>model := Prepared_model (model self), opt := Some (Prepared_opt ad)\<rparr>"
  from 2 ad obtain s2 where
    3: "call env (Accelerator_prepare (model self) ad) s1 = Inr s2" and
    4: "run (map (learn_epoch env ?self') [0..<nat (epochs (train (config self)))]) s2 = Inr st"
    by (auto simp: bind_exc_Inr Let_def)
  from 1 have s1: "s1 = \<lparr>opt_steps = 0, logs = [], training = training0 env,
      trace = map (Pair 0) [Clock_new, Create_train_loader ?bs ?eos, Create_eval_loader ?bs False]\<rparr>"
    by (auto simp: run_Cons_Inr run_Nil_Inr call_Inr)
  from 3 have "?I s2" by (simp add: call_Inr s1)
  have "?I st"
    by (rule run_map_invariant [where I = "\<lambda>acc. ?I" and f = "learn_epoch env ?self'" and acc = "[]",
          OF _ \<open>?I s2\<close> 4]) (rule epoch)
  then show ?thesis ..
qed

lemma sorted_split:
  fixes T :: "(int \<times> 'a) list"
  shows "sorted (map fst T) \<Longrightarrow> T = filter (\<lambda>x. fst x < k) T @ filter (\<lambda>x. \<not> fst x < k) T"
proof (induction T)
  case Nil
  show ?case by simp
next
  case (Cons x T)
  from Cons.prems have s: "sorted (map fst T)" and le: "\<forall>y \<in> set T. fst x \<le> fst y" by auto
  show ?case
  proof (cases "fst x < k")
    case True
    with Cons.IH [OF s] show ?thesis by simp
  next
    case False
    with le have "\<forall>y \<in> set T. \<not> fst y < k" by fastforce
    then have "filter (\<lambda>x. fst x < k) T = []" and "filter (\<lambda>x. \<not> fst x < k) T = T"
      by (simp_all add: filter_empty_conv)
    with False show ?thesis by simp
  qed
qed

lemma filter_tag: "filter (\<lambda>x. fst x = k) T = map (Pair k) (calls_at k T)"
  by (induction T) (auto simp: calls_at_def)

text \<open>
  In a trace sorted by the counter, the last call made at \<open>k - 1\<close> and the first call
  made at \<open>k\<close> stand next to each other.
\<close>

lemma adjacent_calls:
  assumes s: "sorted (map fst T)"
    and a: "calls_at (k - 1) T = xs @ [a]"
    and b: "calls_at k T = b # ys"
  shows "\<exists>pre post. T = pre @ (k - 1, a) # (k, b) # post"
proof -
  let ?A = "filter (\<lambda>x. fst x < k) T" and ?B = "filter (\<lambda>x. \<not> fst x < k) T"
  have T: "T = ?A @ ?B" by (rule sorted_split [OF s])
  have sA: "sorted (map fst ?A)" and sB: "sorted (map fst ?B)"
    using s by (simp_all add: sorted_filter)
  have A: "?A = filter (\<lambda>x. fst x < k - 1) ?A @ filter (\<lambda>x. \<not> fst x < k - 1) ?A"
    by (rule sorted_split [OF sA])
  have B: "?B = filter (\<lambda>x. fst x < k + 1) ?B @ filter (\<lambda>x. \<not> fst x < k + 1) ?B"
    by (rule sorted_split [OF sB])
  have "filter (\<lambda>x. \<not> fst x < k - 1) ?A = filter (\<lambda>x. fst x = k - 1) T"
    by (auto intro: filter_cong)
  then have A2: "filter (\<lambda>x. \<not> fst x < k - 1) ?A = map (Pair (k - 1)) xs @ [(k - 1, a)]"
    by (simp add: filter_tag a)
  have "filter (\<lambda>x. fst x < k + 1) ?B = filter (\<lambda>x. fst x = k) T"
    by (auto intro: filter_cong)
  then have B1: "filter (\<lambda>x. fst x < k + 1) ?B = (k, b) # map (Pair k) ys"
    by (simp add: filter_tag b)
  have "T = (filter (\<lambda>x. fst x < k - 1) ?A @ map (Pair (k - 1)) xs) @ (k - 1, a) # (k, b) #
            (map (Pair k) ys @ filter (\<lambda>x. \<not> fst x < k + 1) ?B)"
    using T A B A2 B1 by (metis (no_types, lifting) append.assoc append_Cons append_Nil)
  then show ?thesis by blast
qed

lemma head_calls_plain:
  "\<forall>e \<in> set (if n = 0 then setup_calls self else sync_calls self n).
     e \<noteq> Model_eval \<and> e \<noteq> Model_train \<and> (\<forall>t b. e \<noteq> Model_loss t b) \<and> e \<noteq> Opt_step"
  by (auto simp: setup_calls_def sync_calls_def split: option.splits)

lemma main_calls_plain:
  "\<forall>e \<in> set (main_calls env self x).
     e \<noteq> Model_eval \<and> e \<noteq> Model_train \<and> (\<forall>t b. e \<noteq> Model_loss t b) \<and> e \<noteq> Opt_step"
  by (auto simp: main_calls_def split: option.splits)

lemma sync_calls_subset: "set (sync_calls self n) \<subseteq> {Sync_target_q_heads}"
  by (auto simp: sync_calls_def)

text \<open>
  C1. In a run of \<open>learn\<close> that returns, \<open>opt_steps\<close> ends as the number of training
  batches of the run, and a batch was processed at each value \<open>n\<close> of the counter from
  0 up to it. \<open>model.eval()\<close> is called at \<open>n\<close> exactly when \<open>n\<close> is a multiple of
  \<open>eval_interval\<close>. At such an \<open>n\<close> the calls are, in this order: what precedes the
  pass, \<open>model.eval()\<close>, one \<open>model.sample\<close> without gradients per batch of the
  evaluation loader, \<open>torch.vstack\<close> on the list of what these calls returned,
  \<open>accelerator.gather\<close> on the stack of that list, the calls of the main
  process, \<open>model.train()\<close>, and only then \<open>model.loss\<close> on the training batch,
  \<open>accelerator.log\<close>, \<open>accelerator.backward\<close> and the optimizer step. At any other
  \<open>n\<close> the calls are \<open>model.loss\<close>, \<open>accelerator.backward\<close> and the optimizer step,
  after at most a synchronisation of the target heads. In particular, when there is a
  first optimizer step, an evaluation pass precedes it.
\<close>

theorem evaluation_schedule:
  assumes "learn env self = Inr (self', st)"
  shows "opt_steps st = int (length (all_batches env self)) \<and>
         sorted (map fst (trace st)) \<and>
         (\<forall>n. (Model_eval \<in> set (calls_at n (trace st))) =
               (0 \<le> n \<and> n < opt_steps st \<and> n mod eval_interval (train (config self)) = 0)) \<and>
         (\<forall>n. 0 \<le> n \<and> n < opt_steps st \<and> n mod eval_interval (train (config self)) = 0 \<longrightarrow>
            (\<exists>pre mid lg l.
               calls_at n (trace st) =
                 pre @
                 Model_eval #
                 map (\<lambda>prompts. Model_sample False prompts (beta env) (gen_size (train (config self)))
                                   (logit_mask self))
                   (eval_batches env n) @
                 [Torch_vstack
                    (map (\<lambda>prompts. sample env n prompts (beta env) (gen_size (train (config self)))
                                      (logit_mask self))
                       (eval_batches env n)),
                  Accelerator_gather (torch_vstack
                    (map (\<lambda>prompts. sample env n prompts (beta env) (gen_size (train (config self)))
                                      (logit_mask self))
                       (eval_batches env n)))] @
                 mid @
                 [Model_train, Model_loss True (all_batches env self ! nat n), Accelerator_log lg,
                  Accelerator_backward l, Opt_step, Opt_zero_grad, Scheduler_step] \<and>
               (\<forall>e \<in> set (pre @ mid).
                  e \<noteq> Model_eval \<and> e \<noteq> Model_train \<and> (\<forall>t b. e \<noteq> Model_loss t b) \<and> e \<noteq> Opt_step))) \<and>
         (\<forall>n. 0 \<le> n \<and> n < opt_steps st \<and> n mod eval_interval (train (config self)) \<noteq> 0 \<longrightarrow>
            (\<exists>pre l.
               calls_at n (trace st) =
                 pre @
                 [Model_loss True (all_batches env self ! nat n), Accelerator_backward l,
                  Opt_step, Opt_zero_grad, Scheduler_step] \<and>
               set pre \<subseteq> {Sync_target_q_heads})) \<and>
         (0 < opt_steps st \<longrightarrow>
            (\<exists>pre post. calls_at 0 (trace st) = pre @ Model_eval # post \<and> Opt_step \<notin> set pre))"
proof -
  let ?ei = "eval_interval (train (config self))"
  let ?bs = "all_batches env self"
  let ?smp = "\<lambda>n. map (\<lambda>prompts. sample env n prompts (beta env) (gen_size (train (config self)))
                                      (logit_mask self))
                       (eval_batches env n)"
  let ?sample = "\<lambda>prompts. Model_sample False prompts (beta env) (gen_size (train (config self)))
                                   (logit_mask self)"
  note N = learn_calls(1) [OF assms]
  note S = learn_sorted [OF assms]
  have calls: "\<exists>lg. calls_at n (trace st) = step_calls env self (setup_calls self) ?bs n lg" for n
    by (rule learn_calls(2) [OF assms])
  have shape: "\<exists>pre mid lg l.
               calls_at n (trace st) =
                 pre @ Model_eval # map ?sample (eval_batches env n) @
                 [Torch_vstack (?smp n),
                  Accelerator_gather (torch_vstack (?smp n))] @
                 mid @
                 [Model_train, Model_loss True (?bs ! nat n), Accelerator_log lg,
                  Accelerator_backward l, Opt_step, Opt_zero_grad, Scheduler_step] \<and>
               (\<forall>e \<in> set (pre @ mid).
                  e \<noteq> Model_eval \<and> e \<noteq> Model_train \<and> (\<forall>t b. e \<noteq> Model_loss t b) \<and> e \<noteq> Opt_step)"
    if n: "0 \<le> n \<and> n < opt_steps st \<and> n mod ?ei = 0" for n
  proof -
    from calls [of n] obtain lg where
      c: "calls_at n (trace st) = step_calls env self (setup_calls self) ?bs n lg" ..
    let ?pre = "if n = 0 then setup_calls self else sync_calls self n"
    let ?mid = "if is_main_process env then main_calls env self (eval_gathered env self n) else []"
    from n N have "calls_at n (trace st) = ?pre @ eval_calls env self n @
           [Model_loss True (?bs ! nat n),
            Accelerator_log (batch_logs env self n lg (?bs ! nat n)),
            Accelerator_backward (fst (loss env n True (?bs ! nat n))),
            Opt_step, Opt_zero_grad, Scheduler_step]"
      by (simp add: c step_calls_eval)
    then have "calls_at n (trace st) =
                 ?pre @ Model_eval # map ?sample (eval_batches env n) @
                 [Torch_vstack (?smp n),
                  Accelerator_gather (torch_vstack (?smp n))] @
                 ?mid @
                 [Model_train, Model_loss True (?bs ! nat n),
                  Accelerator_log (batch_logs env self n lg (?bs ! nat n)),
                  Accelerator_backward (fst (loss env n True (?bs ! nat n))),
                  Opt_step, Opt_zero_grad, Scheduler_step]"
      by (simp add: eval_calls_def eval_samples_def)
    moreover have "\<forall>e \<in> set (?pre @ ?mid).
                  e \<noteq> Model_eval \<and> e \<noteq> Model_train \<and> (\<forall>t b. e \<noteq> Model_loss t b) \<and> e \<noteq> Opt_step"
      using head_calls_plain [of n self] main_calls_plain [of env self "eval_gathered env self n"]
      by (simp add: ball_Un)
    ultimately show ?thesis by blast
  qed
  have shape': "\<exists>pre l.
               calls_at n (trace st) =
                 pre @ [Model_loss True (?bs ! nat n), Accelerator_backward l,
                        Opt_step, Opt_zero_grad, Scheduler_step] \<and>
               set pre \<subseteq> {Sync_target_q_heads}"
    if n: "0 \<le> n \<and> n < opt_steps st \<and> n mod ?ei \<noteq> 0" for n
  proof -
    from calls [of n] obtain lg where
      c: "calls_at n (trace st) = step_calls env self (setup_calls self) ?bs n lg" ..
    from n N have "calls_at n (trace st) = sync_calls self n @
           [Model_loss True (?bs ! nat n),
            Accelerator_backward (fst (loss env n True (?bs ! nat n))),
            Opt_step, Opt_zero_grad, Scheduler_step]"
      by (simp add: c step_calls_plain)
    with sync_calls_subset [of self n] show ?thesis by blast
  qed
  have iff: "(Model_eval \<in> set (calls_at n (trace st))) = (0 \<le> n \<and> n < opt_steps st \<and> n mod ?ei = 0)" for n
  proof (cases rule: step_calls_cases [where n = n and bs = "?bs" and self = self])
    case out
    with calls [of n] N show ?thesis by (auto simp: step_calls_out)
  next
    case last
    with calls [of n] N head_calls_plain [of n self] show ?thesis
      by (auto simp: step_calls_last split: if_splits)
  next
    case eval
    with shape [of n] N show ?thesis by auto
  next
    case plain
    with shape' [of n] N
    show ?thesis by auto
  qed
  have first: "\<exists>pre post. calls_at 0 (trace st) = pre @ Model_eval # post \<and> Opt_step \<notin> set pre"
    if "0 < opt_steps st"
  proof -
    from that have "0 \<le> (0::int) \<and> 0 < opt_steps st \<and> 0 mod ?ei = 0" by simp
    from shape [OF this] obtain pre mid lg l where
      c: "calls_at 0 (trace st) =
                 pre @ Model_eval # (map ?sample (eval_batches env 0) @
                 [Torch_vstack (?smp 0),
                  Accelerator_gather (torch_vstack (?smp 0))] @
                 mid @
                 [Model_train, Model_loss True (?bs ! nat 0), Accelerator_log lg,
                  Accelerator_backward l, Opt_step, Opt_zero_grad, Scheduler_step])"
      and p: "\<forall>e \<in> set (pre @ mid).
                  e \<noteq> Model_eval \<and> e \<noteq> Model_train \<and> (\<forall>t b. e \<noteq> Model_loss t b) \<and> e \<noteq> Opt_step"
      by auto
    from p have "Opt_step \<notin> set pre" by auto
    with c show ?thesis by blast
  qed
  from N S iff shape shape' first show ?thesis by blast
qed

theorem evaluation_schedule_witness:
  "\<exists>self' st. learn env_w (self_w None) = Inr (self', st) \<and> opt_steps st = 3 \<and>
     Model_eval \<in> set (calls_at 0 (trace st)) \<and> Model_eval \<notin> set (calls_at 1 (trace st)) \<and>
     Model_eval \<in> set (calls_at 2 (trace st)) \<and> Model_eval \<notin> set (calls_at 3 (trace st)) \<and>
     (\<exists>pre post. calls_at 0 (trace st) =
        pre @ [Model_eval, Model_sample False [[5, 6]] 1 4 None, Torch_vstack [[[5, 6, 7]]],
               Accelerator_gather [[5, 6, 7]]] @ post)"
proof -
  from learn_w [of None] obtain self' st where l: "learn env_w (self_w None) = Inr (self', st)" by blast
  note t = evaluation_schedule [OF l]
  from t have N: "opt_steps st = 3" by (simp add: all_batches_w)
  from t [THEN conjunct2, THEN conjunct2, THEN conjunct1]
  have e: "(Model_eval \<in> set (calls_at n (trace st))) = (0 \<le> n \<and> n < 3 \<and> n mod 2 = 0)" for n
    by (simp add: N self_w_def cfg_w_def)
  have m: "Model_eval \<in> set (calls_at 0 (trace st))" "Model_eval \<notin> set (calls_at 1 (trace st))"
    "Model_eval \<in> set (calls_at 2 (trace st))" "Model_eval \<notin> set (calls_at 3 (trace st))"
    by (simp_all add: e)
  have p0: "0 \<le> (0::int) \<and> 0 < opt_steps st \<and> 0 mod eval_interval (train (config (self_w None))) = 0"
    by (simp add: N)
  have smp: "map (\<lambda>prompts. sample env_w 0 prompts (beta env_w) (gen_size (train (config (self_w None))))
                     (logit_mask (self_w None))) (eval_batches env_w 0) = [[[5, 6, 7]]]"
    by (simp add: env_w_def self_w_def cfg_w_def)
  have cl: "map (\<lambda>prompts. Model_sample False prompts (beta env_w) (gen_size (train (config (self_w None))))
                     (logit_mask (self_w None))) (eval_batches env_w 0) = [Model_sample False [[5, 6]] 1 4 None]"
    by (simp add: env_w_def self_w_def cfg_w_def)
  have vs: "torch_vstack [[[5, 6, 7]]] = [[5, 6, 7]]" by (simp add: torch_vstack_def)
  note u = t [THEN conjunct2, THEN conjunct2, THEN conjunct2, THEN conjunct1, rule_format, OF p0,
      unfolded smp cl vs]
  from u obtain pre mid lg l' where
    c: "calls_at 0 (trace st) =
          pre @ Model_eval # [Model_sample False [[5, 6]] 1 4 None] @
          [Torch_vstack [[[5, 6, 7]]], Accelerator_gather [[5, 6, 7]]] @ mid @
          [Model_train, Model_loss True (all_batches env_w (self_w None) ! nat 0), Accelerator_log lg,
           Accelerator_backward l', Opt_step, Opt_zero_grad, Scheduler_step]"
    by blast
  then have "calls_at 0 (trace st) =
        pre @ [Model_eval, Model_sample False [[5, 6]] 1 4 None, Torch_vstack [[[5, 6, 7]]],
               Accelerator_gather [[5, 6, 7]]] @ (mid @
          [Model_train, Model_loss True (all_batches env_w (self_w None) ! nat 0), Accelerator_log lg,
           Accelerator_backward l', Opt_step, Opt_zero_grad, Scheduler_step])"
    by simp
  then have s: "\<exists>pre post. calls_at 0 (trace st) =
        pre @ [Model_eval, Model_sample False [[5, 6]] 1 4 None, Torch_vstack [[[5, 6, 7]]],
               Accelerator_gather [[5, 6, 7]]] @ post"
    by (intro exI)
  show ?thesis using l N m s by (intro exI [of _ self'] exI [of _ st] conjI) assumption+
qed

lemma head_calls_count_sync:
  "count_list (if n = 0 then setup_calls self else sync_calls self n) Sync_target_q_heads =
     (if n \<noteq> 0 \<and> n mod steps_for_target_q_sync (method' (config self)) = 0 then 1 else 0)"
  by (auto simp: setup_calls_def sync_calls_def split: option.splits)

lemma batch_calls_no_sync: "Sync_target_q_heads \<notin> set (batch_calls env self n t lg b)"
  by (auto simp: batch_calls_def eval_calls_def main_calls_def split: option.splits)

lemma step_calls_count_sync:
  "count_list (step_calls env self (setup_calls self) bs n lg) Sync_target_q_heads =
     (if 0 < n \<and> n \<le> int (length bs) \<and> n mod steps_for_target_q_sync (method' (config self)) = 0
      then 1 else 0)"
proof -
  have b: "count_list (batch_calls env self n' t lg' b) Sync_target_q_heads = 0" for n' t lg' b
    using batch_calls_no_sync [of env self n' t lg' b] by (simp add: count_list_0_iff)
  show ?thesis
    using head_calls_count_sync [of n self]
    by (auto simp: step_calls_def b)
qed

lemma step_calls_sync_first:
  assumes "0 < n" and "n \<le> int (length bs)"
    and "n mod steps_for_target_q_sync (method' (config self)) = 0"
  shows "\<exists>post. step_calls env self pre bs n lg = Sync_target_q_heads # post"
  using assms by (simp add: step_calls_def sync_calls_def)

text \<open>
  C2. In a run of \<open>learn\<close> that returns, \<open>sync_target_q_heads\<close> is called once at each
  value \<open>k\<close> of the counter, from 1 up to the number of optimizer steps of the run, that
  is a multiple of \<open>steps_for_target_q_sync\<close>, and at no other value. It is the first
  call made after the counter was set to \<open>k\<close>, and it stands in the trace right after
  the \<open>scheduler.step()\<close> that ended optimizer step \<open>k - 1\<close>.
\<close>

theorem target_sync_schedule:
  assumes "learn env self = Inr (self', st)"
  shows "opt_steps st = int (length (all_batches env self)) \<and>
         (\<forall>k. count_list (calls_at k (trace st)) Sync_target_q_heads =
               (if 0 < k \<and> k \<le> opt_steps st \<and>
                   k mod steps_for_target_q_sync (method' (config self)) = 0
                then 1 else 0)) \<and>
         (\<forall>k. 0 < k \<and> k \<le> opt_steps st \<and> k mod steps_for_target_q_sync (method' (config self)) = 0 \<longrightarrow>
            (\<exists>post. calls_at k (trace st) = Sync_target_q_heads # post) \<and>
            (\<exists>pre post. trace st = pre @ (k - 1, Scheduler_step) # (k, Sync_target_q_heads) # post))"
proof -
  let ?bs = "all_batches env self"
  note N = learn_calls(1) [OF assms]
  note S = learn_sorted [OF assms]
  have calls: "\<exists>lg. calls_at n (trace st) = step_calls env self (setup_calls self) ?bs n lg" for n
    by (rule learn_calls(2) [OF assms])
  have count: "count_list (calls_at k (trace st)) Sync_target_q_heads =
               (if 0 < k \<and> k \<le> opt_steps st \<and>
                   k mod steps_for_target_q_sync (method' (config self)) = 0
                then 1 else 0)" for k
    using calls [of k] N by (auto simp: step_calls_count_sync)
  have pos: "(\<exists>post. calls_at k (trace st) = Sync_target_q_heads # post) \<and>
            (\<exists>pre post. trace st = pre @ (k - 1, Scheduler_step) # (k, Sync_target_q_heads) # post)"
    if k: "0 < k \<and> k \<le> opt_steps st \<and> k mod steps_for_target_q_sync (method' (config self)) = 0" for k
  proof -
    from calls [of k] obtain lg where
      c: "calls_at k (trace st) = step_calls env self (setup_calls self) ?bs k lg" ..
    from step_calls_sync_first [of k ?bs self env "setup_calls self" lg] k N c
    obtain post where first: "calls_at k (trace st) = Sync_target_q_heads # post" by auto
    from calls [of "k - 1"] obtain lg' where
      c': "calls_at (k - 1) (trace st) = step_calls env self (setup_calls self) ?bs (k - 1) lg'" ..
    from step_calls_opt [of "k - 1" ?bs env self lg'] k N c'
    obtain pre' where "calls_at (k - 1) (trace st) = pre' @ [Opt_step, Opt_zero_grad, Scheduler_step]"
      by auto
    then have last: "calls_at (k - 1) (trace st) = (pre' @ [Opt_step, Opt_zero_grad]) @ [Scheduler_step]"
      by simp
    from adjacent_calls [OF S last first] first show ?thesis by blast
  qed
  from N count pos show ?thesis by simp
qed

theorem target_sync_schedule_witness:
  "\<exists>self' st. learn env_w (self_w None) = Inr (self', st) \<and> opt_steps st = 3 \<and>
     Sync_target_q_heads \<notin> set (calls_at 0 (trace st)) \<and>
     Sync_target_q_heads \<notin> set (calls_at 1 (trace st)) \<and>
     count_list (calls_at 2 (trace st)) Sync_target_q_heads = 1 \<and>
     Sync_target_q_heads \<notin> set (calls_at 3 (trace st)) \<and>
     (\<exists>pre post. trace st = pre @ (1, Scheduler_step) # (2, Sync_target_q_heads) # post)"
proof -
  from learn_w [of None] obtain self' st where l: "learn env_w (self_w None) = Inr (self', st)" by blast
  note t = target_sync_schedule [OF l]
  from t have N: "opt_steps st = 3" by (simp add: all_batches_w)
  have sfs: "steps_for_target_q_sync (method' (config (self_w None))) = 2"
    by (simp add: self_w_def cfg_w_def)
  from t [THEN conjunct2, THEN conjunct1]
  have c: "count_list (calls_at k (trace st)) Sync_target_q_heads =
      (if 0 < k \<and> k \<le> 3 \<and> k mod 2 = 0 then 1 else 0)" for k
    by (simp add: N sfs)
  have c0: "Sync_target_q_heads \<notin> set (calls_at 0 (trace st))"
    and c1: "Sync_target_q_heads \<notin> set (calls_at 1 (trace st))"
    and c2: "count_list (calls_at 2 (trace st)) Sync_target_q_heads = 1"
    and c3: "Sync_target_q_heads \<notin> set (calls_at 3 (trace st))"
    using c [of 0] c [of 1] c [of 2] c [of 3] by (simp_all add: count_list_0_iff)
  from t [THEN conjunct2, THEN conjunct2, rule_format, of 2]
  have adj: "\<exists>pre post. trace st = pre @ (1, Scheduler_step) # (2, Sync_target_q_heads) # post"
    by (simp add: N sfs)
  from l N c0 c1 c2 c3 adj show ?thesis by blast
qed

lemma tail_calls_plain:
  "\<forall>e \<in> set [Accelerator_log lg, Accelerator_backward l, Opt_step, Opt_zero_grad, Scheduler_step].
     e \<noteq> Model_eval \<and> e \<noteq> Model_train \<and> (\<forall>t b. e \<noteq> Model_loss t b)"
  by simp

lemma sample_calls_plain:
  "\<forall>e \<in> set (map (\<lambda>prompts. Model_sample False prompts bt gn lm) ps @ [Torch_vstack x, Accelerator_gather y]).
     e \<noteq> Model_eval \<and> e \<noteq> Model_train \<and> (\<forall>t b. e \<noteq> Model_loss t b)"
  by auto

lemma ball_appendI: "\<forall>e \<in> set xs. P e \<Longrightarrow> \<forall>e \<in> set ys. P e \<Longrightarrow> \<forall>e \<in> set (xs @ ys). P e"
  by auto

lemma step_calls_eval_shape:
  assumes "0 \<le> n" and "n < int (length bs)" and "n mod eval_interval (train (config self)) = 0"
  shows "\<exists>pre mid post.
           step_calls env self (setup_calls self) bs n lg =
             pre @ Model_eval # mid @ Model_train # Model_loss True (bs ! nat n) # post \<and>
           (\<forall>e \<in> set (pre @ mid @ post).
              e \<noteq> Model_eval \<and> e \<noteq> Model_train \<and> (\<forall>t b. e \<noteq> Model_loss t b))"
proof -
  let ?pre = "if n = 0 then setup_calls self else sync_calls self n"
  let ?smp = "map (\<lambda>prompts. Model_sample False prompts (beta env) (gen_size (train (config self)))
                  (logit_mask self)) (eval_batches env n) @
              [Torch_vstack (eval_samples env self n),
               Accelerator_gather (torch_vstack (eval_samples env self n))]"
  let ?main = "if is_main_process env then main_calls env self (eval_gathered env self n) else []"
  let ?post = "[Accelerator_log (batch_logs env self n lg (bs ! nat n)),
                Accelerator_backward (fst (loss env n True (bs ! nat n))),
                Opt_step, Opt_zero_grad, Scheduler_step]"
  have "step_calls env self (setup_calls self) bs n lg =
          ?pre @ Model_eval # (?smp @ ?main) @ Model_train # Model_loss True (bs ! nat n) # ?post"
    using assms by (simp add: step_calls_eval eval_calls_def)
  moreover have "\<forall>e \<in> set (?pre @ (?smp @ ?main) @ ?post).
              e \<noteq> Model_eval \<and> e \<noteq> Model_train \<and> (\<forall>t b. e \<noteq> Model_loss t b)"
  proof -
    have h: "\<forall>e \<in> set ?pre. e \<noteq> Model_eval \<and> e \<noteq> Model_train \<and> (\<forall>t b. e \<noteq> Model_loss t b)"
      using head_calls_plain [of n self] by blast
    have m: "\<forall>e \<in> set ?main. e \<noteq> Model_eval \<and> e \<noteq> Model_train \<and> (\<forall>t b. e \<noteq> Model_loss t b)"
    proof (cases "is_main_process env")
      case True
      with main_calls_plain [of env self "eval_gathered env self n"] show ?thesis by simp
    next
      case False
      then show ?thesis by simp
    qed
    note s = sample_calls_plain [of "beta env" "gen_size (train (config self))" "logit_mask self"
        "eval_batches env n" "eval_samples env self n" "torch_vstack (eval_samples env self n)"]
    note t = tail_calls_plain [of "batch_logs env self n lg (bs ! nat n)" "fst (loss env n True (bs ! nat n))"]
    show ?thesis
      by (rule ball_appendI [OF h ball_appendI [OF ball_appendI [OF s m] t]])
  qed
  ultimately show ?thesis by blast
qed

lemma step_calls_plain_shape:
  assumes "0 \<le> n" and "n < int (length bs)" and "n mod eval_interval (train (config self)) \<noteq> 0"
  shows "\<exists>pre post.
           step_calls env self (setup_calls self) bs n lg = pre @ Model_loss True (bs ! nat n) # post \<and>
           (\<forall>e \<in> set (pre @ post).
              e \<noteq> Model_eval \<and> e \<noteq> Model_train \<and> (\<forall>t b. e \<noteq> Model_loss t b))"
proof -
  let ?post = "[Accelerator_backward (fst (loss env n True (bs ! nat n))),
                Opt_step, Opt_zero_grad, Scheduler_step]"
  have "step_calls env self (setup_calls self) bs n lg =
          sync_calls self n @ Model_loss True (bs ! nat n) # ?post"
    using assms by (simp add: step_calls_plain)
  moreover have "\<forall>e \<in> set (sync_calls self n @ ?post).
              e \<noteq> Model_eval \<and> e \<noteq> Model_train \<and> (\<forall>t b. e \<noteq> Model_loss t b)"
  proof (rule ball_appendI)
    show "\<forall>e \<in> set (sync_calls self n).
              e \<noteq> Model_eval \<and> e \<noteq> Model_train \<and> (\<forall>t b. e \<noteq> Model_loss t b)"
      by (simp add: sync_calls_def)
    show "\<forall>e \<in> set ?post. e \<noteq> Model_eval \<and> e \<noteq> Model_train \<and> (\<forall>t b. e \<noteq> Model_loss t b)"
      by simp
  qed
  ultimately show ?thesis by blast
qed

lemma step_calls_loss:
  assumes "Model_loss t b \<in> set (step_calls env self (setup_calls self) bs n lg)"
  shows "t"
proof (cases rule: step_calls_cases [where n = n and bs = bs and self = self])
  case out
  with assms show ?thesis by (simp add: step_calls_out)
next
  case last
  with assms head_calls_plain [of n self] show ?thesis
    by (auto simp: step_calls_last split: if_splits)
next
  case eval
  from step_calls_eval_shape [OF eval, of env lg] obtain pre mid post where
    c: "step_calls env self (setup_calls self) bs n lg =
          pre @ Model_eval # mid @ Model_train # Model_loss True (bs ! nat n) # post"
    and p: "\<forall>e \<in> set (pre @ mid @ post).
              e \<noteq> Model_eval \<and> e \<noteq> Model_train \<and> (\<forall>t b. e \<noteq> Model_loss t b)"
    by blast
  from assms have "Model_loss t b \<in> set (pre @ mid @ post) \<or> Model_loss t b = Model_loss True (bs ! nat n)"
    unfolding c by auto
  with p show ?thesis by blast
next
  case plain
  from step_calls_plain_shape [OF plain, of env lg] obtain pre post where
    c: "step_calls env self (setup_calls self) bs n lg = pre @ Model_loss True (bs ! nat n) # post"
    and p: "\<forall>e \<in> set (pre @ post).
              e \<noteq> Model_eval \<and> e \<noteq> Model_train \<and> (\<forall>t b. e \<noteq> Model_loss t b)"
    by blast
  from assms have "Model_loss t b \<in> set (pre @ post) \<or> Model_loss t b = Model_loss True (bs ! nat n)"
    unfolding c by auto
  with p show ?thesis by blast
qed

text \<open>
  C9. In a run of \<open>learn\<close> that returns, every call of \<open>model.loss\<close> is made on a model
  in training mode, whatever mode the model was in when \<open>learn\<close> was entered. There is
  one such call at each value \<open>n\<close> of the counter that a batch was processed at, on
  that batch. Where \<open>n\<close> is a multiple of \<open>eval_interval\<close>, its calls hold one
  \<open>model.eval()\<close>, later one \<open>model.train()\<close>, and right after it the call of
  \<open>model.loss\<close>; at any other \<open>n\<close> the mode is not touched.
\<close>

theorem loss_in_training_mode:
  assumes "learn env self = Inr (self', st)"
  shows "opt_steps st = int (length (all_batches env self)) \<and>
         (\<forall>k t b. (k, Model_loss t b) \<in> set (trace st) \<longrightarrow> t) \<and>
         (\<forall>n. 0 \<le> n \<and> n < opt_steps st \<and> n mod eval_interval (train (config self)) = 0 \<longrightarrow>
            (\<exists>pre mid post.
               calls_at n (trace st) =
                 pre @ Model_eval # mid @ Model_train # Model_loss True (all_batches env self ! nat n) # post \<and>
               (\<forall>e \<in> set (pre @ mid @ post).
                  e \<noteq> Model_eval \<and> e \<noteq> Model_train \<and> (\<forall>t b. e \<noteq> Model_loss t b)))) \<and>
         (\<forall>n. 0 \<le> n \<and> n < opt_steps st \<and> n mod eval_interval (train (config self)) \<noteq> 0 \<longrightarrow>
            (\<exists>pre post.
               calls_at n (trace st) = pre @ Model_loss True (all_batches env self ! nat n) # post \<and>
               (\<forall>e \<in> set (pre @ post).
                  e \<noteq> Model_eval \<and> e \<noteq> Model_train \<and> (\<forall>t b. e \<noteq> Model_loss t b)))) \<and>
         (all_batches env self = [] \<or> training st)"
proof -
  let ?bs = "all_batches env self"
  note N = learn_calls(1) [OF assms]
  have calls: "\<exists>lg. calls_at n (trace st) = step_calls env self (setup_calls self) ?bs n lg" for n
    by (rule learn_calls(2) [OF assms])
  have 1: "\<forall>k t b. (k, Model_loss t b) \<in> set (trace st) \<longrightarrow> t"
  proof (intro allI impI)
    fix k t b
    assume "(k, Model_loss t b) \<in> set (trace st)"
    then have m: "Model_loss t b \<in> set (calls_at k (trace st))" by (simp add: set_calls_at)
    from calls [of k] obtain lg where
      "calls_at k (trace st) = step_calls env self (setup_calls self) ?bs k lg" ..
    with m have "Model_loss t b \<in> set (step_calls env self (setup_calls self) ?bs k lg)" by simp
    then show t by (rule step_calls_loss)
  qed
  have 2: "\<forall>n. 0 \<le> n \<and> n < opt_steps st \<and> n mod eval_interval (train (config self)) = 0 \<longrightarrow>
            (\<exists>pre mid post.
               calls_at n (trace st) =
                 pre @ Model_eval # mid @ Model_train # Model_loss True (all_batches env self ! nat n) # post \<and>
               (\<forall>e \<in> set (pre @ mid @ post).
                  e \<noteq> Model_eval \<and> e \<noteq> Model_train \<and> (\<forall>t b. e \<noteq> Model_loss t b)))"
  proof (intro allI impI)
    fix n
    assume n: "0 \<le> n \<and> n < opt_steps st \<and> n mod eval_interval (train (config self)) = 0"
    from calls [of n] obtain lg where
      c: "calls_at n (trace st) = step_calls env self (setup_calls self) ?bs n lg" ..
    from n N have "0 \<le> n" "n < int (length ?bs)" "n mod eval_interval (train (config self)) = 0"
      by simp_all
    from step_calls_eval_shape [OF this, of env lg]
    show "\<exists>pre mid post.
               calls_at n (trace st) =
                 pre @ Model_eval # mid @ Model_train # Model_loss True (all_batches env self ! nat n) # post \<and>
               (\<forall>e \<in> set (pre @ mid @ post).
                  e \<noteq> Model_eval \<and> e \<noteq> Model_train \<and> (\<forall>t b. e \<noteq> Model_loss t b))"
      unfolding c .
  qed
  have 3: "\<forall>n. 0 \<le> n \<and> n < opt_steps st \<and> n mod eval_interval (train (config self)) \<noteq> 0 \<longrightarrow>
            (\<exists>pre post.
               calls_at n (trace st) = pre @ Model_loss True (all_batches env self ! nat n) # post \<and>
               (\<forall>e \<in> set (pre @ post).
                  e \<noteq> Model_eval \<and> e \<noteq> Model_train \<and> (\<forall>t b. e \<noteq> Model_loss t b)))"
  proof (intro allI impI)
    fix n
    assume n: "0 \<le> n \<and> n < opt_steps st \<and> n mod eval_interval (train (config self)) \<noteq> 0"
    from calls [of n] obtain lg where
      c: "calls_at n (trace st) = step_calls env self (setup_calls self) ?bs n lg" ..
    from n N have "0 \<le> n" "n < int (length ?bs)" "n mod eval_interval (train (config self)) \<noteq> 0"
      by simp_all
    from step_calls_plain_shape [OF this, of env lg]
    show "\<exists>pre post.
               calls_at n (trace st) = pre @ Model_loss True (all_batches env self ! nat n) # post \<and>
               (\<forall>e \<in> set (pre @ post).
                  e \<noteq> Model_eval \<and> e \<noteq> Model_train \<and> (\<forall>t b. e \<noteq> Model_loss t b))"
      unfolding c .
  qed
  note 4 = learn_calls(3) [OF assms]
  show ?thesis using N 1 2 3 4 by (intro conjI) assumption+
qed

theorem loss_in_training_mode_witness:
  "\<exists>self' st. learn env_w (self_w None) = Inr (self', st) \<and> opt_steps st = 3 \<and>
     \<not> training0 env_w \<and> training st \<and>
     (\<exists>pre mid post. calls_at 2 (trace st) =
        pre @ Model_eval # mid @ Model_train # Model_loss True [[3]] # post) \<and>
     (\<exists>pre post. calls_at 1 (trace st) = pre @ Model_loss True [[2]] # post)"
proof -
  from learn_w [of None] obtain self' st where l: "learn env_w (self_w None) = Inr (self', st)" by blast
  note t = loss_in_training_mode [OF l]
  from t have N: "opt_steps st = 3" by (simp add: all_batches_w)
  have ei: "eval_interval (train (config (self_w None))) = 2" by (simp add: self_w_def cfg_w_def)
  have p2: "0 \<le> (2::int) \<and> 2 < opt_steps st \<and> 2 mod eval_interval (train (config (self_w None))) = 0"
    by (simp add: N ei)
  have p1: "0 \<le> (1::int) \<and> 1 < opt_steps st \<and> 1 mod eval_interval (train (config (self_w None))) \<noteq> 0"
    by (simp add: N ei)
  from t [THEN conjunct2, THEN conjunct2, THEN conjunct1, rule_format, OF p2]
  obtain pre mid post where "calls_at 2 (trace st) =
      pre @ Model_eval # mid @ Model_train # Model_loss True (all_batches env_w (self_w None) ! nat 2) # post"
    by blast
  then have "calls_at 2 (trace st) = pre @ Model_eval # mid @ Model_train # Model_loss True [[3]] # post"
    by (simp add: all_batches_w)
  then have a: "\<exists>pre mid post. calls_at 2 (trace st) =
        pre @ Model_eval # mid @ Model_train # Model_loss True [[3]] # post"
    by (intro exI)
  from t [THEN conjunct2, THEN conjunct2, THEN conjunct2, THEN conjunct1, rule_format, OF p1]
  obtain pre' post' where "calls_at 1 (trace st) =
      pre' @ Model_loss True (all_batches env_w (self_w None) ! nat 1) # post'"
    by blast
  then have "calls_at 1 (trace st) = pre' @ Model_loss True [[2]] # post'"
    by (simp add: all_batches_w)
  then have b: "\<exists>pre post. calls_at 1 (trace st) = pre @ Model_loss True [[2]] # post"
    by (intro exI)
  from t have c: "training st" by (simp add: all_batches_w)
  have d: "\<not> training0 env_w" by (simp add: env_w_def)
  show ?thesis
    using l N d c a b by (intro exI [of _ self'] exI [of _ st] conjI) assumption+
qed

lemma environ_truthy_set: "environ_truthy env k \<Longrightarrow> map_of (environ env) k \<noteq> None"
  by (auto simp: environ_truthy_def split: option.splits)

lemma main_calls_no_tokenizer:
  assumes "tokenizer self = None" and "e \<in> set (main_calls env self x)"
  shows "(\<forall>a b. e \<noteq> Batch_decode a b) \<and> (\<forall>a b. e \<noteq> Wandb_table a b) \<and> (\<forall>a. e \<noteq> Print_pairs a) \<and>
         (\<forall>a. e = Print_samples a \<longrightarrow> environ_truthy env ''DEBUG'' \<and> a = x) \<and>
         (\<forall>a b. e \<noteq> Create_train_loader a b)"
  using assms by (auto simp: main_calls_def split: option.splits if_splits)

lemma eval_calls_no_tokenizer:
  assumes "tokenizer self = None" and "e \<in> set (eval_calls env self n)"
  shows "(\<forall>a b. e \<noteq> Batch_decode a b) \<and> (\<forall>a b. e \<noteq> Wandb_table a b) \<and> (\<forall>a. e \<noteq> Print_pairs a) \<and>
         (\<forall>a. e = Print_samples a \<longrightarrow>
            environ_truthy env ''DEBUG'' \<and> is_main_process env \<and> a = eval_gathered env self n) \<and>
         (\<forall>a b. e \<noteq> Create_train_loader a b)"
proof -
  from assms(2) consider
    "e = Model_eval \<or> e = Model_train \<or> e = Torch_vstack (eval_samples env self n) \<or>
     e = Accelerator_gather (torch_vstack (eval_samples env self n)) \<or>
     (\<exists>p. e = Model_sample False p (beta env) (gen_size (train (config self))) (logit_mask self))"
    | "is_main_process env" "e \<in> set (main_calls env self (eval_gathered env self n))"
    by (auto simp: eval_calls_def split: if_splits)
  then show ?thesis
  proof cases
    case 1
    then show ?thesis by auto
  next
    case 2
    with main_calls_no_tokenizer [OF assms(1) 2(2)] show ?thesis by simp
  qed
qed

lemma batch_calls_no_tokenizer:
  assumes "tokenizer self = None" and "e \<in> set (batch_calls env self n t lg b)"
  shows "(\<forall>a b. e \<noteq> Batch_decode a b) \<and> (\<forall>a b. e \<noteq> Wandb_table a b) \<and> (\<forall>a. e \<noteq> Print_pairs a) \<and>
         (\<forall>a. e = Print_samples a \<longrightarrow>
            environ_truthy env ''DEBUG'' \<and> is_main_process env \<and> a = eval_gathered env self n) \<and>
         (\<forall>a b. e \<noteq> Create_train_loader a b)"
proof -
  from assms(2) consider
    "e \<in> set (eval_calls env self n)"
    | "(\<exists>t b. e = Model_loss t b) \<or> (\<exists>l. e = Accelerator_log l) \<or> (\<exists>l. e = Accelerator_backward l) \<or>
       e = Opt_step \<or> e = Opt_zero_grad \<or> e = Scheduler_step"
    by (auto simp: batch_calls_def split: if_splits)
  then show ?thesis
  proof cases
    case 1
    from eval_calls_no_tokenizer [OF assms(1) 1] show ?thesis .
  next
    case 2
    then show ?thesis by auto
  qed
qed

lemma step_calls_no_tokenizer:
  assumes "tokenizer self = None" and "e \<in> set (step_calls env self (setup_calls self) bs n lg)"
  shows "(\<forall>a b. e \<noteq> Batch_decode a b) \<and> (\<forall>a b. e \<noteq> Wandb_table a b) \<and> (\<forall>a. e \<noteq> Print_pairs a) \<and>
         (\<forall>a. e = Print_samples a \<longrightarrow>
            environ_truthy env ''DEBUG'' \<and> is_main_process env \<and> a = eval_gathered env self n) \<and>
         (\<forall>a b. e = Create_train_loader a b \<longrightarrow>
            n = 0 \<and> a = batch_size (train (config self)) \<and> b = Some 0)"
proof -
  from assms(2) consider
    "n = 0" "e \<in> set (setup_calls self)"
    | "e = Sync_target_q_heads"
    | "e \<in> set (batch_calls env self n True lg (bs ! nat n))"
    by (auto simp: step_calls_def sync_calls_def split: if_splits)
  then show ?thesis
  proof cases
    case 1
    with assms(1) show ?thesis by (auto simp: setup_calls_def split: option.splits)
  next
    case 2
    then show ?thesis by simp
  next
    case 3
    from batch_calls_no_tokenizer [OF assms(1) 3] show ?thesis by simp
  qed
qed

text \<open>
  C10. In a run of \<open>learn\<close> that returns, on an object without a tokenizer: the first
  two calls are the construction of the clock and \<open>create_loader\<close> on the training
  store with \<open>eos_token_id=0\<close>, and the training loader is created nowhere else; the
  tokenizer's \<open>batch_decode\<close> is never called, no \<open>wandb.Table\<close> is made, no pairs of
  text and reward are printed; and the samples are printed only by the main process,
  only when the environment variable \<open>DEBUG\<close> is set (and not empty), and they are the
  gathered samples of that evaluation pass.
\<close>

theorem learn_without_tokenizer:
  assumes "tokenizer self = None"
    and "learn env self = Inr (self', st)"
  shows "(\<exists>post. calls_at 0 (trace st) =
            Clock_new # Create_train_loader (batch_size (train (config self))) (Some 0) # post) \<and>
         (\<forall>k a b. (k, Create_train_loader a b) \<in> set (trace st) \<longrightarrow>
            k = 0 \<and> a = batch_size (train (config self)) \<and> b = Some 0) \<and>
         (\<forall>k a b. (k, Batch_decode a b) \<notin> set (trace st)) \<and>
         (\<forall>k a b. (k, Wandb_table a b) \<notin> set (trace st)) \<and>
         (\<forall>k a. (k, Print_pairs a) \<notin> set (trace st)) \<and>
         (\<forall>k a. (k, Print_samples a) \<in> set (trace st) \<longrightarrow>
            map_of (environ env) ''DEBUG'' \<noteq> None \<and> environ_truthy env ''DEBUG'' \<and>
            is_main_process env \<and>
            a = gather env (torch_vstack
                  (map (\<lambda>prompts. sample env k prompts (beta env) (gen_size (train (config self)))
                                    (logit_mask self))
                     (eval_batches env k))))"
proof -
  let ?bs = "all_batches env self"
  have calls: "\<exists>lg. calls_at n (trace st) = step_calls env self (setup_calls self) ?bs n lg" for n
    by (rule learn_calls(2) [OF assms(2)])
  have mem: "\<exists>lg. e \<in> set (step_calls env self (setup_calls self) ?bs k lg)"
    if "(k, e) \<in> set (trace st)" for k e
  proof -
    from that have "e \<in> set (calls_at k (trace st))" by (simp add: set_calls_at)
    with calls [of k] show ?thesis by auto
  qed
  have 1: "\<exists>post. calls_at 0 (trace st) =
            Clock_new # Create_train_loader (batch_size (train (config self))) (Some 0) # post"
  proof -
    from calls [of 0] obtain lg where
      "calls_at 0 (trace st) = step_calls env self (setup_calls self) ?bs 0 lg" ..
    then show ?thesis using assms(1) by (simp add: step_calls_def setup_calls_def)
  qed
  have 2: "\<forall>k a b. (k, Create_train_loader a b) \<in> set (trace st) \<longrightarrow>
            k = 0 \<and> a = batch_size (train (config self)) \<and> b = Some 0"
  proof (intro allI impI)
    fix k a b
    assume "(k, Create_train_loader a b) \<in> set (trace st)"
    from mem [OF this] obtain lg where
      "Create_train_loader a b \<in> set (step_calls env self (setup_calls self) ?bs k lg)" ..
    from step_calls_no_tokenizer [OF assms(1) this]
    show "k = 0 \<and> a = batch_size (train (config self)) \<and> b = Some 0" by simp
  qed
  have 3: "\<forall>k a b. (k, Batch_decode a b) \<notin> set (trace st)"
  proof (intro allI notI)
    fix k a b
    assume "(k, Batch_decode a b) \<in> set (trace st)"
    from mem [OF this] obtain lg where
      "Batch_decode a b \<in> set (step_calls env self (setup_calls self) ?bs k lg)" ..
    from step_calls_no_tokenizer [OF assms(1) this] show False by blast
  qed
  have 4: "\<forall>k a b. (k, Wandb_table a b) \<notin> set (trace st)"
  proof (intro allI notI)
    fix k a b
    assume "(k, Wandb_table a b) \<in> set (trace st)"
    from mem [OF this] obtain lg where
      "Wandb_table a b \<in> set (step_calls env self (setup_calls self) ?bs k lg)" ..
    from step_calls_no_tokenizer [OF assms(1) this] show False by blast
  qed
  have 5: "\<forall>k a. (k, Print_pairs a) \<notin> set (trace st)"
  proof (intro allI notI)
    fix k a
    assume "(k, Print_pairs a) \<in> set (trace st)"
    from mem [OF this] obtain lg where
      "Print_pairs a \<in> set (step_calls env self (setup_calls self) ?bs k lg)" ..
    from step_calls_no_tokenizer [OF assms(1) this] show False by blast
  qed
  have 6: "\<forall>k a. (k, Print_samples a) \<in> set (trace st) \<longrightarrow>
            map_of (environ env) ''DEBUG'' \<noteq> None \<and> environ_truthy env ''DEBUG'' \<and>
            is_main_process env \<and> a = eval_gathered env self k"
  proof (intro allI impI)
    fix k a
    assume "(k, Print_samples a) \<in> set (trace st)"
    from mem [OF this] obtain lg where
      "Print_samples a \<in> set (step_calls env self (setup_calls self) ?bs k lg)" ..
    from step_calls_no_tokenizer [OF assms(1) this]
    have "environ_truthy env ''DEBUG'' \<and> is_main_process env \<and> a = eval_gathered env self k" by simp
    with environ_truthy_set [of env "''DEBUG''"]
    show "map_of (environ env) ''DEBUG'' \<noteq> None \<and> environ_truthy env ''DEBUG'' \<and>
            is_main_process env \<and> a = eval_gathered env self k" by simp
  qed
  note 7 = 6 [unfolded eval_gathered_def eval_samples_def]
  show ?thesis using 1 2 3 4 5 7 by (intro conjI) assumption+
qed

theorem learn_without_tokenizer_witness:
  "tokenizer (self_w None) = None \<and>
   (\<exists>self' st. learn env_w (self_w None) = Inr (self', st) \<and>
      (\<exists>post. calls_at 0 (trace st) = Clock_new # Create_train_loader 1 (Some 0) # post) \<and>
      (1, Wandb_table [] []) \<notin> set (trace st))"
proof -
  have n: "tokenizer (self_w None) = None" by (simp add: self_w_def)
  from learn_w [of None] obtain self' st where l: "learn env_w (self_w None) = Inr (self', st)" by blast
  note t = learn_without_tokenizer [OF n l]
  from t [THEN conjunct1]
  have a: "\<exists>post. calls_at 0 (trace st) = Clock_new # Create_train_loader 1 (Some 0) # post"
    by (simp add: self_w_def cfg_w_def)
  from t [THEN conjunct2, THEN conjunct2, THEN conjunct2, THEN conjunct1]
  have b: "(1, Wandb_table [] []) \<notin> set (trace st)" by simp
  have "\<exists>self' st. learn env_w (self_w None) = Inr (self', st) \<and>
      (\<exists>post. calls_at 0 (trace st) = Clock_new # Create_train_loader 1 (Some 0) # post) \<and>
      (1, Wandb_table [] []) \<notin> set (trace st)"
    using l a b by (intro exI [of _ self'] exI [of _ st] conjI) assumption+
  with n show ?thesis ..
qed


lemma map_of_dict_update_other:
  "k \<notin> fst ` set other \<Longrightarrow> map_of (dict_update other d) k = map_of d k"
proof (induction other arbitrary: d)
  case Nil
  show ?case by (simp add: dict_update_def)
next
  case (Cons x xs)
  from Cons.prems have k: "k \<noteq> fst x" and xs: "k \<notin> fst ` set xs" by auto
  have "dict_update (x # xs) d = dict_update xs (AList.update (fst x) (snd x) d)"
    by (simp add: dict_update_def case_prod_beta)
  with Cons.IH [OF xs, of "AList.update (fst x) (snd x) d"] k show ?case
    by (simp add: update_conv')
qed












subsection \<open>The exceptions of the methods\<close>

lemma fails_with_run_Nil: "fails_with P (run [])"
  by (simp add: fails_with_def)

lemma fails_with_run_Cons: "fails_with P a \<Longrightarrow> fails_with P (run as) \<Longrightarrow> fails_with P (run (a # as))"
  unfolding fails_with_def
proof (intro allI impI)
  fix s e
  assume a: "\<forall>s e. a s = Inl e \<longrightarrow> P e" and r: "\<forall>s e. run as s = Inl e \<longrightarrow> P e"
    and f: "run (a # as) s = Inl e"
  show "P e"
  proof (cases "a s")
    case (Inl e')
    with f have "a s = Inl e" by (simp add: run.simps(2))
    with a show ?thesis by blast
  next
    case (Inr s1)
    with f have "run as s1 = Inl e" by (simp add: run.simps(2))
    with r show ?thesis by blast
  qed
qed

lemma fails_with_run_map: "(\<And>x. fails_with P (f x)) \<Longrightarrow> fails_with P (run (map f xs))"
  by (induction xs) (simp_all add: fails_with_run_Nil fails_with_run_Cons)

lemma fails_with_Inr: "fails_with P Inr"
  by (simp add: fails_with_def)

lemma fails_with_if: "fails_with P a \<Longrightarrow> fails_with P b \<Longrightarrow> fails_with P (if c then a else b)"
  by simp

lemma fails_with_case_option:
  "fails_with P a \<Longrightarrow> (\<And>x. fails_with P (b x)) \<Longrightarrow> fails_with P (case v of None \<Rightarrow> a | Some x \<Rightarrow> b x)"
  by (cases v) simp_all

lemma fails_with_call: "fails_with (call_failure env) (call env c)"
  by (auto simp: fails_with_def call_def call_failure_def split: option.splits)

lemma fails_with_call0: "fails_with (call_failure env) (call0 env c)"
  by (auto simp: fails_with_def call0_def call_failure_def split: option.splits)

lemma fails_with_logs_store: "fails_with P (logs_store k v)"
  by (simp add: fails_with_def logs_store_def)

lemma fails_with_logs_merge: "fails_with P (logs_merge d)"
  by (simp add: fails_with_def logs_merge_def)

lemma fails_with_model_eval: "fails_with (call_failure env) (model_eval env)"
  using fails_with_call [of env Model_eval]
  by (auto simp: fails_with_def model_eval_def bind_exc_def split: sum.splits)

lemma fails_with_model_train: "fails_with (call_failure env) (model_train env)"
  using fails_with_call [of env Model_train]
  by (auto simp: fails_with_def model_train_def bind_exc_def split: sum.splits)

lemma fails_with_evaluate_main: "fails_with (call_failure env) (evaluate_main env self samples)"
  unfolding evaluate_main_def Let_def
  by (intro fails_with_run_Cons fails_with_run_Nil fails_with_call fails_with_Inr fails_with_if
        fails_with_case_option fails_with_logs_store fails_with_logs_merge)

lemma fails_with_evaluate: "fails_with (call_failure env) (evaluate env self)"
proof -
  have "fails_with (call_failure env) (run
        [model_eval env,
         run (map (\<lambda>prompts. call env (Model_sample False prompts (beta env)
                                  (gen_size (train (config self))) (logit_mask self)))
                (eval_batches env n)),
         call env (Torch_vstack (eval_samples env self n)),
         call env (Accelerator_gather (torch_vstack (eval_samples env self n))),
         if is_main_process env then evaluate_main env self (eval_gathered env self n) else Inr,
         model_train env])" for n
    by (intro fails_with_run_Cons fails_with_run_Nil fails_with_run_map fails_with_call fails_with_Inr
          fails_with_if fails_with_model_eval fails_with_model_train fails_with_evaluate_main)
  then show ?thesis
    by (simp add: fails_with_def evaluate_def Let_def)
qed

lemma fails_with_mod:
  assumes "fails_with (call_failure env) a"
    and "k = eval_interval (train (config self)) \<or> k = steps_for_target_q_sync (method' (config self))"
  shows "fails_with (step_failure env self)
           (\<lambda>st. bind_exc (py_mod (opt_steps st) k) (\<lambda>r. if r = 0 then a st else Inr st))"
  using assms
  by (auto simp: fails_with_def step_failure_def bind_exc_def py_mod_def split: if_splits)

lemma fails_with_step_call: "fails_with (step_failure env self) (\<lambda>st. call env (f st) st)"
  by (auto simp: fails_with_def step_failure_def call_def call_failure_def split: option.splits)

lemma fails_with_log:
  "fails_with (call_failure env)
      (\<lambda>st. run [logs_merge (snd (loss env (opt_steps st) (training st) b)),
                  \<lambda>st. call env (Accelerator_log (logs st)) st] st)"
  by (auto simp: fails_with_def run.simps(2) logs_merge_def call_def call_failure_def split: option.splits)

lemma fails_with_scheduler:
  "fails_with (step_failure env self)
     (case scheduler self of None \<Rightarrow> (\<lambda>st. Inl AttributeError) | Some sch \<Rightarrow> call env Scheduler_step)"
  by (auto simp: fails_with_def step_failure_def call_def call_failure_def split: option.splits)

lemma fails_with_learn_batch: "fails_with (step_failure env self) (learn_batch env self b)"
  unfolding learn_batch_def
  apply (intro fails_with_run_Cons fails_with_run_Nil)
  subgoal by (rule fails_with_mod [OF fails_with_evaluate]) simp
  subgoal by (rule fails_with_step_call)
  subgoal by (rule fails_with_mod [OF fails_with_log]) simp
  subgoal by (rule fails_with_step_call)
  subgoal by (rule fails_with_step_call [where f = "\<lambda>st. Opt_step"])
  subgoal by (rule fails_with_step_call [where f = "\<lambda>st. Opt_zero_grad"])
  subgoal by (rule fails_with_scheduler)
  subgoal by (simp add: fails_with_def)
  subgoal by (rule fails_with_mod [OF fails_with_call]) simp
  done

lemma fails_with_learn_epoch: "fails_with (step_failure env self) (learn_epoch env self k)"
  unfolding learn_epoch_def
  by (intro fails_with_run_Cons fails_with_run_map fails_with_learn_batch) (simp add: fails_with_def)

lemma fails_withD: "fails_with P a \<Longrightarrow> a s = Inl e \<Longrightarrow> P e"
  unfolding fails_with_def by blast

lemma step_failure_rebound:
  "step_failure env (self\<lparr>model := m, opt := ad\<rparr>) e = step_failure env self e"
  by (simp add: step_failure_def)

lemma learn_fails:
  assumes "learn env self = Inl e"
  shows "(e = ZeroDivisionError \<and>
          (eval_interval (train (config self)) = 0 \<or> steps_for_target_q_sync (method' (config self)) = 0)) \<or>
         (e = AttributeError \<and> (opt self = None \<or> scheduler self = None)) \<or>
         call_failure env e"
proof -
  let ?eos = "case tokenizer self of Some tk \<Rightarrow> eos_token_id tk | None \<Rightarrow> Some 0"
  let ?bs = "batch_size (train (config self))"
  let ?st0 = "\<lparr>opt_steps = 0, logs = [], training = training0 env, trace = []\<rparr>"
  let ?pre = "run [call env Clock_new, call env (Create_train_loader ?bs ?eos),
             call env (Create_eval_loader ?bs False)]"
  have pre: "fails_with (call_failure env) ?pre"
    by (intro fails_with_run_Cons fails_with_run_Nil fails_with_call)
  show ?thesis
  proof (cases "?pre ?st0")
    case (Inl e')
    with assms have "e' = e" by (simp add: learn_def Let_def bind_exc_def)
    with Inl fails_withD [OF pre] show ?thesis by blast
  next
    case s1: (Inr s1)
    show ?thesis
    proof (cases "opt self")
      case None
      with assms s1 show ?thesis by (simp add: learn_def Let_def bind_exc_def)
    next
      case (Some ad)
      let ?self' = "self\<lparr>model := Prepared_model (model self), opt := Some (Prepared_opt ad)\<rparr>"
      show ?thesis
      proof (cases "call env (Accelerator_prepare (model self) ad) s1")
        case (Inl e')
        with assms s1 Some have "e' = e" by (simp add: learn_def Let_def bind_exc_def)
        with Inl fails_withD [OF fails_with_call] show ?thesis by blast
      next
        case s2: (Inr s2)
        have ep: "fails_with (step_failure env ?self')
            (run (map (learn_epoch env ?self') [0..<nat (epochs (train (config self)))]))"
          by (intro fails_with_run_map fails_with_learn_epoch)
        from assms s1 Some s2
        have "run (map (learn_epoch env ?self') [0..<nat (epochs (train (config self)))]) s2 = Inl e"
          by (simp add: learn_def Let_def bind_exc_def split: sum.splits)
        from fails_withD [OF ep this] have "step_failure env self e"
          by (simp add: step_failure_rebound)
        then show ?thesis by (auto simp: step_failure_def)
      qed
    qed
  qed
qed

lemma bind_exc_Inl: "(bind_exc m f = Inl e) = (m = Inl e \<or> (\<exists>x. m = Inr x \<and> f x = Inl e))"
  by (cases m) (simp_all add: bind_exc_def)

lemma init_fails:
  assumes "init env g cfg p tok lm tm = Inl e"
  shows "(e = ZeroDivisionError \<and> tm \<and> learning_rate_init (train cfg) = 0) \<or> call_failure env e"
proof -
  let ?pre = "run
        [call0 env (BaseRLModel_init cfg tm),
         call0 env (QVModel_new p (method' cfg)),
         call0 env (Accelerator_new ''wandb''),
         call0 env (Accelerator_print (environ env)),
         if WORLD_SIZE g > 1
         then call0 env (Distributed_barrier [LOCAL_RANK g])
         else call0 env (Manual_seed 1000),
         if is_main_process env
         then call0 env (Init_trackers (project_name (train cfg)) cfg)
         else Inr]"
  have pre: "fails_with (call_failure env) ?pre"
    by (intro fails_with_run_Cons fails_with_run_Nil fails_with_call0 fails_with_if fails_with_Inr)
  show ?thesis
  proof (cases "?pre []")
    case (Inl e')
    with assms have "e' = e" by (simp add: init_def Let_def bind_exc_def)
    with Inl fails_withD [OF pre] show ?thesis by blast
  next
    case (Inr tr1)
    show ?thesis
    proof (cases tm)
      case False
      with assms Inr show ?thesis by (simp add: init_def Let_def bind_exc_def)
    next
      case True
      let ?m = "QVModel p (method' cfg)"
      let ?ad = "AdamW ?m (learning_rate_init (train cfg))"
      show ?thesis
      proof (cases "call0 env (AdamW_new ?m (learning_rate_init (train cfg))) tr1")
        case (Inl e')
        with assms Inr True have "e' = e" by (simp add: init_def Let_def bind_exc_def)
        with Inl fails_withD [OF fails_with_call0] show ?thesis by blast
      next
        case tr2: (Inr tr2)
        show ?thesis
        proof (cases "learning_rate_init (train cfg) = 0")
          case z: True
          with assms Inr True tr2 have "e = ZeroDivisionError"
            by (simp add: init_def Let_def bind_exc_def py_truediv_def)
          with z True show ?thesis by simp
        next
          case nz: False
          let ?ratio = "learning_rate_target (train cfg) / learning_rate_init (train cfg)"
          from assms Inr True tr2 nz
          have "call0 env (Rampup_decay_new (lr_ramp_steps (train cfg)) (lr_decay_steps (train cfg))
                  ?ratio ?ad) tr2 = Inl e"
            by (simp add: init_def Let_def bind_exc_def py_truediv_def split: sum.splits)
          with fails_withD [OF fails_with_call0] show ?thesis by blast
        qed
      qed
    qed
  qed
qed

lemma tokenize_fails:
  assumes "tokenize env self xs tr = Inl e"
  shows "(e = AttributeError \<and> tokenizer self = None \<and> xs \<noteq> []) \<or>
         (e = TypeError \<and> tokenizer self = None \<and> xs = []) \<or>
         (e = TypeError \<and> xs \<noteq> [] \<and>
            (\<exists>tk. tokenizer self = Some tk \<and> (bos_token tk = None \<or> eos_token tk = None))) \<or>
         (\<exists>c x. raises env tr c = Some x \<and> e = External x)"
proof (cases "tokenizer self")
  case None
  with assms show ?thesis by (auto simp: tokenize_def split: if_splits)
next
  case (Some tk)
  show ?thesis
  proof (cases "wrap_texts tk xs")
    case (Inl e')
    with assms Some have "e' = e" by (simp add: tokenize_def bind_exc_def)
    with Inl Some show ?thesis
      by (auto simp: wrap_texts_def split: if_splits option.splits)
  next
    case (Inr ws)
    with assms Some show ?thesis
      by (auto simp: tokenize_def bind_exc_def Let_def call0_def split: option.splits)
  qed
qed

lemma get_components_fails:
  assumes "get_components self = Inl e"
  shows "e = AttributeError \<and> train_mode self \<and> (opt self = None \<or> scheduler self = None)"
  using assms by (auto simp: get_components_def split: if_splits option.splits)

subsection \<open>The first call that raises ends the method\<close>

lemma quiet_world_fields:
  "environ (quiet_world env) = environ env"
  "py_int (quiet_world env) = py_int env"
  "is_main_process (quiet_world env) = is_main_process env"
  "beta (quiet_world env) = beta env"
  "training0 (quiet_world env) = training0 env"
  "sample (quiet_world env) = sample env"
  "gather (quiet_world env) = gather env"
  "reward_fn (quiet_world env) = reward_fn env"
  "stats_fn (quiet_world env) = stats_fn env"
  "loss (quiet_world env) = loss env"
  "train_batches (quiet_world env) = train_batches env"
  "eval_batches (quiet_world env) = eval_batches env"
  by (simp_all add: quiet_world_def)

lemma raises_quiet_world: "raises (quiet_world env) h c = None"
  by (simp add: quiet_world_def)

lemma environ_truthy_quiet_world: "environ_truthy (quiet_world env) k = environ_truthy env k"
  by (simp add: environ_truthy_def quiet_world_fields)

lemma first_raise_append:
  "first_raise env h (xs @ ys) =
     (case first_raise env h xs of Some x \<Rightarrow> Some x | None \<Rightarrow> first_raise env (h @ xs) ys)"
  by (induction xs arbitrary: h) (simp_all split: option.splits)

lemma followsI:
  assumes "\<And>s s'. aq s = Inr s' \<Longrightarrow>
     \<exists>new. tr s' = tr s @ new \<and>
       (case first_raise env (tr s) new of
          None \<Rightarrow> a s = Inr s'
        | Some x \<Rightarrow> a s = Inl (External x))"
  shows "follows tr env aq a"
  unfolding follows_def using assms by blast

lemma followsD:
  assumes "follows tr env aq a" and "aq s = Inr s'"
  shows "\<exists>new. tr s' = tr s @ new \<and>
       (case first_raise env (tr s) new of
          None \<Rightarrow> a s = Inr s'
        | Some x \<Rightarrow> a s = Inl (External x))"
  using assms unfolding follows_def by blast

lemma follows_pure:
  assumes "\<And>s s'. p s = Inr s' \<Longrightarrow> tr s' = tr s"
  shows "follows tr env p p"
proof (rule followsI)
  fix s s'
  assume p: "p s = Inr s'"
  from assms [OF p] have "tr s' = tr s @ []" by simp
  moreover from p have "case first_raise env (tr s) [] of
          None \<Rightarrow> p s = Inr s'
        | Some x \<Rightarrow> p s = Inl (External x)" by simp
  ultimately show "\<exists>new. tr s' = tr s @ new \<and>
       (case first_raise env (tr s) new of
          None \<Rightarrow> p s = Inr s'
        | Some x \<Rightarrow> p s = Inl (External x))" by blast
qed

lemma follows_run_Nil: "follows tr env (run []) (run [])"
  by (rule follows_pure) simp

lemma follows_Inr: "follows tr env Inr Inr"
  by (rule follows_pure) simp

lemma follows_Inl: "follows tr env (\<lambda>s. Inl e) (\<lambda>s. Inl e)"
  by (rule follows_pure) simp

lemma follows_run_Cons:
  assumes a: "follows tr env aq a" and r: "follows tr env (run aqs) (run as)"
  shows "follows tr env (run (aq # aqs)) (run (a # as))"
proof (rule followsI)
  fix s s'
  assume "run (aq # aqs) s = Inr s'"
  then obtain s1 where 1: "aq s = Inr s1" and 2: "run aqs s1 = Inr s'"
    by (auto simp: run_Cons_Inr)
  from followsD [OF a 1] obtain n1 where t1: "tr s1 = tr s @ n1"
    and c1: "case first_raise env (tr s) n1 of
          None \<Rightarrow> a s = Inr s1
        | Some x \<Rightarrow> a s = Inl (External x)" by blast
  from followsD [OF r 2] obtain n2 where t2: "tr s' = tr s1 @ n2"
    and c2: "case first_raise env (tr s1) n2 of
          None \<Rightarrow> run as s1 = Inr s'
        | Some x \<Rightarrow> run as s1 = Inl (External x)" by blast
  from t1 t2 have t: "tr s' = tr s @ (n1 @ n2)" by simp
  have c: "case first_raise env (tr s) (n1 @ n2) of
          None \<Rightarrow> run (a # as) s = Inr s'
        | Some x \<Rightarrow> run (a # as) s = Inl (External x)"
  proof (cases "first_raise env (tr s) n1")
    case (Some x)
    with c1 show ?thesis by (simp add: first_raise_append run.simps(2))
  next
    case None
    with c1 have "a s = Inr s1" by simp
    with c2 None t1 show ?thesis
      by (simp add: first_raise_append run.simps(2) split: option.splits)
  qed
  from t c show "\<exists>new. tr s' = tr s @ new \<and>
       (case first_raise env (tr s) new of
          None \<Rightarrow> run (a # as) s = Inr s'
        | Some x \<Rightarrow> run (a # as) s = Inl (External x))" by blast
qed

lemma follows_run_map:
  assumes "\<And>x. follows tr env (fq x) (f x)"
  shows "follows tr env (run (map fq xs)) (run (map f xs))"
  by (induction xs) (simp_all add: follows_Inr follows_run_Nil follows_run_Cons assms)

lemma follows_if:
  "follows tr env aq a \<Longrightarrow> follows tr env bq b \<Longrightarrow>
   follows tr env (if c then aq else bq) (if c then a else b)"
  by simp

lemma follows_case_option:
  "follows tr env aq a \<Longrightarrow> (\<And>x. follows tr env (bq x) (b x)) \<Longrightarrow>
   follows tr env (case v of None \<Rightarrow> aq | Some x \<Rightarrow> bq x) (case v of None \<Rightarrow> a | Some x \<Rightarrow> b x)"
  by (cases v) simp_all

lemma follows_step_call:
  "follows events env (\<lambda>st. call (quiet_world env) (f st) st) (\<lambda>st. call env (f st) st)"
proof (rule followsI)
  fix s s'
  assume "call (quiet_world env) (f s) s = Inr s'"
  then have s': "s' = s\<lparr>trace := trace s @ [(opt_steps s, f s)]\<rparr>"
    by (simp add: call_def raises_quiet_world)
  then have t: "events s' = events s @ [f s]" by (simp add: events_def)
  have c: "case first_raise env (events s) [f s] of
          None \<Rightarrow> call env (f s) s = Inr s'
        | Some x \<Rightarrow> call env (f s) s = Inl (External x)"
    by (simp add: call_def events_def s' split: option.splits)
  from t c show "\<exists>new. events s' = events s @ new \<and>
       (case first_raise env (events s) new of
          None \<Rightarrow> call env (f s) s = Inr s'
        | Some x \<Rightarrow> call env (f s) s = Inl (External x))" by blast
qed

lemma follows_call: "follows events env (call (quiet_world env) c) (call env c)"
  by (rule follows_step_call [where f = "\<lambda>st. c"])

lemma follows_call0: "follows (\<lambda>t. t) env (call0 (quiet_world env) c) (call0 env c)"
proof (rule followsI)
  fix s s'
  assume "call0 (quiet_world env) c s = Inr s'"
  then have t: "s' = s @ [c]" by (simp add: call0_def raises_quiet_world)
  have c: "case first_raise env s [c] of
          None \<Rightarrow> call0 env c s = Inr s'
        | Some x \<Rightarrow> call0 env c s = Inl (External x)"
    by (simp add: call0_def t split: option.splits)
  from t c show "\<exists>new. s' = s @ new \<and>
       (case first_raise env s new of
          None \<Rightarrow> call0 env c s = Inr s'
        | Some x \<Rightarrow> call0 env c s = Inl (External x))" by blast
qed

lemma follows_logs_store: "follows events env (logs_store k v) (logs_store k v)"
  by (rule follows_pure) (auto simp: logs_store_def events_def)

lemma follows_logs_merge: "follows events env (logs_merge d) (logs_merge d)"
  by (rule follows_pure) (auto simp: logs_merge_def events_def)

lemma follows_counter:
  "follows events env (\<lambda>st. Inr (st\<lparr>opt_steps := opt_steps st + 1\<rparr>))
     (\<lambda>st. Inr (st\<lparr>opt_steps := opt_steps st + 1\<rparr>))"
  by (rule follows_pure) (auto simp: events_def)

lemma follows_logs_reset:
  "follows events env (\<lambda>st. Inr (st\<lparr>logs := []\<rparr>)) (\<lambda>st. Inr (st\<lparr>logs := []\<rparr>))"
  by (rule follows_pure) (auto simp: events_def)

lemma follows_then:
  assumes a: "follows events env aq a" and p: "\<And>s. events (p s) = events s"
  shows "follows events env (\<lambda>st. bind_exc (aq st) (\<lambda>st. Inr (p st)))
           (\<lambda>st. bind_exc (a st) (\<lambda>st. Inr (p st)))"
proof (rule followsI)
  fix s s'
  assume "bind_exc (aq s) (\<lambda>st. Inr (p st)) = Inr s'"
  then obtain s1 where 1: "aq s = Inr s1" and s': "s' = p s1"
    by (auto simp: bind_exc_Inr)
  from followsD [OF a 1] obtain new where t: "events s1 = events s @ new"
    and c: "case first_raise env (events s) new of
          None \<Rightarrow> a s = Inr s1
        | Some x \<Rightarrow> a s = Inl (External x)" by blast
  from t have t': "events s' = events s @ new" by (simp add: s' p)
  from c have c': "case first_raise env (events s) new of
          None \<Rightarrow> bind_exc (a s) (\<lambda>st. Inr (p st)) = Inr s'
        | Some x \<Rightarrow> bind_exc (a s) (\<lambda>st. Inr (p st)) = Inl (External x)"
    by (simp add: bind_exc_def s' split: option.splits)
  from t' c' show "\<exists>new. events s' = events s @ new \<and>
       (case first_raise env (events s) new of
          None \<Rightarrow> bind_exc (a s) (\<lambda>st. Inr (p st)) = Inr s'
        | Some x \<Rightarrow> bind_exc (a s) (\<lambda>st. Inr (p st)) = Inl (External x))" by blast
qed

lemma follows_model_eval: "follows events env (model_eval (quiet_world env)) (model_eval env)"
  unfolding model_eval_def
  by (rule follows_then [OF follows_call]) (simp add: events_def)

lemma follows_model_train: "follows events env (model_train (quiet_world env)) (model_train env)"
  unfolding model_train_def
  by (rule follows_then [OF follows_call]) (simp add: events_def)

lemma follows_mod:
  assumes a: "follows events env aq a"
  shows "follows events env
           (\<lambda>st. bind_exc (py_mod (opt_steps st) k) (\<lambda>r. if r = 0 then aq st else Inr st))
           (\<lambda>st. bind_exc (py_mod (opt_steps st) k) (\<lambda>r. if r = 0 then a st else Inr st))"
proof (rule followsI)
  fix s s'
  assume q: "bind_exc (py_mod (opt_steps s) k) (\<lambda>r. if r = 0 then aq s else Inr s) = Inr s'"
  then have k: "k \<noteq> 0" by (auto simp: bind_exc_Inr py_mod_Inr)
  show "\<exists>new. events s' = events s @ new \<and>
       (case first_raise env (events s) new of
          None \<Rightarrow> bind_exc (py_mod (opt_steps s) k) (\<lambda>r. if r = 0 then a s else Inr s) = Inr s'
        | Some x \<Rightarrow> bind_exc (py_mod (opt_steps s) k) (\<lambda>r. if r = 0 then a s else Inr s) = Inl (External x))"
  proof (cases "opt_steps s mod k = 0")
    case True
    with q k have "aq s = Inr s'" by (simp add: bind_exc_def py_mod_def)
    from followsD [OF a this] obtain new where t: "events s' = events s @ new"
      and c: "case first_raise env (events s) new of
          None \<Rightarrow> a s = Inr s'
        | Some x \<Rightarrow> a s = Inl (External x)" by blast
    from c True k have "case first_raise env (events s) new of
          None \<Rightarrow> bind_exc (py_mod (opt_steps s) k) (\<lambda>r. if r = 0 then a s else Inr s) = Inr s'
        | Some x \<Rightarrow> bind_exc (py_mod (opt_steps s) k) (\<lambda>r. if r = 0 then a s else Inr s) = Inl (External x)"
      by (simp add: bind_exc_def py_mod_def split: option.splits)
    with t show ?thesis by blast
  next
    case False
    with q k have "s' = s" by (simp add: bind_exc_def py_mod_def)
    with False k have "events s' = events s @ [] \<and>
       (case first_raise env (events s) [] of
          None \<Rightarrow> bind_exc (py_mod (opt_steps s) k) (\<lambda>r. if r = 0 then a s else Inr s) = Inr s'
        | Some x \<Rightarrow> bind_exc (py_mod (opt_steps s) k) (\<lambda>r. if r = 0 then a s else Inr s) = Inl (External x))"
      by (simp add: bind_exc_def py_mod_def)
    then show ?thesis by (rule exI)
  qed
qed

lemma follows_at:
  assumes "\<And>s. follows tr env (aq s) (a s)"
  shows "follows tr env (\<lambda>s. aq s s) (\<lambda>s. a s s)"
proof (rule followsI)
  fix s s'
  assume "aq s s = Inr s'"
  from followsD [OF assms this]
  show "\<exists>new. tr s' = tr s @ new \<and>
       (case first_raise env (tr s) new of
          None \<Rightarrow> a s s = Inr s'
        | Some x \<Rightarrow> a s s = Inl (External x))" .
qed

lemma follows_evaluate_main:
  "follows events env (evaluate_main (quiet_world env) self samples) (evaluate_main env self samples)"
  unfolding evaluate_main_def Let_def quiet_world_fields environ_truthy_quiet_world
  by (intro follows_run_Cons follows_run_Nil follows_call follows_Inr follows_if
        follows_case_option follows_logs_store follows_logs_merge)

lemma follows_evaluate: "follows events env (evaluate (quiet_world env) self) (evaluate env self)"
proof -
  have "follows events env (run
        [model_eval (quiet_world env),
         run (map (\<lambda>prompts. call (quiet_world env) (Model_sample False prompts (beta env)
                                  (gen_size (train (config self))) (logit_mask self)))
                (eval_batches env n)),
         call (quiet_world env) (Torch_vstack xs),
         call (quiet_world env) (Accelerator_gather (torch_vstack xs)),
         if is_main_process env then evaluate_main (quiet_world env) self x else Inr,
         model_train (quiet_world env)])
       (run
        [model_eval env,
         run (map (\<lambda>prompts. call env (Model_sample False prompts (beta env)
                                  (gen_size (train (config self))) (logit_mask self)))
                (eval_batches env n)),
         call env (Torch_vstack xs),
         call env (Accelerator_gather (torch_vstack xs)),
         if is_main_process env then evaluate_main env self x else Inr,
         model_train env])" for n xs x
    by (intro follows_run_Cons follows_run_Nil follows_run_map follows_call follows_Inr
          follows_if follows_model_eval follows_model_train follows_evaluate_main)
  then have main: "follows events env
     (\<lambda>st. run
        [model_eval (quiet_world env),
         run (map (\<lambda>prompts. call (quiet_world env) (Model_sample False prompts (beta env)
                                  (gen_size (train (config self))) (logit_mask self)))
                (eval_batches env (opt_steps st))),
         call (quiet_world env) (Torch_vstack (eval_samples env self (opt_steps st))),
         call (quiet_world env) (Accelerator_gather (torch_vstack (eval_samples env self (opt_steps st)))),
         if is_main_process env then evaluate_main (quiet_world env) self (eval_gathered env self (opt_steps st)) else Inr,
         model_train (quiet_world env)] st)
     (\<lambda>st. run
        [model_eval env,
         run (map (\<lambda>prompts. call env (Model_sample False prompts (beta env)
                                  (gen_size (train (config self))) (logit_mask self)))
                (eval_batches env (opt_steps st))),
         call env (Torch_vstack (eval_samples env self (opt_steps st))),
         call env (Accelerator_gather (torch_vstack (eval_samples env self (opt_steps st)))),
         if is_main_process env then evaluate_main env self (eval_gathered env self (opt_steps st)) else Inr,
         model_train env] st)"
    by (rule follows_at)
  have es: "eval_samples (quiet_world env) self n = eval_samples env self n" for n
    by (simp add: eval_samples_def quiet_world_fields)
  have eg: "eval_gathered (quiet_world env) self n = eval_gathered env self n" for n
    by (simp add: eval_gathered_def eval_samples_def quiet_world_fields)
  show ?thesis
    unfolding evaluate_def [abs_def] Let_def quiet_world_fields es eg by (rule main)
qed

lemma follows_log:
  "follows events env
      (\<lambda>st. run [logs_merge (snd (loss env (opt_steps st) (training st) b)),
                  \<lambda>st. call (quiet_world env) (Accelerator_log (logs st)) st] st)
      (\<lambda>st. run [logs_merge (snd (loss env (opt_steps st) (training st) b)),
                  \<lambda>st. call env (Accelerator_log (logs st)) st] st)"
  by (rule follows_at)
     (intro follows_run_Cons follows_run_Nil follows_logs_merge follows_step_call)

lemma follows_learn_batch:
  "follows events env (learn_batch (quiet_world env) self b) (learn_batch env self b)"
  unfolding learn_batch_def quiet_world_fields
  apply (intro follows_run_Cons follows_run_Nil)
  subgoal by (rule follows_mod [OF follows_evaluate])
  subgoal by (rule follows_step_call)
  subgoal by (rule follows_mod [OF follows_log])
  subgoal by (rule follows_step_call)
  subgoal by (rule follows_call)
  subgoal by (rule follows_call)
  subgoal by (intro follows_case_option follows_Inl follows_call)
  subgoal by (rule follows_counter)
  subgoal by (rule follows_mod [OF follows_call])
  done

lemma follows_learn_epoch:
  "follows events env (learn_epoch (quiet_world env) self k) (learn_epoch env self k)"
  unfolding learn_epoch_def quiet_world_fields
  by (intro follows_run_Cons follows_run_map follows_learn_batch follows_logs_reset)

lemma learn_as_run:
  assumes "opt self = Some ad"
  shows "learn env self =
     (case run
        [call env Clock_new,
         call env (Create_train_loader (batch_size (train (config self)))
            (case tokenizer self of Some tk \<Rightarrow> eos_token_id tk | None \<Rightarrow> Some 0)),
         call env (Create_eval_loader (batch_size (train (config self))) False),
         call env (Accelerator_prepare (model self) ad),
         run (map (learn_epoch env (self\<lparr>model := Prepared_model (model self), opt := Some (Prepared_opt ad)\<rparr>))
                [0..<nat (epochs (train (config self)))])]
        \<lparr>opt_steps = 0, logs = [], training = training0 env, trace = []\<rparr> of
        Inl e \<Rightarrow> Inl e
      | Inr st \<Rightarrow> Inr (self\<lparr>model := Prepared_model (model self), opt := Some (Prepared_opt ad)\<rparr>, st))"
  by (simp add: learn_def Let_def assms run.simps(2) bind_exc_def split: sum.splits)

lemma learn_follows:
  assumes "learn (quiet_world env) self = Inr (self', st)"
  shows "case first_raise env [] (map snd (trace st)) of
           None \<Rightarrow> learn env self = Inr (self', st)
         | Some x \<Rightarrow> learn env self = Inl (External x)"
proof -
  from assms obtain ad where ad: "opt self = Some ad"
    by (cases "opt self") (auto simp: learn_def Let_def bind_exc_def split: sum.splits)
  let ?self' = "self\<lparr>model := Prepared_model (model self), opt := Some (Prepared_opt ad)\<rparr>"
  let ?st0 = "\<lambda>env. \<lparr>opt_steps = 0, logs = [], training = training0 env, trace = []\<rparr>"
  let ?A = "\<lambda>env. run
        [call env Clock_new,
         call env (Create_train_loader (batch_size (train (config self)))
            (case tokenizer self of Some tk \<Rightarrow> eos_token_id tk | None \<Rightarrow> Some 0)),
         call env (Create_eval_loader (batch_size (train (config self))) False),
         call env (Accelerator_prepare (model self) ad),
         run (map (learn_epoch env ?self') [0..<nat (epochs (train (config self)))])]"
  have f: "follows events env (?A (quiet_world env)) (?A env)"
    by (intro follows_run_Cons follows_run_Nil follows_run_map follows_call follows_learn_epoch)
  have st0: "?st0 (quiet_world env) = ?st0 env" by (simp add: quiet_world_fields)
  from assms have q: "?A (quiet_world env) (?st0 env) = Inr st" and self': "self' = ?self'"
    unfolding learn_as_run [OF ad] st0 by (auto split: sum.splits)
  from followsD [OF f q] obtain new where t: "events st = events (?st0 env) @ new"
    and c: "case first_raise env (events (?st0 env)) new of
          None \<Rightarrow> ?A env (?st0 env) = Inr st
        | Some x \<Rightarrow> ?A env (?st0 env) = Inl (External x)" by blast
  from t have new: "new = map snd (trace st)" by (simp add: events_def)
  from c show ?thesis
    unfolding learn_as_run [OF ad] new self' by (simp add: events_def split: option.splits)
qed

lemma run_append: "run (as @ bs) s = bind_exc (run as s) (run bs)"
proof (induction as arbitrary: s)
  case Nil
  show ?case by (simp add: bind_exc_def)
next
  case (Cons a as)
  show ?case
    by (cases "a s") (simp_all add: run.simps(2) bind_exc_def Cons.IH)
qed

lemma run_two: "run [a, b] s = bind_exc (a s) b"
proof (cases "a s")
  case (Inl e)
  then show ?thesis by (simp add: run.simps(2) bind_exc_def)
next
  case (Inr s1)
  then show ?thesis by (cases "b s1") (simp_all add: run.simps(2) bind_exc_def)
qed

lemma result_first_raise:
  assumes "case fr of None \<Rightarrow> A = Inr t | Some x \<Rightarrow> A = Inl (External x)"
    and "B = (case A of Inl x \<Rightarrow> Inl x | Inr t \<Rightarrow> Inr (r, t))"
  shows "case fr of None \<Rightarrow> B = Inr (r, t) | Some x \<Rightarrow> B = Inl (External x)"
  using assms by (cases fr) simp_all

lemma init_follows:
  assumes "init (quiet_world env) g cfg p tok lm tm = Inr (self0, tr0)"
  shows "case first_raise env [] tr0 of
           None \<Rightarrow> init env g cfg p tok lm tm = Inr (self0, tr0)
         | Some x \<Rightarrow> init env g cfg p tok lm tm = Inl (External x)"
proof -
  let ?m = "QVModel p (method' cfg)"
  let ?ad = "AdamW ?m (learning_rate_init (train cfg))"
  let ?ratio = "learning_rate_target (train cfg) / learning_rate_init (train cfg)"
  let ?self = "\<lparr>config = cfg, train_mode = tm, model = ?m,
                  max_length = gen_size (train cfg), tokenizer = tok,
                  logit_mask = lm, opt = None, scheduler = None\<rparr>"
  let ?full = "?self\<lparr>opt := Some ?ad,
                    scheduler := Some (Rampup_decay (lr_ramp_steps (train cfg)) (lr_decay_steps (train cfg)) ?ratio ?ad)\<rparr>"
  let ?pre = "\<lambda>env.
        [call0 env (BaseRLModel_init cfg tm),
         call0 env (QVModel_new p (method' cfg)),
         call0 env (Accelerator_new ''wandb''),
         call0 env (Accelerator_print (environ env)),
         if WORLD_SIZE g > 1
         then call0 env (Distributed_barrier [LOCAL_RANK g])
         else call0 env (Manual_seed 1000),
         if is_main_process env
         then call0 env (Init_trackers (project_name (train cfg)) cfg)
         else Inr]"
  let ?opt = "\<lambda>env.
        [call0 env (AdamW_new ?m (learning_rate_init (train cfg))),
         call0 env (Rampup_decay_new (lr_ramp_steps (train cfg)) (lr_decay_steps (train cfg)) ?ratio ?ad)]"
  show ?thesis
  proof (cases tm)
    case False
    have as_run: "init e g cfg p tok lm tm =
        (case run (?pre e) [] of Inl x \<Rightarrow> Inl x | Inr tr \<Rightarrow> Inr (?self, tr))" for e
      using False by (cases "run (?pre e) []") (simp_all add: init_def Let_def bind_exc_def)
    have f: "follows (\<lambda>t. t) env (run (?pre (quiet_world env))) (run (?pre env))"
      unfolding quiet_world_fields
      by (intro follows_run_Cons follows_run_Nil follows_call0 follows_if follows_Inr)
    from assms have q: "run (?pre (quiet_world env)) [] = Inr tr0" and s0: "self0 = ?self"
      unfolding as_run by (auto split: sum.splits)
    from followsD [OF f q] obtain new where t: "tr0 = [] @ new"
      and c: "case first_raise env [] new of
            None \<Rightarrow> run (?pre env) [] = Inr tr0
          | Some x \<Rightarrow> run (?pre env) [] = Inl (External x)" by blast
    from t have new: "new = tr0" by simp
    show ?thesis
      unfolding s0 by (rule result_first_raise [OF c [unfolded new] as_run])
  next
    case True
    have nz: "learning_rate_init (train cfg) \<noteq> 0"
    proof
      assume z: "learning_rate_init (train cfg) = 0"
      show False
      proof (cases "run (?pre (quiet_world env)) []")
        case (Inl x)
        with assms show False by (simp add: init_def Let_def bind_exc_def)
      next
        case (Inr tr1)
        with assms True z show False
          by (simp add: init_def Let_def bind_exc_def py_truediv_def call0_def raises_quiet_world)
      qed
    qed
    have as_run: "init e g cfg p tok lm tm =
        (case run (?pre e @ ?opt e) [] of Inl x \<Rightarrow> Inl x | Inr tr \<Rightarrow> Inr (?full, tr))" for e
    proof (cases "run (?pre e) []")
      case (Inl x)
      then show ?thesis unfolding run_append by (simp add: init_def Let_def bind_exc_def)
    next
      case (Inr tr1)
      show ?thesis
      proof (cases "call0 e (AdamW_new ?m (learning_rate_init (train cfg))) tr1")
        case (Inl x)
        with Inr True show ?thesis
          unfolding run_append run_two by (simp add: init_def Let_def bind_exc_def)
      next
        case tr2: (Inr tr2)
        show ?thesis
        proof (cases "call0 e (Rampup_decay_new (lr_ramp_steps (train cfg)) (lr_decay_steps (train cfg))
              ?ratio ?ad) tr2")
          case (Inl x)
          with Inr tr2 True nz show ?thesis
            unfolding run_append run_two by (simp add: init_def Let_def bind_exc_def py_truediv_def)
        next
          case tr3: (Inr tr3)
          with Inr tr2 True nz show ?thesis
            unfolding run_append run_two by (simp add: init_def Let_def bind_exc_def py_truediv_def)
        qed
      qed
    qed
    have f: "follows (\<lambda>t. t) env (run (?pre (quiet_world env) @ ?opt (quiet_world env)))
               (run (?pre env @ ?opt env))"
      unfolding quiet_world_fields append.simps
      by (intro follows_run_Cons follows_run_Nil follows_call0 follows_if follows_Inr)
    from assms have q: "run (?pre (quiet_world env) @ ?opt (quiet_world env)) [] = Inr tr0"
      and s0: "self0 = ?full"
      unfolding as_run by (auto split: sum.splits)
    from followsD [OF f q] obtain new where t: "tr0 = [] @ new"
      and c: "case first_raise env [] new of
            None \<Rightarrow> run (?pre env @ ?opt env) [] = Inr tr0
          | Some x \<Rightarrow> run (?pre env @ ?opt env) [] = Inl (External x)" by blast
    from t have new: "new = tr0" by simp
    show ?thesis
      unfolding s0 by (rule result_first_raise [OF c [unfolded new] as_run])
  qed
qed

lemma tokenize_follows:
  assumes "tokenize (quiet_world env) self xs tr = Inr (enc, tr')"
  shows "\<exists>c. tr' = tr @ [c] \<and>
           (case raises env tr c of
              None \<Rightarrow> tokenize env self xs tr = Inr (enc, tr')
            | Some x \<Rightarrow> tokenize env self xs tr = Inl (External x))"
proof (cases "tokenizer self")
  case None
  with assms show ?thesis by (auto simp: tokenize_def split: if_splits)
next
  case (Some tk)
  with assms obtain ws where w: "wrap_texts tk xs = Inr ws"
    by (cases "wrap_texts tk xs") (auto simp: tokenize_def bind_exc_def)
  let ?c = "Tokenizer_call \<lparr>arg_texts = ws, arg_max_length = max_length self, arg_truncation = True,
                   arg_padding = True, arg_return_tensors = ''pt''\<rparr>"
  from assms Some w have t: "tr' = tr @ [?c]"
    and e: "enc = encode tk \<lparr>arg_texts = ws, arg_max_length = max_length self, arg_truncation = True,
                   arg_padding = True, arg_return_tensors = ''pt''\<rparr>"
    by (auto simp: tokenize_def bind_exc_def Let_def call0_def raises_quiet_world)
  have "case raises env tr ?c of
              None \<Rightarrow> tokenize env self xs tr = Inr (enc, tr')
            | Some x \<Rightarrow> tokenize env self xs tr = Inl (External x)"
    using Some w t e
    by (simp add: tokenize_def bind_exc_def Let_def call0_def split: option.splits)
  with t show ?thesis by blast
qed

lemma learn_quiet_returns:
  assumes "eval_interval (train (config self)) \<noteq> 0"
    and "steps_for_target_q_sync (method' (config self)) \<noteq> 0"
    and "opt self \<noteq> None" and "scheduler self \<noteq> None"
  shows "\<exists>self' st. learn (quiet_world env) self = Inr (self', st)"
proof -
  from assms(3) obtain ad where ad: "opt self = Some ad" by (cases "opt self") simp_all
  from assms(4) obtain sch where sch: "scheduler self = Some sch" by (cases "scheduler self") simp_all
  have q: "\<forall>h e. raises (quiet_world env) h e = None" by (simp add: raises_quiet_world)
  show ?thesis by (rule learn_returns [OF q assms(1) assms(2) ad sch])
qed

lemma learn_quiet_f:
  assumes "learn (quiet_world env_f) (self_w None) = Inr (self', st)"
  shows "first_raise env_f [] (map snd (trace st)) = Some ''OutOfMemoryError''"
proof -
  have "case learn (quiet_world env_f) (self_w None) of
          Inl e \<Rightarrow> False
        | Inr (self', st) \<Rightarrow> first_raise env_f [] (map snd (trace st)) = Some ''OutOfMemoryError''"
    by code_simp
  with assms show ?thesis by simp
qed

text \<open>
  An object with an optimizer and no scheduler, as no \<open>__init__\<close> makes it: \<open>learn\<close>
  ends in the first pass through the loop body, at \<open>self.scheduler.step()\<close>.
\<close>

lemma learn_without_scheduler:
  "learn env_w ((self_w None)\<lparr>scheduler := None\<rparr>) = Inl AttributeError"
proof -
  have "case learn env_w ((self_w None)\<lparr>scheduler := None\<rparr>) of
          Inl e \<Rightarrow> e = AttributeError
        | Inr r \<Rightarrow> False"
    by code_simp
  then show ?thesis by (cases "learn env_w ((self_w None)\<lparr>scheduler := None\<rparr>)") simp_all
qed

text \<open>
  C6. The four methods catch nothing and raise nothing of their own making. Take the
  calls that \<open>__init__\<close>, \<open>tokenize\<close> or \<open>learn\<close> makes into other libraries when none
  of them raises (the run in \<open>quiet_world env\<close>), and let them raise as \<open>env\<close> says.
  If none of them raises, the method returns what it returns in the quiet world. If one
  does, the method ends at the first of them that raises, with the very exception of
  that call: it is neither swallowed nor replaced, and no later call is made. For an
  object with non-zero intervals, an optimizer and a scheduler, \<open>learn\<close> does return in
  the quiet world, so this settles what \<open>learn\<close> does in every world. Furthermore an
  exception that comes out of a method, in any world, is either one that a call into
  another library raises (\<open>call_failure\<close>), or one of the interpreter's:
  \<open>ZeroDivisionError\<close> for a zero \<open>learning_rate_init\<close>, \<open>eval_interval\<close> or
  \<open>steps_for_target_q_sync\<close>, \<open>AttributeError\<close> for a missing tokenizer, optimizer or
  scheduler, \<open>TypeError\<close> for a missing \<open>bos_token\<close> or \<open>eos_token\<close> or for the call
  of a missing tokenizer on no text. \<open>get_components\<close> calls nothing, and can only
  raise \<open>AttributeError\<close>, on an object in training mode without optimizer or
  scheduler.
\<close>

theorem exceptions_propagate:
  "(\<forall>self0 tr0. init (quiet_world env) g cfg p tok lm tm = Inr (self0, tr0) \<longrightarrow>
      (case first_raise env [] tr0 of
         None \<Rightarrow> init env g cfg p tok lm tm = Inr (self0, tr0)
       | Some x \<Rightarrow> init env g cfg p tok lm tm = Inl (External x))) \<and>
   (\<forall>e. init env g cfg p tok lm tm = Inl e \<longrightarrow>
      (e = ZeroDivisionError \<and> tm \<and> learning_rate_init (train cfg) = 0) \<or> call_failure env e) \<and>
   (\<forall>enc tr'. tokenize (quiet_world env) self xs tr = Inr (enc, tr') \<longrightarrow>
      (\<exists>c. tr' = tr @ [c] \<and>
         (case raises env tr c of
            None \<Rightarrow> tokenize env self xs tr = Inr (enc, tr')
          | Some x \<Rightarrow> tokenize env self xs tr = Inl (External x)))) \<and>
   (\<forall>e. tokenize env self xs tr = Inl e \<longrightarrow>
      (e = AttributeError \<and> tokenizer self = None \<and> xs \<noteq> []) \<or>
      (e = TypeError \<and> tokenizer self = None \<and> xs = []) \<or>
      (e = TypeError \<and> xs \<noteq> [] \<and>
         (\<exists>tk. tokenizer self = Some tk \<and> (bos_token tk = None \<or> eos_token tk = None))) \<or>
      (\<exists>c x. raises env tr c = Some x \<and> e = External x)) \<and>
   (\<forall>e. get_components self = Inl e \<longrightarrow>
      e = AttributeError \<and> train_mode self \<and> (opt self = None \<or> scheduler self = None)) \<and>
   (\<forall>self' st. learn (quiet_world env) self = Inr (self', st) \<longrightarrow>
      (case first_raise env [] (map snd (trace st)) of
         None \<Rightarrow> learn env self = Inr (self', st)
       | Some x \<Rightarrow> learn env self = Inl (External x))) \<and>
   (eval_interval (train (config self)) \<noteq> 0 \<and> steps_for_target_q_sync (method' (config self)) \<noteq> 0 \<and>
    opt self \<noteq> None \<and> scheduler self \<noteq> None \<longrightarrow>
      (\<exists>self' st. learn (quiet_world env) self = Inr (self', st))) \<and>
   (\<forall>e. learn env self = Inl e \<longrightarrow>
      (e = ZeroDivisionError \<and>
       (eval_interval (train (config self)) = 0 \<or> steps_for_target_q_sync (method' (config self)) = 0)) \<or>
      (e = AttributeError \<and> (opt self = None \<or> scheduler self = None)) \<or>
      call_failure env e)"
proof -
  have 1: "\<forall>self0 tr0. init (quiet_world env) g cfg p tok lm tm = Inr (self0, tr0) \<longrightarrow>
      (case first_raise env [] tr0 of
         None \<Rightarrow> init env g cfg p tok lm tm = Inr (self0, tr0)
       | Some x \<Rightarrow> init env g cfg p tok lm tm = Inl (External x))"
    by (intro allI impI) (rule init_follows)
  have 2: "\<forall>e. init env g cfg p tok lm tm = Inl e \<longrightarrow>
      (e = ZeroDivisionError \<and> tm \<and> learning_rate_init (train cfg) = 0) \<or> call_failure env e"
    by (intro allI impI) (rule init_fails)
  have 3: "\<forall>enc tr'. tokenize (quiet_world env) self xs tr = Inr (enc, tr') \<longrightarrow>
      (\<exists>c. tr' = tr @ [c] \<and>
         (case raises env tr c of
            None \<Rightarrow> tokenize env self xs tr = Inr (enc, tr')
          | Some x \<Rightarrow> tokenize env self xs tr = Inl (External x)))"
    by (intro allI impI) (rule tokenize_follows)
  have 4: "\<forall>e. tokenize env self xs tr = Inl e \<longrightarrow>
      (e = AttributeError \<and> tokenizer self = None \<and> xs \<noteq> []) \<or>
      (e = TypeError \<and> tokenizer self = None \<and> xs = []) \<or>
      (e = TypeError \<and> xs \<noteq> [] \<and>
         (\<exists>tk. tokenizer self = Some tk \<and> (bos_token tk = None \<or> eos_token tk = None))) \<or>
      (\<exists>c x. raises env tr c = Some x \<and> e = External x)"
    by (intro allI impI) (rule tokenize_fails)
  have 5: "\<forall>e. get_components self = Inl e \<longrightarrow>
      e = AttributeError \<and> train_mode self \<and> (opt self = None \<or> scheduler self = None)"
    by (intro allI impI) (rule get_components_fails)
  have 6: "\<forall>self' st. learn (quiet_world env) self = Inr (self', st) \<longrightarrow>
      (case first_raise env [] (map snd (trace st)) of
         None \<Rightarrow> learn env self = Inr (self', st)
       | Some x \<Rightarrow> learn env self = Inl (External x))"
    by (intro allI impI) (rule learn_follows)
  have 7: "eval_interval (train (config self)) \<noteq> 0 \<and> steps_for_target_q_sync (method' (config self)) \<noteq> 0 \<and>
    opt self \<noteq> None \<and> scheduler self \<noteq> None \<longrightarrow>
      (\<exists>self' st. learn (quiet_world env) self = Inr (self', st))"
  proof
    assume a: "eval_interval (train (config self)) \<noteq> 0 \<and>
      steps_for_target_q_sync (method' (config self)) \<noteq> 0 \<and>
      opt self \<noteq> None \<and> scheduler self \<noteq> None"
    show "\<exists>self' st. learn (quiet_world env) self = Inr (self', st)"
      by (rule learn_quiet_returns [OF a [THEN conjunct1] a [THEN conjunct2, THEN conjunct1]
            a [THEN conjunct2, THEN conjunct2, THEN conjunct1]
            a [THEN conjunct2, THEN conjunct2, THEN conjunct2]])
  qed
  have 8: "\<forall>e. learn env self = Inl e \<longrightarrow>
      (e = ZeroDivisionError \<and>
       (eval_interval (train (config self)) = 0 \<or> steps_for_target_q_sync (method' (config self)) = 0)) \<or>
      (e = AttributeError \<and> (opt self = None \<or> scheduler self = None)) \<or>
      call_failure env e"
    by (intro allI impI) (rule learn_fails)
  show ?thesis using 1 2 3 4 5 6 7 8 by (intro conjI) assumption+
qed

theorem exceptions_propagate_witness:
  "learn env_f (self_w None) = Inl (External ''OutOfMemoryError'') \<and>
   (\<exists>self' st. learn (quiet_world env_f) (self_w None) = Inr (self', st) \<and>
      first_raise env_f [] (map snd (trace st)) = Some ''OutOfMemoryError'' \<and>
      Opt_step \<in> set (map snd (trace st)) \<and>
      raises env_f [] Opt_step = Some ''OutOfMemoryError'')"
proof -
  note t = exceptions_propagate [of env_f g_w cfg_w "''gpt2''" None None True "self_w None" "[]" "[]"]
  note t6 = t [THEN conjunct2, THEN conjunct2, THEN conjunct2, THEN conjunct2, THEN conjunct2, THEN conjunct1]
  note t7 = t [THEN conjunct2, THEN conjunct2, THEN conjunct2, THEN conjunct2, THEN conjunct2,
      THEN conjunct2, THEN conjunct1]
  have cfg: "eval_interval (train (config (self_w None))) \<noteq> 0 \<and>
      steps_for_target_q_sync (method' (config (self_w None))) \<noteq> 0 \<and>
      opt (self_w None) \<noteq> None \<and> scheduler (self_w None) \<noteq> None"
    by (simp add: self_w_def cfg_w_def)
  from t7 [rule_format, OF cfg] obtain self' st where
    l: "learn (quiet_world env_f) (self_w None) = Inr (self', st)" by blast
  note fr = learn_quiet_f [OF l]
  from t6 [rule_format, OF l] have f: "learn env_f (self_w None) = Inl (External ''OutOfMemoryError'')"
    unfolding fr by simp
  have o: "Opt_step \<in> set (map snd (trace st))"
  proof (rule ccontr)
    assume n: "Opt_step \<notin> set (map snd (trace st))"
    have "first_raise env_f h cs = None" if "Opt_step \<notin> set cs" for h cs
      using that by (induction cs arbitrary: h) (auto simp: env_f_def)
    from this [OF n] fr show False by simp
  qed
  have r: "raises env_f [] Opt_step = Some ''OutOfMemoryError''" by (simp add: env_f_def)
  from l fr o r have "\<exists>self' st. learn (quiet_world env_f) (self_w None) = Inr (self', st) \<and>
      first_raise env_f [] (map snd (trace st)) = Some ''OutOfMemoryError'' \<and>
      Opt_step \<in> set (map snd (trace st)) \<and>
      raises env_f [] Opt_step = Some ''OutOfMemoryError''"
    by blast
  with f show ?thesis by (rule conjI)
qed

end
